(* ===== verification/Ledger_Prelude.thy ===== *)
theory Ledger_Prelude
  imports Complex_Main "HOL-Library.Multiset" "HOL-Library.Char_ord" "HOL-Library.List_Lexorder"
begin

text \<open>
  The vocabulary shared by every component: Go's error values, results and state-passing
  operations, the development's lemma collections, and generic facts about maps, sums over
  finite maps and appended lists.

  A Go function returning \<open>(T, error)\<close> is a value of type \<open>'a result\<close>. The value a Go
  function returns beside a non-nil error is dropped: every caller under src/ tests the error
  before it looks at the value.
\<close>

section \<open>Errors and results\<close>

text \<open>
  \<open>Err\<close> is an error made by \<open>errors.New\<close> or \<open>fmt.Errorf\<close> with its message,
  \<open>ErrNotFound\<close> the sentinel of the store package, \<open>ExternalErr\<close> an error that comes from
  outside the repository (payment provider, database driver, broker, HTTP client), and
  \<open>Panic\<close> a run-time panic.
\<close>

datatype error = Err string | ErrNotFound | ExternalErr string | Panic string

type_synonym 'a result = "error + 'a"
type_synonym ('s, 'a) op = "'s \<Rightarrow> 'a result \<times> 's"

text \<open>The text \<open>err.Error()\<close> of an error.\<close>

fun Error :: "error \<Rightarrow> string" where
  "Error (Err m) = m"
| "Error ErrNotFound = ''payment not found''"
| "Error (ExternalErr m) = m"
| "Error (Panic m) = m"

section \<open>Lemma collections\<close>

text \<open>
  \<open>store_simps\<close> collects the equations of store operations, \<open>abs_simps\<close> the equations of
  abstraction functions, and \<open>balance_simps\<close> the effect of appended entries on balances.
\<close>

named_theorems store_simps
named_theorems abs_simps
named_theorems balance_simps

section \<open>Sums over finite maps\<close>

definition dom_sum :: "('v \<Rightarrow> rat) \<Rightarrow> ('k \<rightharpoonup> 'v) \<Rightarrow> rat" where
  "dom_sum f m = (\<Sum>k \<in> dom m. f (the (m k)))"

lemma dom_sum_empty [simp]: "dom_sum f Map.empty = 0"
  by (simp add: dom_sum_def)

lemma dom_sum_new:
  assumes "finite (dom m)" and "m k = None"
  shows "dom_sum f (m(k \<mapsto> v)) = dom_sum f m + f v"
proof -
  have "k \<notin> dom m" using assms(2) by auto
  then have "(\<Sum>j \<in> dom m. f (the ((m(k \<mapsto> v)) j))) = dom_sum f m"
    unfolding dom_sum_def by (intro sum.cong) auto
  with assms(1) \<open>k \<notin> dom m\<close> show ?thesis
    by (simp add: dom_sum_def)
qed

lemma dom_sum_upd:
  assumes "finite (dom m)" and "m k = Some u"
  shows "dom_sum f (m(k \<mapsto> v)) = dom_sum f m - f u + f v"
proof -
  have k: "k \<in> dom m" using assms(2) by auto
  have split: "(\<Sum>j \<in> dom m. g j) = g k + (\<Sum>j \<in> dom m - {k}. g j)" for g :: "_ \<Rightarrow> rat"
    using assms(1) k by (simp add: sum.remove)
  have rest: "(\<Sum>j \<in> dom m - {k}. f (the ((m(k \<mapsto> v)) j))) = (\<Sum>j \<in> dom m - {k}. f (the (m j)))"
    by (intro sum.cong) auto
  have "dom_sum f (m(k \<mapsto> v)) = (\<Sum>j \<in> dom m. f (the ((m(k \<mapsto> v)) j)))"
    using k by (simp add: dom_sum_def insert_absorb)
  also have "\<dots> = f v + (\<Sum>j \<in> dom m - {k}. f (the (m j)))"
    using split [of "\<lambda>j. f (the ((m(k \<mapsto> v)) j))"] rest by simp
  finally show ?thesis
    using split [of "\<lambda>j. f (the (m j))"] assms(2) by (simp add: dom_sum_def)
qed

lemma dom_sum_same:
  assumes "finite (dom m)" and "m k = Some u" and "f v = f u"
  shows "dom_sum f (m(k \<mapsto> v)) = dom_sum f m"
  using dom_sum_upd [OF assms(1,2), of f v] assms(3) by simp

lemma dom_sum_nonneg:
  assumes "\<And>k v. m k = Some v \<Longrightarrow> 0 \<le> f v"
  shows "0 \<le> dom_sum f m"
  unfolding dom_sum_def using assms by (intro sum_nonneg) auto

lemma dom_sum_cong:
  assumes "\<And>k v. m k = Some v \<Longrightarrow> f v = g v"
  shows "dom_sum f m = dom_sum g m"
  unfolding dom_sum_def using assms by (intro sum.cong) auto

section \<open>Bindings of a map\<close>

lemma upd_SomeE:
  assumes "(m(k \<mapsto> v)) j = Some u"
  obtains "j = k" "u = v" | "j \<noteq> k" "m j = Some u"
  using assms by (auto split: if_splits)

lemma card_dom_new:
  "finite (dom m) \<Longrightarrow> m k = None \<Longrightarrow> card (dom (m(k \<mapsto> v))) = Suc (card (dom m))"
  by (simp add: card_insert_if domIff)

section \<open>An order that visits every key\<close>

text \<open>
  Go iterates over a map in an order the run-time chooses. The order is a parameter of the
  operations that range over a map; \<open>visits m ks\<close> says that the list \<open>ks\<close> is such an order.
\<close>

definition visits :: "('k \<rightharpoonup> 'v) \<Rightarrow> 'k list \<Rightarrow> bool" where
  "visits m ks \<longleftrightarrow> distinct ks \<and> set ks = dom m"

lemma visits_Some: "visits m ks \<Longrightarrow> k \<in> set ks \<Longrightarrow> \<exists>v. m k = Some v"
  by (auto simp: visits_def)

lemma visits_finite: "visits m ks \<Longrightarrow> finite (dom m)"
  unfolding visits_def by (metis List.finite_set)

end
