(* ===== verification/Decimal_Ext.thy ===== *)
theory Decimal_Ext
  imports Ledger_Prelude
begin

text \<open>
  The package github.com/shopspring/decimal is not part of the repository. Its type is the
  type variable \<open>'d\<close>, and the functions the code calls are the fields of the record
  \<open>decimal_pkg\<close>, an argument of every definition that uses them. What the code relies on is
  the locale \<open>decimal_laws\<close>: the documented meaning of each function, stated through the
  number \<open>val x\<close> that a decimal stands for. Decimals are exact (a coefficient times a power of
  ten), so the numbers are rationals. The last section interprets the locale on decimals made
  of a coefficient and an exponent.
\<close>

section \<open>The functions of the package\<close>

record 'd decimal_pkg =
  decZero :: 'd                                  \<comment> \<open>\<open>decimal.Zero\<close>\<close>
  decNil :: 'd                                   \<comment> \<open>the zero value \<open>decimal.Decimal{}\<close>\<close>
  decAdd :: "'d \<Rightarrow> 'd \<Rightarrow> 'd"                       \<comment> \<open>\<open>x.Add(y)\<close>\<close>
  decSub :: "'d \<Rightarrow> 'd \<Rightarrow> 'd"                       \<comment> \<open>\<open>x.Sub(y)\<close>\<close>
  decGreaterThan :: "'d \<Rightarrow> 'd \<Rightarrow> bool"             \<comment> \<open>\<open>x.GreaterThan(y)\<close>\<close>
  decLessThan :: "'d \<Rightarrow> 'd \<Rightarrow> bool"                \<comment> \<open>\<open>x.LessThan(y)\<close>\<close>
  decLessThanOrEqual :: "'d \<Rightarrow> 'd \<Rightarrow> bool"         \<comment> \<open>\<open>x.LessThanOrEqual(y)\<close>\<close>
  decEqual :: "'d \<Rightarrow> 'd \<Rightarrow> bool"                   \<comment> \<open>\<open>x.Equal(y)\<close>\<close>
  decIsNegative :: "'d \<Rightarrow> bool"                   \<comment> \<open>\<open>x.IsNegative()\<close>\<close>
  decIsZero :: "'d \<Rightarrow> bool"                       \<comment> \<open>\<open>x.IsZero()\<close>\<close>
  decNewFromString :: "string \<Rightarrow> 'd result"       \<comment> \<open>\<open>decimal.NewFromString(s)\<close>\<close>
  decMarshalJSON :: "'d \<Rightarrow> string result"         \<comment> \<open>\<open>x.MarshalJSON()\<close>\<close>

section \<open>Their documented meaning\<close>

locale decimal_laws =
  fixes D :: "'d decimal_pkg" and val :: "'d \<Rightarrow> rat"
  assumes val_Zero [simp]: "val (decZero D) = 0"
    and val_Nil [simp]: "val (decNil D) = 0"
    and val_Add [simp]: "val (decAdd D x y) = val x + val y"
    and val_Sub [simp]: "val (decSub D x y) = val x - val y"
    and GreaterThan_iff [simp]: "decGreaterThan D x y \<longleftrightarrow> val x > val y"
    and LessThan_iff [simp]: "decLessThan D x y \<longleftrightarrow> val x < val y"
    and LessThanOrEqual_iff [simp]: "decLessThanOrEqual D x y \<longleftrightarrow> val x \<le> val y"
    and Equal_iff [simp]: "decEqual D x y \<longleftrightarrow> val x = val y"
    and IsNegative_iff [simp]: "decIsNegative D x \<longleftrightarrow> val x < 0"
    and IsZero_iff [simp]: "decIsZero D x \<longleftrightarrow> val x = 0"

section \<open>Decimals as coefficient and exponent\<close>

text \<open>
  \<open>Dec c e\<close> stands for \<open>c * 10 ^ e\<close>, the representation the package documents. Sums and
  comparisons bring both operands to the smaller exponent first.
\<close>

datatype coef_exp = Dec int int

fun ce_val :: "coef_exp \<Rightarrow> rat" where
  "ce_val (Dec c e) = of_int c * 10 powi e"

definition ce_shift :: "int \<Rightarrow> int \<Rightarrow> int \<Rightarrow> int" where
  "ce_shift m c e = c * 10 ^ nat (e - m)"

fun ce_map2 :: "(int \<Rightarrow> int \<Rightarrow> int) \<Rightarrow> coef_exp \<Rightarrow> coef_exp \<Rightarrow> coef_exp" where
  "ce_map2 f (Dec c e) (Dec c' e') =
     Dec (f (ce_shift (min e e') c e) (ce_shift (min e e') c' e')) (min e e')"

fun ce_cmp :: "(int \<Rightarrow> int \<Rightarrow> bool) \<Rightarrow> coef_exp \<Rightarrow> coef_exp \<Rightarrow> bool" where
  "ce_cmp r (Dec c e) (Dec c' e') = r (ce_shift (min e e') c e) (ce_shift (min e e') c' e')"

fun ce_coef :: "coef_exp \<Rightarrow> int" where
  "ce_coef (Dec c e) = c"

fun digits_value :: "int \<Rightarrow> string \<Rightarrow> int option" where
  "digits_value acc [] = Some acc"
| "digits_value acc (c # cs) =
     (if c \<in> set ''0123456789'' then digits_value (10 * acc + (of_char c - 48)) cs else None)"

fun ce_parse :: "string \<Rightarrow> coef_exp result" where
  "ce_parse s =
     (let whole = takeWhile (\<lambda>c. c \<noteq> CHR ''.'') s; frac = drop (Suc (length whole)) s
      in if whole @ frac = [] then Inl (ExternalErr ''can't convert to decimal'')
         else case digits_value 0 (whole @ frac) of
           None \<Rightarrow> Inl (ExternalErr ''can't convert to decimal'')
         | Some c \<Rightarrow> Inr (Dec c (- int (length frac))))"

fun nat_digits :: "nat \<Rightarrow> string" where
  "nat_digits n =
     (if n < 10 then [char_of (48 + n)] else nat_digits (n div 10) @ [char_of (48 + n mod 10)])"

declare nat_digits.simps [simp del]

fun ce_string :: "coef_exp \<Rightarrow> string" where
  "ce_string (Dec c e) =
     (let n = nat \<bar>c\<bar>; k = nat (- e); frac = nat_digits (n mod 10 ^ k)
      in (if c < 0 then ''-'' else []) @
         (if 0 \<le> e then nat_digits (n * 10 ^ nat e)
          else nat_digits (n div 10 ^ k) @ ''.'' @ replicate (k - length frac) CHR ''0'' @ frac))"

definition ce_pkg :: "coef_exp decimal_pkg" where
  "ce_pkg = \<lparr>decZero = Dec 0 1, decNil = Dec 0 0, decAdd = ce_map2 (+), decSub = ce_map2 (-),
     decGreaterThan = ce_cmp (>), decLessThan = ce_cmp (<), decLessThanOrEqual = ce_cmp (\<le>),
     decEqual = ce_cmp (=), decIsNegative = (\<lambda>x. ce_coef x < 0), decIsZero = (\<lambda>x. ce_coef x = 0),
     decNewFromString = ce_parse, decMarshalJSON = (\<lambda>x. Inr (CHR 0x22 # ce_string x @ [CHR 0x22]))\<rparr>"

lemma ce_shift_val: "m \<le> e \<Longrightarrow> of_int (ce_shift m c e) * (10 :: rat) powi m = of_int c * 10 powi e"
proof -
  assume "m \<le> e"
  then have e: "(10 :: rat) powi e = 10 powi (e - m) * 10 powi m"
    by (simp flip: power_int_add)
  from \<open>m \<le> e\<close> have "(10 :: rat) powi (e - m) = 10 ^ nat (e - m)"
    by (simp add: power_int_def)
  with e show ?thesis by (simp add: ce_shift_def)
qed

lemma ce_map2_val:
  assumes "\<And>a b. of_int (f a b) = (g (of_int a) (of_int b) :: rat)"
    and "\<And>a b c. g a b * c = g (a * c) (b * c)"
  shows "ce_val (ce_map2 f x y) = g (ce_val x) (ce_val y)"
  by (cases x; cases y) (simp add: assms ce_shift_val)

lemma ce_cmp_val:
  assumes "\<And>a b. f a b \<longleftrightarrow> r (of_int a) (of_int b :: rat)"
    and "\<And>a b c. 0 < c \<Longrightarrow> r a b \<longleftrightarrow> r (a * c) (b * c)"
  shows "ce_cmp f x y \<longleftrightarrow> r (ce_val x) (ce_val y)"
proof (cases x; cases y)
  fix c e c' e' assume "x = Dec c e" "y = Dec c' e'"
  moreover have "(0 :: rat) < 10 powi min e e'" by simp
  ultimately show ?thesis
    using assms(2) [of "10 powi min e e'" "of_int (ce_shift (min e e') c e)"
        "of_int (ce_shift (min e e') c' e')"]
    by (simp add: assms(1) ce_shift_val)
qed

lemma ce_coef_neg: "ce_coef x < 0 \<longleftrightarrow> ce_val x < 0"
proof (cases x)
  case (Dec c e)
  have "(0 :: rat) < 10 powi e" by simp
  then have "\<not> (10 :: rat) powi e < 0" by linarith
  with Dec show ?thesis by (simp add: mult_less_0_iff)
qed

lemma ce_coef_zero: "ce_coef x = 0 \<longleftrightarrow> ce_val x = 0"
  by (cases x) simp

interpretation ce: decimal_laws ce_pkg ce_val
proof
  show "ce_val (decAdd ce_pkg x y) = ce_val x + ce_val y" for x y
    using ce_map2_val [of "(+)" "(+)"] by (simp add: ce_pkg_def algebra_simps)
  show "ce_val (decSub ce_pkg x y) = ce_val x - ce_val y" for x y
    using ce_map2_val [of "(-)" "(-)"] by (simp add: ce_pkg_def algebra_simps)
  show "decGreaterThan ce_pkg x y \<longleftrightarrow> ce_val x > ce_val y" for x y
    using ce_cmp_val [of "(>)" "(>)"] by (simp add: ce_pkg_def)
  show "decLessThan ce_pkg x y \<longleftrightarrow> ce_val x < ce_val y" for x y
    using ce_cmp_val [of "(<)" "(<)"] by (simp add: ce_pkg_def)
  show "decLessThanOrEqual ce_pkg x y \<longleftrightarrow> ce_val x \<le> ce_val y" for x y
    using ce_cmp_val [of "(\<le>)" "(\<le>)"] by (simp add: ce_pkg_def)
  show "decEqual ce_pkg x y \<longleftrightarrow> ce_val x = ce_val y" for x y
    using ce_cmp_val [of "(=)" "(=)"] by (simp add: ce_pkg_def)
qed (simp_all add: ce_pkg_def ce_coef_neg ce_coef_zero)

end
