(* ===== verification/Go_Strings.thy ===== *)
theory Go_Strings
  imports Ledger_Prelude "HOL-Library.Sublist"
begin

text \<open>
  What the code uses of Go's strings, encoding/hex and encoding/json packages. A Go string is
  a sequence of bytes, and so is a \<open>string\<close> of HOL: \<open>length\<close> is Go's \<open>len\<close>. Code points
  beyond ASCII are their UTF-8 bytes. Only the upper-case mapping of non-ASCII text, a table of
  the Unicode standard, stays a parameter (\<open>U\<close> below).
\<close>

section \<open>strings.TrimSpace\<close>

text \<open>The UTF-8 encodings of the code points that \<open>unicode.IsSpace\<close> accepts.\<close>

definition space_runes :: "string list" where
  "space_runes =
     [[CHR 0x09], [CHR 0x0A], [CHR 0x0B], [CHR 0x0C], [CHR 0x0D], [CHR 0x20],
      [CHR 0xC2, CHR 0x85], [CHR 0xC2, CHR 0xA0], [CHR 0xE1, CHR 0x9A, CHR 0x80],
      [CHR 0xE2, CHR 0x80, CHR 0x80], [CHR 0xE2, CHR 0x80, CHR 0x81],
      [CHR 0xE2, CHR 0x80, CHR 0x82], [CHR 0xE2, CHR 0x80, CHR 0x83],
      [CHR 0xE2, CHR 0x80, CHR 0x84], [CHR 0xE2, CHR 0x80, CHR 0x85],
      [CHR 0xE2, CHR 0x80, CHR 0x86], [CHR 0xE2, CHR 0x80, CHR 0x87],
      [CHR 0xE2, CHR 0x80, CHR 0x88], [CHR 0xE2, CHR 0x80, CHR 0x89],
      [CHR 0xE2, CHR 0x80, CHR 0x8A], [CHR 0xE2, CHR 0x80, CHR 0xA8],
      [CHR 0xE2, CHR 0x80, CHR 0xA9], [CHR 0xE2, CHR 0x80, CHR 0xAF],
      [CHR 0xE2, CHR 0x81, CHR 0x9F], [CHR 0xE3, CHR 0x80, CHR 0x80]]"

lemma space_runes_nonempty: "r \<in> set space_runes \<Longrightarrow> 0 < length r"
  by (auto simp: space_runes_def)

function TrimLeftSpace :: "string \<Rightarrow> string" where
  "TrimLeftSpace s =
     (case find (\<lambda>r. prefix r s) space_runes of
        None \<Rightarrow> s | Some r \<Rightarrow> TrimLeftSpace (drop (length r) s))"
  by pat_completeness auto
termination
proof (relation "measure length")
  fix s r assume "find (\<lambda>r. prefix r s) space_runes = Some r"
  then have "r \<in> set space_runes" "prefix r s"
    by (auto simp: find_Some_iff)
  then have "0 < length r" "length r \<le> length s"
    by (auto dest: space_runes_nonempty prefix_length_le)
  then show "(drop (length r) s, s) \<in> measure length"
    by (simp del: length_greater_0_conv)
qed simp

function TrimRightSpace :: "string \<Rightarrow> string" where
  "TrimRightSpace s =
     (case find (\<lambda>r. suffix r s) space_runes of
        None \<Rightarrow> s | Some r \<Rightarrow> TrimRightSpace (take (length s - length r) s))"
  by pat_completeness auto
termination
proof (relation "measure length")
  fix s r assume "find (\<lambda>r. suffix r s) space_runes = Some r"
  then have "r \<in> set space_runes" "suffix r s"
    by (auto simp: find_Some_iff)
  then have "0 < length r" "length r \<le> length s"
    by (auto dest: space_runes_nonempty suffix_length_le)
  then show "(take (length s - length r) s, s) \<in> measure length"
    by (simp del: length_greater_0_conv)
qed simp

declare TrimLeftSpace.simps [simp del] TrimRightSpace.simps [simp del]

definition TrimSpace :: "string \<Rightarrow> string" where
  "TrimSpace s = TrimRightSpace (TrimLeftSpace s)"

lemma TrimLeftSpace_suffix: "suffix (TrimLeftSpace s) s"
proof (induction s rule: TrimLeftSpace.induct)
  case (1 s)
  show ?case
  proof (cases "find (\<lambda>r. prefix r s) space_runes")
    case None
    then show ?thesis by (simp add: TrimLeftSpace.simps [of s])
  next
    case (Some r)
    with "1.IH" [OF Some] show ?thesis
      by (simp add: TrimLeftSpace.simps [of s]) (metis suffix_drop suffix_order.trans)
  qed
qed

lemma TrimRightSpace_prefix: "prefix (TrimRightSpace s) s"
proof (induction s rule: TrimRightSpace.induct)
  case (1 s)
  show ?case
  proof (cases "find (\<lambda>r. suffix r s) space_runes")
    case None
    then show ?thesis by (simp add: TrimRightSpace.simps [of s])
  next
    case (Some r)
    with "1.IH" [OF Some] show ?thesis
      by (simp add: TrimRightSpace.simps [of s]) (metis take_is_prefix prefix_order.trans)
  qed
qed

lemma TrimSpace_sublist: "sublist (TrimSpace s) s"
  unfolding TrimSpace_def using TrimLeftSpace_suffix [of s] TrimRightSpace_prefix [of "TrimLeftSpace s"]
  by (blast intro: prefix_imp_sublist suffix_imp_sublist sublist_order.order.trans)

lemma TrimSpace_Nil [simp]: "TrimSpace [] = []"
  using TrimSpace_sublist [of "[]"] by simp

section \<open>strings.ToUpper\<close>

definition isASCII :: "string \<Rightarrow> bool" where
  "isASCII s = list_all (\<lambda>c. of_char c < (128 :: nat)) s"

definition upperASCII :: "char \<Rightarrow> char" where
  "upperASCII c =
     (if CHR ''a'' \<le> c \<and> c \<le> CHR ''z'' then char_of (of_char c - (32 :: nat)) else c)"

text \<open>\<open>U\<close> is the mapping of non-ASCII text by \<open>unicode.ToUpper\<close>.\<close>

definition ToUpper :: "(string \<Rightarrow> string) \<Rightarrow> string \<Rightarrow> string" where
  "ToUpper U s = (if isASCII s then map upperASCII s else U s)"

lemma length_ToUpper_ascii: "isASCII s \<Longrightarrow> length (ToUpper U s) = length s"
  by (simp add: ToUpper_def)

lemma upperASCII_idem [simp]: "upperASCII (upperASCII c) = upperASCII c"
proof (cases "CHR ''a'' \<le> c \<and> c \<le> CHR ''z''")
  case True
  have "of_char c - 32 < (256 :: nat)"
    using nat_of_char_less_256 [of c] by linarith
  then have "of_char (char_of (of_char c - (32 :: nat))) = (of_char c - (32 :: nat))"
    by simp
  with True show ?thesis by (simp add: upperASCII_def less_eq_char_def) linarith
next
  case False
  then have "upperASCII c = c" by (auto simp: upperASCII_def)
  then show ?thesis by simp
qed

section \<open>strings.Split and strings.SplitN with a one-byte separator\<close>

fun Split :: "char \<Rightarrow> string \<Rightarrow> string list" where
  "Split sep [] = [[]]"
| "Split sep (c # cs) =
     (if c = sep then [] # Split sep cs
      else case Split sep cs of [] \<Rightarrow> [[c]] | p # ps \<Rightarrow> (c # p) # ps)"

text \<open>\<open>SplitN(s, sep, 2)\<close>: split at the first separator only.\<close>

definition SplitN2 :: "char \<Rightarrow> string \<Rightarrow> string list" where
  "SplitN2 sep s =
     (let a = takeWhile (\<lambda>c. c \<noteq> sep) s
      in if length a = length s then [s] else [a, drop (Suc (length a)) s])"

lemma Split_nonempty: "Split sep s \<noteq> []"
  by (induction s) (auto split: list.splits)

lemma Split_no_sep: "p \<in> set (Split sep s) \<Longrightarrow> sep \<notin> set p"
  by (induction s arbitrary: p) (fastforce split: if_splits list.splits)+

section \<open>encoding/hex\<close>

definition hexDigit :: "nat \<Rightarrow> char" where
  "hexDigit n = (''0123456789abcdef'') ! n"

fun hexEncode :: "string \<Rightarrow> string" where
  "hexEncode [] = []"
| "hexEncode (c # cs) =
     hexDigit (of_char c div 16) # hexDigit (of_char c mod 16) # hexEncode cs"

definition hexValue :: "char \<Rightarrow> nat option" where
  "hexValue c =
     (let n = of_char c in
      if 48 \<le> n \<and> n \<le> 57 then Some (n - 48)
      else if 97 \<le> n \<and> n \<le> 102 then Some (n - 87)
      else if 65 \<le> n \<and> n \<le> 70 then Some (n - 55) else None)"

text \<open>\<open>hex.DecodeString\<close>: an error for a byte that is no hex digit and for odd length.\<close>

fun hexDecode :: "string \<Rightarrow> string option" where
  "hexDecode [] = Some []"
| "hexDecode [c] = None"
| "hexDecode (a # b # cs) =
     (case hexValue a of None \<Rightarrow> None
      | Some x \<Rightarrow> (case hexValue b of None \<Rightarrow> None
         | Some y \<Rightarrow> map_option ((#) (char_of (16 * x + y))) (hexDecode cs)))"

lemma hexValue_hexDigit: "n < 16 \<Longrightarrow> hexValue (hexDigit n) = Some n"
proof -
  assume "n < 16"
  then have "n \<in> set [0..<16]" by simp
  moreover have "list_all (\<lambda>n. hexValue (hexDigit n) = Some n) [0..<16]" by code_simp
  ultimately show ?thesis by (simp only: list_all_iff)
qed

lemma hexDecode_hexEncode: "hexDecode (hexEncode s) = Some s"
proof (induction s)
  case (Cons c s)
  have c: "of_char c < (256 :: nat)" by (rule nat_of_char_less_256)
  then have "of_char c div 16 < (16 :: nat)"
    by (intro less_mult_imp_div_less) simp
  moreover have "char_of (16 * (of_char c div 16) + of_char c mod 16 :: nat) = c"
    by (simp only: mult_div_mod_eq char_of_char)
  ultimately show ?case using Cons by (simp add: hexValue_hexDigit)
qed simp

section \<open>encoding/json: strings and objects\<close>

text \<open>The length of the UTF-8 sequence at the head of a string, 0 when it is not valid.\<close>

definition cont :: "nat \<Rightarrow> nat \<Rightarrow> char \<Rightarrow> bool" where
  "cont lo hi c \<longleftrightarrow> lo \<le> of_char c \<and> of_char c \<le> hi"

definition utf8_len :: "string \<Rightarrow> nat" where
  "utf8_len s =
     (case s of [] \<Rightarrow> 0
      | c0 # r \<Rightarrow> (let b = of_char c0 in
          if b < (128 :: nat) then 1
          else if b < 0xC2 then 0
          else if b < 0xE0 then
            (case r of c1 # _ \<Rightarrow> if cont 0x80 0xBF c1 then 2 else 0 | _ \<Rightarrow> 0)
          else if b < 0xF0 then
            (case r of c1 # c2 # _ \<Rightarrow>
               if cont (if b = 0xE0 then 0xA0 else 0x80) (if b = 0xED then 0x9F else 0xBF) c1
                  \<and> cont 0x80 0xBF c2 then 3 else 0 | _ \<Rightarrow> 0)
          else if b < 0xF5 then
            (case r of c1 # c2 # c3 # _ \<Rightarrow>
               if cont (if b = 0xF0 then 0x90 else 0x80) (if b = 0xF4 then 0x8F else 0xBF) c1
                  \<and> cont 0x80 0xBF c2 \<and> cont 0x80 0xBF c3 then 4 else 0 | _ \<Rightarrow> 0)
          else 0))"

text \<open>One ASCII byte inside a JSON string, HTML characters escaped as \<open>json.Marshal\<close> does.\<close>

definition json_escape :: "char \<Rightarrow> string" where
  "json_escape c =
     (if c = CHR 0x22 \<or> c = CHR 0x5C then [CHR 0x5C, c]
      else if c = CHR 0x08 then [CHR 0x5C, CHR ''b'']
      else if c = CHR 0x0C then [CHR 0x5C, CHR ''f'']
      else if c = CHR 0x0A then [CHR 0x5C, CHR ''n'']
      else if c = CHR 0x0D then [CHR 0x5C, CHR ''r'']
      else if c = CHR 0x09 then [CHR 0x5C, CHR ''t'']
      else if of_char c < (32 :: nat) \<or> c = CHR ''<'' \<or> c = CHR ''>'' \<or> c = CHR ''&''
      then [CHR 0x5C, CHR ''u'', CHR ''0'', CHR ''0'',
            hexDigit (of_char c div 16), hexDigit (of_char c mod 16)]
      else [c])"

function json_chars :: "string \<Rightarrow> string" where
  "json_chars s =
     (case s of [] \<Rightarrow> []
      | c # cs \<Rightarrow>
          if of_char c < (128 :: nat) then json_escape c @ json_chars cs
          else let n = utf8_len s in
            if n = 0 then CHR 0x5C # ''ufffd'' @ json_chars cs
            else (if take n s = [CHR 0xE2, CHR 0x80, CHR 0xA8] then CHR 0x5C # ''u2028''
                  else if take n s = [CHR 0xE2, CHR 0x80, CHR 0xA9] then CHR 0x5C # ''u2029''
                  else take n s) @ json_chars (drop n s))"
  by pat_completeness auto
termination
  by (relation "measure length") (auto simp: Let_def)

declare json_chars.simps [simp del]

definition json_string :: "string \<Rightarrow> string" where
  "json_string s = CHR 0x22 # json_chars s @ [CHR 0x22]"

fun join :: "string \<Rightarrow> string list \<Rightarrow> string" where
  "join sep [] = []"
| "join sep [x] = x"
| "join sep (x # xs) = x @ sep @ join sep xs"

text \<open>An object from its fields, each a name and the JSON text of the value.\<close>

definition json_object :: "(string \<times> string) list \<Rightarrow> string" where
  "json_object fs = ''{'' @ join '','' (map (\<lambda>(n, v). json_string n @ '':'' @ v) fs) @ ''}''"

end
