(* ===== verification/Domain.thy ===== *)
theory Domain
  imports Decimal_Ext Go_Strings
begin

text \<open>
  The package internal/domain (src/internal/domain/payment.go): payments and their state
  machine, ledger entries and the balance check, outbox events, payment commands, payouts and
  disputes. \<open>D\<close> is the decimal package, \<open>U\<close> the Unicode upper-case mapping, and \<open>uid\<close> the
  string the call \<open>uuid.NewString()\<close> returned.
\<close>

section \<open>Payments\<close>

text \<open>
  \<open>PaymentStatus\<close> is a string type with five named values; \<open>PaymentStatusZero\<close> is its zero
  value, the empty string, which only \<open>Payment{}\<close> has.
\<close>

datatype PaymentStatus =
  PaymentCreated | PaymentAuthorized | PaymentCaptured | PaymentRefunded | PaymentFailed
  | PaymentStatusZero

fun PaymentStatus_string :: "PaymentStatus \<Rightarrow> string" where
  "PaymentStatus_string PaymentCreated = ''created''"
| "PaymentStatus_string PaymentAuthorized = ''authorized''"
| "PaymentStatus_string PaymentCaptured = ''captured''"
| "PaymentStatus_string PaymentRefunded = ''refunded''"
| "PaymentStatus_string PaymentFailed = ''failed''"
| "PaymentStatus_string PaymentStatusZero = []"

record 'd Payment =
  p_ID :: string
  p_MerchantID :: string
  p_CustomerID :: string
  p_Currency :: string
  p_Amount :: 'd
  p_CapturedAmount :: 'd
  p_RefundedAmount :: 'd
  p_Status :: PaymentStatus
  p_ProviderReference :: string

definition zeroPayment :: "'d decimal_pkg \<Rightarrow> 'd Payment" where
  "zeroPayment D = \<lparr>p_ID = [], p_MerchantID = [], p_CustomerID = [], p_Currency = [],
     p_Amount = decNil D, p_CapturedAmount = decNil D, p_RefundedAmount = decNil D,
     p_Status = PaymentStatusZero, p_ProviderReference = []\<rparr>"

record 'd CreatePayment =
  cp_MerchantID :: string
  cp_CustomerID :: string
  cp_Currency :: string
  cp_Amount :: 'd

definition NewPayment ::
  "'d decimal_pkg \<Rightarrow> (string \<Rightarrow> string) \<Rightarrow> string \<Rightarrow> 'd CreatePayment \<Rightarrow> 'd Payment result" where
  "NewPayment D U uid inp =
     (if TrimSpace (cp_MerchantID inp) = [] \<or> TrimSpace (cp_CustomerID inp) = []
      then Inl (Err ''merchant_id and customer_id are required'')
      else if length (cp_Currency inp) \<noteq> 3
      then Inl (Err ''currency must be a 3-letter ISO code'')
      else if \<not> decGreaterThan D (cp_Amount inp) (decZero D)
      then Inl (Err ''amount must be greater than zero'')
      else Inr \<lparr>p_ID = uid, p_MerchantID = cp_MerchantID inp, p_CustomerID = cp_CustomerID inp,
        p_Currency = ToUpper U (cp_Currency inp), p_Amount = cp_Amount inp,
        p_CapturedAmount = decNil D, p_RefundedAmount = decNil D,
        p_Status = PaymentCreated, p_ProviderReference = []\<rparr>)"

text \<open>The transition table of \<open>CanTransition\<close>; a pair the nested map does not hold is \<open>false\<close>.\<close>

fun transition_table :: "PaymentStatus \<Rightarrow> PaymentStatus \<Rightarrow> bool" where
  "transition_table PaymentCreated PaymentAuthorized = True"
| "transition_table PaymentCreated PaymentFailed = True"
| "transition_table PaymentAuthorized PaymentCaptured = True"
| "transition_table PaymentAuthorized PaymentFailed = True"
| "transition_table PaymentCaptured PaymentCaptured = True"
| "transition_table PaymentCaptured PaymentRefunded = True"
| "transition_table PaymentRefunded PaymentRefunded = True"
| "transition_table _ _ = False"

definition CanTransition :: "'d Payment \<Rightarrow> PaymentStatus \<Rightarrow> bool" where
  "CanTransition p to = transition_table (p_Status p) to"

definition ValidateCapture :: "'d decimal_pkg \<Rightarrow> 'd Payment \<Rightarrow> 'd \<Rightarrow> unit result" where
  "ValidateCapture D p amount =
     (if \<not> decGreaterThan D amount (decZero D)
         \<or> decGreaterThan D (decAdd D (p_CapturedAmount p) amount) (p_Amount p)
      then Inl (Err ''capture amount exceeds remaining authorized amount'') else Inr ())"

definition ValidateRefund :: "'d decimal_pkg \<Rightarrow> 'd Payment \<Rightarrow> 'd \<Rightarrow> unit result" where
  "ValidateRefund D p amount =
     (if \<not> decGreaterThan D amount (decZero D)
         \<or> decGreaterThan D (decAdd D (p_RefundedAmount p) amount) (p_CapturedAmount p)
      then Inl (Err ''refund amount exceeds captured amount'') else Inr ())"

section \<open>Ledger entries\<close>

record 'd LedgerEntry =
  le_ID :: string
  le_PaymentID :: string
  le_AccountID :: string
  le_Currency :: string
  le_Debit :: 'd
  le_Credit :: 'd

text \<open>The loop of \<open>ValidateBalanced\<close> with its two accumulators.\<close>

fun balance_loop ::
  "'d decimal_pkg \<Rightarrow> 'd \<Rightarrow> 'd \<Rightarrow> 'd LedgerEntry list \<Rightarrow> ('d \<times> 'd) result" where
  "balance_loop D debit credit [] = Inr (debit, credit)"
| "balance_loop D debit credit (e # es) =
     (if decIsNegative D (le_Debit e) \<or> decIsNegative D (le_Credit e)
         \<or> decIsZero D (le_Debit e) = decIsZero D (le_Credit e)
      then Inl (Err ''each entry must contain either debit or credit'')
      else balance_loop D (decAdd D debit (le_Debit e)) (decAdd D credit (le_Credit e)) es)"

definition ValidateBalanced :: "'d decimal_pkg \<Rightarrow> 'd LedgerEntry list \<Rightarrow> unit result" where
  "ValidateBalanced D entries =
     (if length entries < 2
      then Inl (Err ''a ledger transaction requires at least two entries'')
      else case balance_loop D (decZero D) (decZero D) entries of
        Inl e \<Rightarrow> Inl e
      | Inr (debit, credit) \<Rightarrow>
          if \<not> decEqual D debit credit then Inl (Err ''ledger transaction is not balanced'')
          else Inr ())"

section \<open>Outbox events and payment commands\<close>

record OutboxEvent =
  ev_ID :: string
  ev_AggregateID :: string
  ev_EventType :: string
  ev_Payload :: string
  ev_Published :: bool

record 'd PaymentCommand =
  cmd_PaymentID :: string
  cmd_ProviderReference :: string
  cmd_EventType :: string
  cmd_Status :: PaymentStatus
  cmd_Amount :: 'd
  cmd_Ledger :: "'d LedgerEntry list"
  cmd_Event :: OutboxEvent

section \<open>Payouts\<close>

datatype PayoutStatus = PayoutPending | PayoutPaid | PayoutFailed

fun PayoutStatus_string :: "PayoutStatus \<Rightarrow> string" where
  "PayoutStatus_string PayoutPending = ''pending''"
| "PayoutStatus_string PayoutPaid = ''paid''"
| "PayoutStatus_string PayoutFailed = ''failed''"

record 'd Payout =
  po_ID :: string
  po_MerchantID :: string
  po_Currency :: string
  po_Amount :: 'd
  po_ProviderReference :: string
  po_Status :: PayoutStatus

definition NewPayout ::
  "'d decimal_pkg \<Rightarrow> (string \<Rightarrow> string) \<Rightarrow> string \<Rightarrow> string \<Rightarrow> string \<Rightarrow> 'd \<Rightarrow> 'd Payout result" where
  "NewPayout D U uid merchant currency amount =
     (if merchant = [] \<or> length currency \<noteq> 3 \<or> \<not> decGreaterThan D amount (decZero D)
      then Inl (Err ''invalid payout'')
      else Inr \<lparr>po_ID = uid, po_MerchantID = merchant, po_Currency = ToUpper U currency,
        po_Amount = amount, po_ProviderReference = [], po_Status = PayoutPending\<rparr>)"

section \<open>Disputes\<close>

datatype DisputeStatus = DisputeOpen | DisputeWon | DisputeLost

fun DisputeStatus_string :: "DisputeStatus \<Rightarrow> string" where
  "DisputeStatus_string DisputeOpen = ''open''"
| "DisputeStatus_string DisputeWon = ''won''"
| "DisputeStatus_string DisputeLost = ''lost''"

record 'd Dispute =
  di_ID :: string
  di_PaymentID :: string
  di_MerchantID :: string
  di_Currency :: string
  di_Reason :: string
  di_Amount :: 'd
  di_Status :: DisputeStatus

definition NewDispute ::
  "'d decimal_pkg \<Rightarrow> (string \<Rightarrow> string) \<Rightarrow> string \<Rightarrow> string \<Rightarrow> string \<Rightarrow> string \<Rightarrow> string \<Rightarrow> 'd
    \<Rightarrow> 'd Dispute result" where
  "NewDispute D U uid paymentID merchantID currency reason amount =
     (if paymentID = [] \<or> merchantID = [] \<or> length currency \<noteq> 3 \<or> reason = []
         \<or> \<not> decGreaterThan D amount (decZero D)
      then Inl (Err ''invalid dispute'')
      else Inr \<lparr>di_ID = uid, di_PaymentID = paymentID, di_MerchantID = merchantID,
        di_Currency = ToUpper U currency, di_Reason = reason, di_Amount = amount,
        di_Status = DisputeOpen\<rparr>)"

section \<open>JSON texts of the structures\<close>

text \<open>
  \<open>json.Marshal\<close> of the three structures: the fields in declaration order under their tags,
  \<open>provider_reference\<close> left out when empty, decimals as the text of their \<open>MarshalJSON\<close>.
  An error of \<open>MarshalJSON\<close> is the error of \<open>Marshal\<close>.
\<close>

definition omitempty :: "string \<Rightarrow> string \<Rightarrow> (string \<times> string) list" where
  "omitempty tag s = (if s = [] then [] else [(tag, json_string s)])"

definition marshalPayment :: "'d decimal_pkg \<Rightarrow> 'd Payment \<Rightarrow> string result" where
  "marshalPayment D p =
     (case decMarshalJSON D (p_Amount p) of Inl e \<Rightarrow> Inl e | Inr a \<Rightarrow>
      (case decMarshalJSON D (p_CapturedAmount p) of Inl e \<Rightarrow> Inl e | Inr c \<Rightarrow>
      (case decMarshalJSON D (p_RefundedAmount p) of Inl e \<Rightarrow> Inl e | Inr r \<Rightarrow>
         Inr (json_object
           ([(''id'', json_string (p_ID p)), (''merchant_id'', json_string (p_MerchantID p)),
             (''customer_id'', json_string (p_CustomerID p)),
             (''currency'', json_string (p_Currency p)), (''amount'', a),
             (''captured_amount'', c), (''refunded_amount'', r),
             (''status'', json_string (PaymentStatus_string (p_Status p)))]
            @ omitempty ''provider_reference'' (p_ProviderReference p))))))"

definition marshalPayout :: "'d decimal_pkg \<Rightarrow> 'd Payout \<Rightarrow> string result" where
  "marshalPayout D p =
     (case decMarshalJSON D (po_Amount p) of Inl e \<Rightarrow> Inl e | Inr a \<Rightarrow>
        Inr (json_object
          ([(''ID'', json_string (po_ID p)), (''MerchantID'', json_string (po_MerchantID p)),
            (''Currency'', json_string (po_Currency p)), (''Amount'', a)]
           @ omitempty ''provider_reference'' (po_ProviderReference p)
           @ [(''status'', json_string (PayoutStatus_string (po_Status p)))])))"

definition marshalDispute :: "'d decimal_pkg \<Rightarrow> 'd Dispute \<Rightarrow> string result" where
  "marshalDispute D d =
     (case decMarshalJSON D (di_Amount d) of Inl e \<Rightarrow> Inl e | Inr a \<Rightarrow>
        Inr (json_object
          [(''ID'', json_string (di_ID d)), (''PaymentID'', json_string (di_PaymentID d)),
           (''MerchantID'', json_string (di_MerchantID d)),
           (''Currency'', json_string (di_Currency d)), (''Reason'', json_string (di_Reason d)),
           (''Amount'', a), (''status'', json_string (DisputeStatus_string (di_Status d)))]))"

text \<open>\<open>payload, _ := json.Marshal(x)\<close> and \<open>string(payload)\<close>: the empty string on an error.\<close>

definition payload_of :: "string result \<Rightarrow> string" where
  "payload_of r = (case r of Inl e \<Rightarrow> [] | Inr s \<Rightarrow> s)"

section \<open>The state machine of a payment\<close>

text \<open>\<open>Failed\<close> and the zero status are terminal, and a refunded payment stays refunded.\<close>

lemma transition_table_terminal [simp]:
  "\<not> transition_table PaymentFailed s" "\<not> transition_table PaymentStatusZero s"
  by (cases s; simp)+

lemma transition_table_to [simp]:
  "\<not> transition_table s PaymentCreated" "\<not> transition_table s PaymentStatusZero"
  by (cases s; simp)+

lemma transition_to_authorized [simp]:
  "transition_table s PaymentAuthorized \<longleftrightarrow> s = PaymentCreated"
  by (cases s) simp_all

lemma transition_to_captured [simp]:
  "transition_table s PaymentCaptured \<longleftrightarrow> s = PaymentAuthorized \<or> s = PaymentCaptured"
  by (cases s) simp_all

lemma transition_to_refunded [simp]:
  "transition_table s PaymentRefunded \<longleftrightarrow> s = PaymentCaptured \<or> s = PaymentRefunded"
  by (cases s) simp_all

lemma transition_to_failed [simp]:
  "transition_table s PaymentFailed \<longleftrightarrow> s = PaymentCreated \<or> s = PaymentAuthorized"
  by (cases s) simp_all

fun status_rank :: "PaymentStatus \<Rightarrow> nat" where
  "status_rank PaymentStatusZero = 0"
| "status_rank PaymentCreated = 0"
| "status_rank PaymentAuthorized = 1"
| "status_rank PaymentCaptured = 2"
| "status_rank PaymentRefunded = 3"
| "status_rank PaymentFailed = 3"

lemma transition_rank:
  "transition_table a b \<Longrightarrow> status_rank a < status_rank b \<or> a = b \<and> a \<in> {PaymentCaptured, PaymentRefunded}"
  by (cases b) auto

section \<open>What the checks decide\<close>

text \<open>An entry is one-sided: one positive column and the other zero.\<close>

definition one_sided :: "('d \<Rightarrow> rat) \<Rightarrow> 'd LedgerEntry \<Rightarrow> bool" where
  "one_sided val e \<longleftrightarrow>
     0 \<le> val (le_Debit e) \<and> 0 \<le> val (le_Credit e) \<and> (val (le_Debit e) = 0) \<noteq> (val (le_Credit e) = 0)"

definition total_debit :: "('d \<Rightarrow> rat) \<Rightarrow> 'd LedgerEntry list \<Rightarrow> rat" where
  "total_debit val es = sum_list (map (\<lambda>e. val (le_Debit e)) es)"

definition total_credit :: "('d \<Rightarrow> rat) \<Rightarrow> 'd LedgerEntry list \<Rightarrow> rat" where
  "total_credit val es = sum_list (map (\<lambda>e. val (le_Credit e)) es)"

lemma total_append [simp]:
  "total_debit val (es @ es') = total_debit val es + total_debit val es'"
  "total_credit val (es @ es') = total_credit val es + total_credit val es'"
  by (simp_all add: total_debit_def total_credit_def)

lemma total_Nil_Cons [simp]:
  "total_debit val [] = 0" "total_credit val [] = 0"
  "total_debit val (e # es) = val (le_Debit e) + total_debit val es"
  "total_credit val (e # es) = val (le_Credit e) + total_credit val es"
  by (simp_all add: total_debit_def total_credit_def)

context decimal_laws
begin

lemma ValidateCapture_iff:
  "ValidateCapture D p amount = Inr () \<longleftrightarrow>
     0 < val amount \<and> val (p_CapturedAmount p) + val amount \<le> val (p_Amount p)"
  by (auto simp: ValidateCapture_def)

lemma ValidateRefund_iff:
  "ValidateRefund D p amount = Inr () \<longleftrightarrow>
     0 < val amount \<and> val (p_RefundedAmount p) + val amount \<le> val (p_CapturedAmount p)"
  by (auto simp: ValidateRefund_def)

lemma balance_loop_ok:
  "balance_loop D debit credit es = Inr (d, c) \<Longrightarrow>
     (\<forall>e \<in> set es. one_sided val e) \<and>
     val d = val debit + total_debit val es \<and> val c = val credit + total_credit val es"
  by (induction es arbitrary: debit credit)
    (auto simp: one_sided_def split: if_splits)

lemma balance_loop_defined:
  "\<forall>e \<in> set es. one_sided val e \<Longrightarrow> \<exists>d c. balance_loop D debit credit es = Inr (d, c)"
  by (induction es arbitrary: debit credit) (auto simp: one_sided_def)

lemma ValidateBalanced_iff:
  "ValidateBalanced D es = Inr () \<longleftrightarrow>
     2 \<le> length es \<and> (\<forall>e \<in> set es. one_sided val e) \<and> total_debit val es = total_credit val es"
proof (cases "balance_loop D (decZero D) (decZero D) es")
  case (Inl e)
  then have "\<not> (\<forall>e \<in> set es. one_sided val e)"
    using balance_loop_defined [of es "decZero D" "decZero D"] by auto
  with Inl show ?thesis by (auto simp: ValidateBalanced_def)
next
  case (Inr dc)
  then obtain d c where "balance_loop D (decZero D) (decZero D) es = Inr (d, c)"
    by (cases dc) auto
  with balance_loop_ok [OF this] show ?thesis by (auto simp: ValidateBalanced_def)
qed

text \<open>The pair every money movement writes: a debit of one account, a credit of another.\<close>

lemma ValidateBalanced_pair:
  assumes "0 < val amount" "le_Debit e = amount" "le_Credit e = decNil D"
    "le_Debit e' = decNil D" "le_Credit e' = amount"
  shows "ValidateBalanced D [e, e'] = Inr ()"
  using assms by (simp add: ValidateBalanced_iff one_sided_def)

end

section \<open>Properties\<close>

lemma transition_path:
  "transition_table\<^sup>*\<^sup>* a b \<Longrightarrow> a = b \<or> status_rank a < status_rank b \<and> a \<noteq> PaymentStatusZero \<and>
     (b = PaymentFailed \<longrightarrow> a \<in> {PaymentCreated, PaymentAuthorized})"
proof (induction rule: rtranclp_induct)
  case (step b c)
  then show ?case by (cases a; cases b; cases c) auto
qed simp

text \<open>
  Where the status of a payment can go, by any number of permitted transitions: forward
  along created, authorized, captured, refunded, and to failed only from created or authorized. A
  failed payment is final, and no captured or refunded payment ever becomes failed.
\<close>

theorem status_reachability:
  "transition_table\<^sup>*\<^sup>* a b \<longleftrightarrow>
     a = b \<or>
     a = PaymentCreated \<and> b \<in> {PaymentAuthorized, PaymentCaptured, PaymentRefunded, PaymentFailed} \<or>
     a = PaymentAuthorized \<and> b \<in> {PaymentCaptured, PaymentRefunded, PaymentFailed} \<or>
     a = PaymentCaptured \<and> b = PaymentRefunded"
proof
  assume "transition_table\<^sup>*\<^sup>* a b"
  then show "a = b \<or>
     a = PaymentCreated \<and> b \<in> {PaymentAuthorized, PaymentCaptured, PaymentRefunded, PaymentFailed} \<or>
     a = PaymentAuthorized \<and> b \<in> {PaymentCaptured, PaymentRefunded, PaymentFailed} \<or>
     a = PaymentCaptured \<and> b = PaymentRefunded"
    using transition_path [of a b] by (cases a; cases b) auto
next
  have "transition_table\<^sup>*\<^sup>* PaymentCreated PaymentAuthorized" "transition_table\<^sup>*\<^sup>* PaymentAuthorized PaymentCaptured"
    "transition_table\<^sup>*\<^sup>* PaymentCaptured PaymentRefunded" "transition_table\<^sup>*\<^sup>* PaymentCreated PaymentFailed"
    "transition_table\<^sup>*\<^sup>* PaymentAuthorized PaymentFailed"
    by (simp_all add: r_into_rtranclp)
  then show "transition_table\<^sup>*\<^sup>* a b" if "a = b \<or>
     a = PaymentCreated \<and> b \<in> {PaymentAuthorized, PaymentCaptured, PaymentRefunded, PaymentFailed} \<or>
     a = PaymentAuthorized \<and> b \<in> {PaymentCaptured, PaymentRefunded, PaymentFailed} \<or>
     a = PaymentCaptured \<and> b = PaymentRefunded"
    using that by (auto intro: rtranclp_trans)
qed

text \<open>
  C26: \<open>ValidateBalanced\<close> accepts exactly the transactions with at least two entries, each with
  one positive column and the other zero, whose debits and credits have the same total. (The
  totals run over all entries whatever their currency.)
\<close>

theorem balanced_iff:
  assumes "decimal_laws D val"
  shows "ValidateBalanced D es = Inr () \<longleftrightarrow>
     2 \<le> length es \<and>
     (\<forall>e \<in> set es. 0 < val (le_Debit e) \<and> val (le_Credit e) = 0 \<or>
                   val (le_Debit e) = 0 \<and> 0 < val (le_Credit e)) \<and>
     sum_list (map (\<lambda>e. val (le_Debit e)) es) = sum_list (map (\<lambda>e. val (le_Credit e)) es)"
proof -
  have "one_sided val e \<longleftrightarrow> 0 < val (le_Debit e) \<and> val (le_Credit e) = 0 \<or>
      val (le_Debit e) = 0 \<and> 0 < val (le_Credit e)" for e
    by (auto simp: one_sided_def)
  then show ?thesis
    using decimal_laws.ValidateBalanced_iff [OF assms, of es]
    by (simp add: total_debit_def total_credit_def)
qed

theorem balanced_iff_witness:
  "ValidateBalanced ce_pkg
     [\<lparr>le_ID = ''1'', le_PaymentID = [], le_AccountID = ''a'', le_Currency = ''USD'',
       le_Debit = Dec 5 0, le_Credit = Dec 0 0\<rparr>,
      \<lparr>le_ID = ''2'', le_PaymentID = [], le_AccountID = ''b'', le_Currency = ''USD'',
       le_Debit = Dec 0 0, le_Credit = Dec 50 (-1)\<rparr>] = Inr ()"
  using balanced_iff [OF ce.decimal_laws_axioms] by (simp add: power_int_def)

end
