(* ===== verification/Store_Interface.thy ===== *)
theory Store_Interface
  imports Domain
begin

text \<open>
  The interface \<open>store.Store\<close> (src/internal/store/store.go): eighteen methods, here the fields
  of a record of functions, so that the services are written once over any store, as in Go.
  The state of the store is \<open>'s\<close>. Every Go method takes a \<open>context.Context\<close>; in the model that
  argument, of type \<open>'c\<close>, carries what the run-time decides during the call (the iteration
  order of a Go map for the memory store, failures and the clock for PostgreSQL). A method that
  only reads returns its result; the others return a result and the new state.
\<close>

record ('c, 's, 'd) Store =
  S_CreatePayment :: "'c \<Rightarrow> 'd Payment \<Rightarrow> string \<Rightarrow> ('s, 'd Payment \<times> bool) op"
  S_GetPayment :: "'c \<Rightarrow> string \<Rightarrow> 's \<Rightarrow> 'd Payment result"
  S_GetPaymentByProviderReference :: "'c \<Rightarrow> string \<Rightarrow> 's \<Rightarrow> 'd Payment result"
  S_Transition :: "'c \<Rightarrow> string \<Rightarrow> PaymentStatus \<Rightarrow> string \<Rightarrow> ('s, 'd Payment) op"
  S_ApplyAmount :: "'c \<Rightarrow> string \<Rightarrow> PaymentStatus \<Rightarrow> 'd \<Rightarrow> ('s, 'd Payment) op"
  S_AppendLedger :: "'c \<Rightarrow> 'd LedgerEntry list \<Rightarrow> ('s, unit) op"
  S_Enqueue :: "'c \<Rightarrow> OutboxEvent \<Rightarrow> ('s, unit) op"
  S_ClaimOutbox :: "'c \<Rightarrow> int \<Rightarrow> ('s, OutboxEvent list) op"
  S_MarkPublished :: "'c \<Rightarrow> string \<Rightarrow> ('s, unit) op"
  S_RegisterWebhook :: "'c \<Rightarrow> string \<Rightarrow> ('s, bool) op"
  S_CommitPaymentCommand :: "'c \<Rightarrow> 'd PaymentCommand \<Rightarrow> ('s, 'd Payment) op"
  S_CreatePayout ::
    "'c \<Rightarrow> 'd Payout \<Rightarrow> 'd LedgerEntry list \<Rightarrow> OutboxEvent \<Rightarrow> ('s, 'd Payout) op"
  S_GetPayout :: "'c \<Rightarrow> string \<Rightarrow> 's \<Rightarrow> 'd Payout result"
  S_AvailableBalance :: "'c \<Rightarrow> string \<Rightarrow> string \<Rightarrow> 's \<Rightarrow> 'd result"
  S_TransitionPayout ::
    "'c \<Rightarrow> string \<Rightarrow> PayoutStatus \<Rightarrow> string \<Rightarrow> 'd LedgerEntry list \<Rightarrow> OutboxEvent \<Rightarrow> ('s, 'd Payout) op"
  S_CreateDispute ::
    "'c \<Rightarrow> 'd Dispute \<Rightarrow> 'd LedgerEntry list \<Rightarrow> OutboxEvent \<Rightarrow> ('s, 'd Dispute) op"
  S_GetDispute :: "'c \<Rightarrow> string \<Rightarrow> 's \<Rightarrow> 'd Dispute result"
  S_ResolveDispute ::
    "'c \<Rightarrow> string \<Rightarrow> DisputeStatus \<Rightarrow> 'd LedgerEntry list \<Rightarrow> OutboxEvent \<Rightarrow> ('s, 'd Dispute) op"

section \<open>Account names\<close>

text \<open>
  The account identifiers the code builds by concatenation. Names made with different suffixes
  or for different merchants differ, whatever bytes a merchant identifier holds.
\<close>

definition merchant_account :: "string \<Rightarrow> string \<Rightarrow> string" where
  "merchant_account merchant kind = ''merchant:'' @ merchant @ kind"

abbreviation acct_pending :: "string \<Rightarrow> string" where
  "acct_pending m \<equiv> merchant_account m '':pending''"
abbreviation acct_available :: "string \<Rightarrow> string" where
  "acct_available m \<equiv> merchant_account m '':available''"
abbreviation acct_payout_pending :: "string \<Rightarrow> string" where
  "acct_payout_pending m \<equiv> merchant_account m '':payout_pending''"
abbreviation acct_dispute_frozen :: "string \<Rightarrow> string" where
  "acct_dispute_frozen m \<equiv> merchant_account m '':dispute_frozen''"

lemma merchant_account_inj [simp]:
  "merchant_account m s = merchant_account m' s \<longleftrightarrow> m = m'"
  by (simp add: merchant_account_def)

lemma merchant_account_customer [simp]:
  "merchant_account m s \<noteq> ''customer:pending''" "''customer:pending'' \<noteq> merchant_account m s"
  "merchant_account m s \<noteq> ''customer:refunded''" "''customer:refunded'' \<noteq> merchant_account m s"
  "merchant_account m s \<noteq> ''customer:chargeback''" "''customer:chargeback'' \<noteq> merchant_account m s"
  "merchant_account m s \<noteq> ''provider:payout_settled''"
  "''provider:payout_settled'' \<noteq> merchant_account m s"
  by (simp_all add: merchant_account_def)

lemma append_last_neq:
  assumes "a \<noteq> []" "b \<noteq> []" "last a \<noteq> last b"
  shows "xs @ a \<noteq> ys @ b"
  using assms by (metis last_appendR)

text \<open>The last byte separates \<open>:available\<close> and \<open>:dispute_frozen\<close> from the other two.\<close>

lemma merchant_account_suffix [simp]:
  "acct_available m \<noteq> acct_pending m'" "acct_pending m \<noteq> acct_available m'"
  "acct_available m \<noteq> acct_payout_pending m'" "acct_payout_pending m \<noteq> acct_available m'"
  "acct_available m \<noteq> acct_dispute_frozen m'" "acct_dispute_frozen m \<noteq> acct_available m'"
  "acct_dispute_frozen m \<noteq> acct_pending m'" "acct_pending m \<noteq> acct_dispute_frozen m'"
  "acct_dispute_frozen m \<noteq> acct_payout_pending m'" "acct_payout_pending m \<noteq> acct_dispute_frozen m'"
  using append_last_neq [of "'':available''" "'':pending''" m m']
    append_last_neq [of "'':available''" "'':pending''" m' m]
    append_last_neq [of "'':available''" "'':payout_pending''" m m']
    append_last_neq [of "'':available''" "'':payout_pending''" m' m]
    append_last_neq [of "'':available''" "'':dispute_frozen''" m m']
    append_last_neq [of "'':available''" "'':dispute_frozen''" m' m]
    append_last_neq [of "'':dispute_frozen''" "'':pending''" m m']
    append_last_neq [of "'':dispute_frozen''" "'':pending''" m' m]
    append_last_neq [of "'':dispute_frozen''" "'':payout_pending''" m m']
    append_last_neq [of "'':dispute_frozen''" "'':payout_pending''" m' m]
  by (auto simp: merchant_account_def eq_commute)

lemma pending_neq_payout_pending [simp]:
  "acct_pending m \<noteq> acct_payout_pending m'" "acct_payout_pending m' \<noteq> acct_pending m"
proof -
  have "''merchant:'' @ m @ '':pending'' \<noteq> ''merchant:'' @ m' @ '':payout_pending''"
  proof
    assume "''merchant:'' @ m @ '':pending'' = ''merchant:'' @ m' @ '':payout_pending''"
    then have "(m @ '':'') @ ''pending'' = (m' @ '':payout_'') @ ''pending''" by simp
    then have "m @ '':'' = m' @ '':payout_''" by (simp only: append_same_eq)
    then have "last (m @ '':'') = last (m' @ '':payout_'')" by (rule arg_cong)
    then show False by simp
  qed
  then show neq: "acct_pending m \<noteq> acct_payout_pending m'"
    unfolding merchant_account_def .
  show "acct_payout_pending m' \<noteq> acct_pending m"
    using neq by (rule not_sym)
qed

end
