(* ===== verification/Memory_Store.thy ===== *)
theory Memory_Store
  imports Store_Interface
begin

text \<open>
  The in-memory store (src/internal/store/store.go, type \<open>MemoryStore\<close>). Every method holds the
  mutex from its first access to its last, so a method is one atomic step on the record of maps
  below; \<open>AppendLedger\<close> validates its argument before it takes the lock, which reads no state.
  The argument \<open>c\<close> is the order in which a \<open>range\<close> over a map visits its keys.
\<close>

section \<open>State\<close>

record 'd MemoryStore =
  payments :: "string \<rightharpoonup> 'd Payment"
  keys :: "string \<rightharpoonup> string"
  outbox :: "string \<rightharpoonup> OutboxEvent"
  ledger :: "'d LedgerEntry list"
  webhooks :: "string set"
  payouts :: "string \<rightharpoonup> 'd Payout"
  disputes :: "string \<rightharpoonup> 'd Dispute"

definition NewMemory :: "'d MemoryStore" where
  "NewMemory = \<lparr>payments = Map.empty, keys = Map.empty, outbox = Map.empty, ledger = [],
     webhooks = {}, payouts = Map.empty, disputes = Map.empty\<rparr>"

section \<open>Payments\<close>

definition Memory_CreatePayment ::
  "'d decimal_pkg \<Rightarrow> string list \<Rightarrow> 'd Payment \<Rightarrow> string \<Rightarrow> ('d MemoryStore, 'd Payment \<times> bool) op" where
  "Memory_CreatePayment D c p key s =
     (case keys s key of
        Some existing \<Rightarrow>
          (Inr (case payments s existing of None \<Rightarrow> zeroPayment D | Some q \<Rightarrow> q, True), s)
      | None \<Rightarrow>
          (Inr (p, False),
           s\<lparr>payments := (payments s)(p_ID p \<mapsto> p), keys := (keys s)(key \<mapsto> p_ID p)\<rparr>))"

definition Memory_GetPayment ::
  "string list \<Rightarrow> string \<Rightarrow> 'd MemoryStore \<Rightarrow> 'd Payment result" where
  "Memory_GetPayment c ident s =
     (case payments s ident of None \<Rightarrow> Inl ErrNotFound | Some p \<Rightarrow> Inr p)"

text \<open>The \<open>range\<close> loop over the payments, in the order \<open>c\<close>.\<close>

fun find_reference :: "(string \<rightharpoonup> 'd Payment) \<Rightarrow> string \<Rightarrow> string list \<Rightarrow> 'd Payment option" where
  "find_reference m reference [] = None"
| "find_reference m reference (k # ks) =
     (case m k of
        Some p \<Rightarrow> if p_ProviderReference p = reference then Some p else find_reference m reference ks
      | None \<Rightarrow> find_reference m reference ks)"

definition Memory_GetPaymentByProviderReference ::
  "string list \<Rightarrow> string \<Rightarrow> 'd MemoryStore \<Rightarrow> 'd Payment result" where
  "Memory_GetPaymentByProviderReference c reference s =
     (case find_reference (payments s) reference c of
        Some p \<Rightarrow> Inr p | None \<Rightarrow> Inl ErrNotFound)"

definition Memory_Transition ::
  "string list \<Rightarrow> string \<Rightarrow> PaymentStatus \<Rightarrow> string \<Rightarrow> ('d MemoryStore, 'd Payment) op" where
  "Memory_Transition c ident to reference s =
     (case payments s ident of
        None \<Rightarrow> (Inl ErrNotFound, s)
      | Some p \<Rightarrow>
          if \<not> CanTransition p to then (Inl (Err ''invalid payment state transition''), s)
          else let p' = p\<lparr>p_Status := to, p_ProviderReference := reference\<rparr>
               in (Inr p', s\<lparr>payments := (payments s)(ident \<mapsto> p')\<rparr>))"

definition Memory_ApplyAmount ::
  "'d decimal_pkg \<Rightarrow> string list \<Rightarrow> string \<Rightarrow> PaymentStatus \<Rightarrow> 'd \<Rightarrow> ('d MemoryStore, 'd Payment) op" where
  "Memory_ApplyAmount D c ident action amount s =
     (case payments s ident of
        None \<Rightarrow> (Inl ErrNotFound, s)
      | Some p \<Rightarrow>
          if action = PaymentCaptured then
            (case ValidateCapture D p amount of
               Inl e \<Rightarrow> (Inl e, s)
             | Inr _ \<Rightarrow>
                 if \<not> CanTransition p PaymentCaptured
                 then (Inl (Err ''invalid payment state transition''), s)
                 else let p' = p\<lparr>p_CapturedAmount := decAdd D (p_CapturedAmount p) amount,
                                p_Status := PaymentCaptured\<rparr>
                      in (Inr p', s\<lparr>payments := (payments s)(ident \<mapsto> p')\<rparr>))
          else if action = PaymentRefunded then
            (case ValidateRefund D p amount of
               Inl e \<Rightarrow> (Inl e, s)
             | Inr _ \<Rightarrow>
                 if \<not> CanTransition p PaymentRefunded
                 then (Inl (Err ''invalid payment state transition''), s)
                 else let p' = p\<lparr>p_RefundedAmount := decAdd D (p_RefundedAmount p) amount,
                                p_Status := PaymentRefunded\<rparr>
                      in (Inr p', s\<lparr>payments := (payments s)(ident \<mapsto> p')\<rparr>))
          else (Inl (Err ''unsupported amount action''), s))"

section \<open>Ledger, outbox and webhook registry\<close>

definition Memory_AppendLedger ::
  "'d decimal_pkg \<Rightarrow> string list \<Rightarrow> 'd LedgerEntry list \<Rightarrow> ('d MemoryStore, unit) op" where
  "Memory_AppendLedger D c entries s =
     (case ValidateBalanced D entries of
        Inl e \<Rightarrow> (Inl e, s)
      | Inr _ \<Rightarrow> (Inr (), s\<lparr>ledger := ledger s @ entries\<rparr>))"

definition Memory_Enqueue :: "string list \<Rightarrow> OutboxEvent \<Rightarrow> ('d MemoryStore, unit) op" where
  "Memory_Enqueue c event s = (Inr (), s\<lparr>outbox := (outbox s)(ev_ID event \<mapsto> event)\<rparr>)"

text \<open>
  The loop of \<open>ClaimOutbox\<close>: unpublished events are appended to \<open>result\<close> until it has length
  \<open>n\<close>. The length is tested only after an append, so a limit of 0 stops nothing.
\<close>

fun claim_loop ::
  "(string \<rightharpoonup> OutboxEvent) \<Rightarrow> int \<Rightarrow> OutboxEvent list \<Rightarrow> string list \<Rightarrow> OutboxEvent list" where
  "claim_loop m n result [] = result"
| "claim_loop m n result (k # ks) =
     (case m k of
        Some e \<Rightarrow>
          if \<not> ev_Published e then
            (let result' = result @ [e]
             in if int (length result') = n then result' else claim_loop m n result' ks)
          else claim_loop m n result ks
      | None \<Rightarrow> claim_loop m n result ks)"

text \<open>\<open>make([]domain.OutboxEvent, 0, n)\<close> panics for a negative capacity.\<close>

definition Memory_ClaimOutbox ::
  "string list \<Rightarrow> int \<Rightarrow> ('d MemoryStore, OutboxEvent list) op" where
  "Memory_ClaimOutbox c n s =
     (if n < 0 then (Inl (Panic ''makeslice: cap out of range''), s)
      else (Inr (claim_loop (outbox s) n [] c), s))"

definition Memory_MarkPublished :: "string list \<Rightarrow> string \<Rightarrow> ('d MemoryStore, unit) op" where
  "Memory_MarkPublished c ident s =
     (case outbox s ident of
        None \<Rightarrow> (Inl ErrNotFound, s)
      | Some e \<Rightarrow> (Inr (), s\<lparr>outbox := (outbox s)(ident \<mapsto> e\<lparr>ev_Published := True\<rparr>)\<rparr>))"

definition Memory_RegisterWebhook :: "string list \<Rightarrow> string \<Rightarrow> ('d MemoryStore, bool) op" where
  "Memory_RegisterWebhook c ident s =
     (if ident \<in> webhooks s then (Inr False, s)
      else (Inr True, s\<lparr>webhooks := insert ident (webhooks s)\<rparr>))"

section \<open>The atomic payment command\<close>

definition Memory_CommitPaymentCommand ::
  "'d decimal_pkg \<Rightarrow> string list \<Rightarrow> 'd PaymentCommand \<Rightarrow> ('d MemoryStore, 'd Payment) op" where
  "Memory_CommitPaymentCommand D c command s =
     (case payments s (cmd_PaymentID command) of
        None \<Rightarrow> (Inl ErrNotFound, s)
      | Some p \<Rightarrow>
          if \<not> CanTransition p (cmd_Status command)
          then (Inl (Err ''invalid payment state transition''), s)
          else
            (case (if cmd_Status command = PaymentCaptured then
                     (case ValidateCapture D p (cmd_Amount command) of
                        Inl e \<Rightarrow> Inl e
                      | Inr _ \<Rightarrow> Inr (p\<lparr>p_CapturedAmount :=
                                   decAdd D (p_CapturedAmount p) (cmd_Amount command)\<rparr>))
                   else Inr p) of
               Inl e \<Rightarrow> (Inl e, s)
             | Inr p1 \<Rightarrow>
            (case (if cmd_Status command = PaymentRefunded then
                     (case ValidateRefund D p1 (cmd_Amount command) of
                        Inl e \<Rightarrow> Inl e
                      | Inr _ \<Rightarrow> Inr (p1\<lparr>p_RefundedAmount :=
                                   decAdd D (p_RefundedAmount p1) (cmd_Amount command)\<rparr>))
                   else Inr p1) of
               Inl e \<Rightarrow> (Inl e, s)
             | Inr p2 \<Rightarrow>
            (case ValidateBalanced D (cmd_Ledger command) of
               Inl e \<Rightarrow> (Inl e, s)
             | Inr _ \<Rightarrow>
                 (let p3 = p2\<lparr>p_Status := cmd_Status command\<rparr>;
                      p4 = (if cmd_ProviderReference command \<noteq> []
                            then p3\<lparr>p_ProviderReference := cmd_ProviderReference command\<rparr> else p3);
                      payload = (cmd_Event command)\<lparr>ev_AggregateID := p_ID p4\<rparr>
                  in (Inr p4,
                      s\<lparr>payments := (payments s)(p_ID p4 \<mapsto> p4),
                        ledger := ledger s @ cmd_Ledger command,
                        outbox := (outbox s)(ev_ID payload \<mapsto> payload)\<rparr>))))))"

section \<open>Balances and payouts\<close>

fun balance_of_loop ::
  "'d decimal_pkg \<Rightarrow> string \<Rightarrow> string \<Rightarrow> 'd \<Rightarrow> 'd LedgerEntry list \<Rightarrow> 'd" where
  "balance_of_loop D account currency balance [] = balance"
| "balance_of_loop D account currency balance (e # es) =
     balance_of_loop D account currency
       (if le_AccountID e = account \<and> le_Currency e = currency
        then decSub D (decAdd D balance (le_Credit e)) (le_Debit e) else balance) es"

definition Memory_AvailableBalance ::
  "'d decimal_pkg \<Rightarrow> string list \<Rightarrow> string \<Rightarrow> string \<Rightarrow> 'd MemoryStore \<Rightarrow> 'd result" where
  "Memory_AvailableBalance D c merchant currency s =
     Inr (balance_of_loop D (acct_available merchant) currency (decZero D) (ledger s))"

definition Memory_CreatePayout ::
  "'d decimal_pkg \<Rightarrow> string list \<Rightarrow> 'd Payout \<Rightarrow> 'd LedgerEntry list \<Rightarrow> OutboxEvent
    \<Rightarrow> ('d MemoryStore, 'd Payout) op" where
  "Memory_CreatePayout D c p entries event s =
     (let balance = balance_of_loop D (acct_available (po_MerchantID p)) (po_Currency p)
                      (decZero D) (ledger s)
      in if decLessThan D balance (po_Amount p)
         then (Inl (Err ''insufficient available balance''), s)
         else case ValidateBalanced D entries of
           Inl e \<Rightarrow> (Inl e, s)
         | Inr _ \<Rightarrow>
             (Inr p, s\<lparr>payouts := (payouts s)(po_ID p \<mapsto> p), ledger := ledger s @ entries,
                       outbox := (outbox s)(ev_ID event \<mapsto> event)\<rparr>))"

definition Memory_GetPayout :: "string list \<Rightarrow> string \<Rightarrow> 'd MemoryStore \<Rightarrow> 'd Payout result" where
  "Memory_GetPayout c ident s = (case payouts s ident of None \<Rightarrow> Inl ErrNotFound | Some p \<Rightarrow> Inr p)"

definition Memory_TransitionPayout ::
  "'d decimal_pkg \<Rightarrow> string list \<Rightarrow> string \<Rightarrow> PayoutStatus \<Rightarrow> string \<Rightarrow> 'd LedgerEntry list \<Rightarrow> OutboxEvent
    \<Rightarrow> ('d MemoryStore, 'd Payout) op" where
  "Memory_TransitionPayout D c ident status reference entries event s =
     (case payouts s ident of
        None \<Rightarrow> (Inl ErrNotFound, s)
      | Some p \<Rightarrow>
          if po_Status p \<noteq> PayoutPending then (Inl (Err ''payout is already resolved''), s)
          else if status \<noteq> PayoutPaid \<and> status \<noteq> PayoutFailed
          then (Inl (Err ''invalid payout status''), s)
          else case ValidateBalanced D entries of
            Inl e \<Rightarrow> (Inl e, s)
          | Inr _ \<Rightarrow>
              (let p' = p\<lparr>po_Status := status, po_ProviderReference := reference\<rparr>
               in (Inr p', s\<lparr>payouts := (payouts s)(ident \<mapsto> p'), ledger := ledger s @ entries,
                             outbox := (outbox s)(ev_ID event \<mapsto> event)\<rparr>)))"

section \<open>Disputes\<close>

definition Memory_CreateDispute ::
  "'d decimal_pkg \<Rightarrow> string list \<Rightarrow> 'd Dispute \<Rightarrow> 'd LedgerEntry list \<Rightarrow> OutboxEvent
    \<Rightarrow> ('d MemoryStore, 'd Dispute) op" where
  "Memory_CreateDispute D c d entries event s =
     (if disputes s (di_ID d) \<noteq> None then (Inl (Err ''dispute already exists''), s)
      else case ValidateBalanced D entries of
        Inl e \<Rightarrow> (Inl e, s)
      | Inr _ \<Rightarrow>
          (Inr d, s\<lparr>disputes := (disputes s)(di_ID d \<mapsto> d), ledger := ledger s @ entries,
                    outbox := (outbox s)(ev_ID event \<mapsto> event)\<rparr>))"

definition Memory_GetDispute :: "string list \<Rightarrow> string \<Rightarrow> 'd MemoryStore \<Rightarrow> 'd Dispute result" where
  "Memory_GetDispute c ident s = (case disputes s ident of None \<Rightarrow> Inl ErrNotFound | Some d \<Rightarrow> Inr d)"

definition Memory_ResolveDispute ::
  "'d decimal_pkg \<Rightarrow> string list \<Rightarrow> string \<Rightarrow> DisputeStatus \<Rightarrow> 'd LedgerEntry list \<Rightarrow> OutboxEvent
    \<Rightarrow> ('d MemoryStore, 'd Dispute) op" where
  "Memory_ResolveDispute D c ident status entries event s =
     (case disputes s ident of
        None \<Rightarrow> (Inl ErrNotFound, s)
      | Some d \<Rightarrow>
          if di_Status d \<noteq> DisputeOpen then (Inl (Err ''dispute is already resolved''), s)
          else if status \<noteq> DisputeWon \<and> status \<noteq> DisputeLost
          then (Inl (Err ''invalid dispute status''), s)
          else case ValidateBalanced D entries of
            Inl e \<Rightarrow> (Inl e, s)
          | Inr _ \<Rightarrow>
              (let d' = d\<lparr>di_Status := status\<rparr>
               in (Inr d', s\<lparr>disputes := (disputes s)(ident \<mapsto> d'), ledger := ledger s @ entries,
                             outbox := (outbox s)(ev_ID event \<mapsto> event)\<rparr>)))"

section \<open>The store as a value of the interface\<close>

definition memoryStore :: "'d decimal_pkg \<Rightarrow> (string list, 'd MemoryStore, 'd) Store" where
  "memoryStore D = \<lparr>
     S_CreatePayment = Memory_CreatePayment D,
     S_GetPayment = Memory_GetPayment,
     S_GetPaymentByProviderReference = Memory_GetPaymentByProviderReference,
     S_Transition = Memory_Transition,
     S_ApplyAmount = Memory_ApplyAmount D,
     S_AppendLedger = Memory_AppendLedger D,
     S_Enqueue = Memory_Enqueue,
     S_ClaimOutbox = Memory_ClaimOutbox,
     S_MarkPublished = Memory_MarkPublished,
     S_RegisterWebhook = Memory_RegisterWebhook,
     S_CommitPaymentCommand = Memory_CommitPaymentCommand D,
     S_CreatePayout = Memory_CreatePayout D,
     S_GetPayout = Memory_GetPayout,
     S_AvailableBalance = Memory_AvailableBalance D,
     S_TransitionPayout = Memory_TransitionPayout D,
     S_CreateDispute = Memory_CreateDispute D,
     S_GetDispute = Memory_GetDispute,
     S_ResolveDispute = Memory_ResolveDispute D\<rparr>"

lemma memoryStore_simps [simp]:
  "S_CreatePayment (memoryStore D) = Memory_CreatePayment D"
  "S_GetPayment (memoryStore D) = Memory_GetPayment"
  "S_GetPaymentByProviderReference (memoryStore D) = Memory_GetPaymentByProviderReference"
  "S_Transition (memoryStore D) = Memory_Transition"
  "S_ApplyAmount (memoryStore D) = Memory_ApplyAmount D"
  "S_AppendLedger (memoryStore D) = Memory_AppendLedger D"
  "S_Enqueue (memoryStore D) = Memory_Enqueue"
  "S_ClaimOutbox (memoryStore D) = Memory_ClaimOutbox"
  "S_MarkPublished (memoryStore D) = Memory_MarkPublished"
  "S_RegisterWebhook (memoryStore D) = Memory_RegisterWebhook"
  "S_CommitPaymentCommand (memoryStore D) = Memory_CommitPaymentCommand D"
  "S_CreatePayout (memoryStore D) = Memory_CreatePayout D"
  "S_GetPayout (memoryStore D) = Memory_GetPayout"
  "S_AvailableBalance (memoryStore D) = Memory_AvailableBalance D"
  "S_TransitionPayout (memoryStore D) = Memory_TransitionPayout D"
  "S_CreateDispute (memoryStore D) = Memory_CreateDispute D"
  "S_GetDispute (memoryStore D) = Memory_GetDispute"
  "S_ResolveDispute (memoryStore D) = Memory_ResolveDispute D"
  by (simp_all add: memoryStore_def)

end
