(* ===== verification/Metrics.thy ===== *)
theory Metrics
  imports Ledger_Prelude "HOL-Library.Word"
begin

text \<open>
  The counters of src/internal/service/metrics.go. A value is a \<open>uint64\<close>: it wraps at 2^64.
  \<open>ks\<close> is the order in which \<open>range\<close> visits the map.
\<close>

record CounterMetrics =
  m_values :: "string \<rightharpoonup> 64 word"

definition NewCounterMetrics :: CounterMetrics where
  "NewCounterMetrics = \<lparr>m_values = Map.empty\<rparr>"

text \<open>The value Go reads for a key: zero when it is absent.\<close>

definition metric :: "CounterMetrics \<Rightarrow> string \<Rightarrow> 64 word" where
  "metric m name = (case m_values m name of None \<Rightarrow> 0 | Some v \<Rightarrow> v)"

definition Inc :: "string \<Rightarrow> CounterMetrics \<Rightarrow> CounterMetrics" where
  "Inc name m = m\<lparr>m_values := (m_values m)(name \<mapsto> metric m name + 1)\<rparr>"

fun snapshot_loop ::
  "(string \<rightharpoonup> 64 word) \<Rightarrow> (string \<rightharpoonup> 64 word) \<Rightarrow> string list \<Rightarrow> (string \<rightharpoonup> 64 word)" where
  "snapshot_loop values result [] = result"
| "snapshot_loop values result (k # ks) =
     snapshot_loop values
       (case values k of None \<Rightarrow> result | Some v \<Rightarrow> result(k \<mapsto> v)) ks"

definition Snapshot :: "string list \<Rightarrow> CounterMetrics \<Rightarrow> (string \<rightharpoonup> 64 word)" where
  "Snapshot ks m = snapshot_loop (m_values m) Map.empty ks"

definition Names :: "string list \<Rightarrow> CounterMetrics \<Rightarrow> string list" where
  "Names ks m = sort (filter (\<lambda>k. Snapshot ks m k \<noteq> None) ks)"

section \<open>Lemmas\<close>

lemma metric_Inc: "metric (Inc a m) b = (if a = b then metric m b + 1 else metric m b)"
  by (simp add: metric_def Inc_def)

lemma snapshot_loop_lookup:
  "snapshot_loop values result ks k =
     (if k \<in> set ks \<and> values k \<noteq> None then values k else result k)"
  by (induction ks arbitrary: result) (auto split: option.splits)

lemma Snapshot_eq: "visits (m_values m) ks \<Longrightarrow> Snapshot ks m = m_values m"
  by (rule ext) (auto simp: Snapshot_def snapshot_loop_lookup visits_def domIff)

lemma Names_set: "visits (m_values m) ks \<Longrightarrow> set (Names ks m) = dom (m_values m)"
  by (auto simp: Names_def Snapshot_eq visits_def)

lemma Names_sorted: "visits (m_values m) ks \<Longrightarrow> sorted (Names ks m) \<and> distinct (Names ks m)"
  by (simp add: Names_def visits_def)

lemma Names_order_irrelevant:
  assumes "visits (m_values m) ks" "visits (m_values m) ks'"
  shows "Names ks m = Names ks' m"
  using Names_sorted [OF assms(1)] Names_sorted [OF assms(2)] Names_set [OF assms(1)]
    Names_set [OF assms(2)] by (intro sorted_distinct_set_unique) simp_all

text \<open>\<open>n\<close> increments add \<open>n\<close>, modulo 2^64.\<close>

lemma metric_Inc_funpow: "metric ((Inc a ^^ n) m) a = metric m a + word_of_nat n"
  by (induction n) (simp_all add: metric_Inc)

section \<open>Properties\<close>

text \<open>
  The exported view of the counters does not depend on the order in which the map is visited:
  the names come out sorted, each once, exactly those that were incremented, and the snapshot
  holds their values. \<open>n\<close> increments of one name add \<open>n\<close> to it modulo 2^64 and leave the others.
\<close>

theorem metrics_view:
  assumes "visits (m_values m) ks"
  shows "sorted (Names ks m) \<and> distinct (Names ks m) \<and> set (Names ks m) = dom (m_values m) \<and>
     Snapshot ks m = m_values m \<and>
     metric ((Inc a ^^ n) m) b = (if b = a then metric m a + word_of_nat n else metric m b)"
proof -
  have "metric ((Inc a ^^ n) m) b = (if b = a then metric m a + word_of_nat n else metric m b)"
  proof (cases "b = a")
    case False
    then show ?thesis by (induction n) (simp_all add: metric_Inc)
  qed (simp add: metric_Inc_funpow)
  then show ?thesis
    using Names_sorted [OF assms] Names_set [OF assms] Snapshot_eq [OF assms] by simp
qed

theorem metrics_view_witness:
  "Names [''b'', ''a''] (Inc ''a'' (Inc ''b'' NewCounterMetrics)) = [''a'', ''b''] \<and>
   metric ((Inc ''a'' ^^ 2) (Inc ''a'' (Inc ''b'' NewCounterMetrics))) ''a'' = 3"
proof -
  have "visits (m_values (Inc ''a'' (Inc ''b'' NewCounterMetrics))) [''b'', ''a'']"
    by (auto simp: visits_def Inc_def NewCounterMetrics_def)
  from metrics_view [OF this, where a = "''a''" and n = 2 and b = "''a''"]
  show ?thesis by (simp add: Names_def Snapshot_def Inc_def NewCounterMetrics_def metric_def)
qed

end
