(* ===== verification/Payment_Service.thy ===== *)
theory Payment_Service
  imports Memory_Store Metrics
begin

text \<open>
  The payment service (src/internal/service/payment_service.go) and its stand-ins for the
  provider and the risk engine (src/internal/service/fakes.go). The service is written over any
  store and any provider. The calls that reach the provider are logged in the world, so that
  properties can speak of them.
\<close>

section \<open>What a service call works with\<close>

text \<open>
  \<open>env_uuid n\<close> is the string the \<open>n\<close>-th call of \<open>uuid.NewString()\<close> returns in the process, and
  \<open>w_next\<close> counts these calls.
\<close>

record 'd Env =
  env_D :: "'d decimal_pkg"
  env_U :: "string \<Rightarrow> string"
  env_uuid :: "nat \<Rightarrow> string"

datatype 'd ProviderCall =
  CallAuthorize "'d Payment" | CallCapture "'d Payment" 'd | CallRefund "'d Payment" 'd

record ('s, 'd) World =
  w_store :: 's
  w_next :: nat
  w_calls :: "'d ProviderCall list"
  w_metrics :: CounterMetrics

record 'd Provider =
  prov_Authorize :: "'d Payment \<Rightarrow> string result"
  prov_Capture :: "'d Payment \<Rightarrow> 'd \<Rightarrow> unit result"
  prov_Refund :: "'d Payment \<Rightarrow> 'd \<Rightarrow> unit result"

text \<open>
  \<open>svc_Risk\<close> is \<open>None\<close> for a nil risk engine; \<open>svc_Metrics\<close> says that the field is not nil. The
  provider of a call is the provider as it answers during that call.
\<close>

record ('c, 's, 'd) PaymentService =
  svc_Store :: "('c, 's, 'd) Store"
  svc_Provider :: "'d Provider"
  svc_Risk :: "('d Payment \<Rightarrow> bool result) option"
  svc_Metrics :: bool

text \<open>A store method applied to the store of the world.\<close>

definition on_store :: "('s, 'a) op \<Rightarrow> (('s, 'd) World, 'a) op" where
  "on_store f w = (case f (w_store w) of (r, s) \<Rightarrow> (r, w\<lparr>w_store := s\<rparr>))"

text \<open>
  The two-entry literal \<open>[]domain.LedgerEntry{{..., Debit: amount}, {..., Credit: amount}}\<close>,
  whose identifiers are the \<open>n\<close>-th and the next UUID. The column not named is a zero value.
\<close>

definition entry_pair ::
  "'d Env \<Rightarrow> nat \<Rightarrow> string \<Rightarrow> string \<Rightarrow> string \<Rightarrow> string \<Rightarrow> 'd \<Rightarrow> 'd LedgerEntry list" where
  "entry_pair env n paymentID debitAccount creditAccount currency amount =
     [\<lparr>le_ID = env_uuid env n, le_PaymentID = paymentID, le_AccountID = debitAccount,
       le_Currency = currency, le_Debit = amount, le_Credit = decNil (env_D env)\<rparr>,
      \<lparr>le_ID = env_uuid env (Suc n), le_PaymentID = paymentID, le_AccountID = creditAccount,
       le_Currency = currency, le_Debit = decNil (env_D env), le_Credit = amount\<rparr>]"

section \<open>Stand-ins\<close>

definition DeterministicProvider :: "'d Provider" where
  "DeterministicProvider = \<lparr>
     prov_Authorize = (\<lambda>p. if length (p_ID p) < 8
                           then Inl (Panic ''slice bounds out of range'')
                           else Inr (''demo_'' @ take 8 (p_ID p))),
     prov_Capture = (\<lambda>_ _. Inr ()),
     prov_Refund = (\<lambda>_ _. Inr ())\<rparr>"

definition ThresholdRisk_Check ::
  "'d decimal_pkg \<Rightarrow> string \<Rightarrow> 'd Payment \<Rightarrow> bool result" where
  "ThresholdRisk_Check D maxAmount p =
     (case decNewFromString D maxAmount of
        Inl e \<Rightarrow> Inl e
      | Inr m \<Rightarrow> Inr (decLessThanOrEqual D (p_Amount p) m))"

section \<open>Create\<close>

definition PaymentService_Create ::
  "'d Env \<Rightarrow> ('c, 's, 'd) PaymentService \<Rightarrow> (nat \<Rightarrow> 'c) \<Rightarrow> 'd CreatePayment \<Rightarrow> string
    \<Rightarrow> (('s, 'd) World, 'd Payment \<times> bool) op" where
  "PaymentService_Create env svc ctx inp key w =
     (if key = [] then (Inl (Err ''x-idempotency-key is required''), w)
      else case NewPayment (env_D env) (env_U env) (env_uuid env (w_next w)) inp of
        Inl e \<Rightarrow> (Inl e, w)
      | Inr p \<Rightarrow>
          (case on_store (S_CreatePayment (svc_Store svc) (ctx 0) p key)
                  (w\<lparr>w_next := Suc (w_next w)\<rparr>) of
             (Inl e, w') \<Rightarrow> (Inl e, w')
           | (Inr (q, replay), w') \<Rightarrow>
               if replay then (Inr (q, True), w')
               else (Inr (q, False),
                     if svc_Metrics svc
                     then w'\<lparr>w_metrics := Inc ''payments_created'' (w_metrics w')\<rparr> else w')))"

section \<open>commit\<close>

text \<open>The payment as it is expected to be after the command; only the event's payload uses it.\<close>

definition commit_expected ::
  "'d decimal_pkg \<Rightarrow> 'd Payment \<Rightarrow> PaymentStatus \<Rightarrow> 'd \<Rightarrow> string \<Rightarrow> 'd Payment" where
  "commit_expected D p status amount reference =
     (let e1 = p\<lparr>p_Status := status, p_ProviderReference := reference\<rparr>;
          e2 = (if status = PaymentCaptured
                then e1\<lparr>p_CapturedAmount := decAdd D (p_CapturedAmount e1) amount\<rparr> else e1)
      in if status = PaymentRefunded
         then e2\<lparr>p_RefundedAmount := decAdd D (p_RefundedAmount e2) amount\<rparr> else e2)"

definition PaymentService_commit ::
  "'d Env \<Rightarrow> ('c, 's, 'd) PaymentService \<Rightarrow> 'c \<Rightarrow> 'd Payment \<Rightarrow> PaymentStatus \<Rightarrow> 'd \<Rightarrow> string
    \<Rightarrow> 'd LedgerEntry list \<Rightarrow> string \<Rightarrow> (('s, 'd) World, 'd Payment) op" where
  "PaymentService_commit env svc c p status amount reference entries eventType w =
     (case marshalPayment (env_D env) (commit_expected (env_D env) p status amount reference) of
        Inl e \<Rightarrow> (Inl e, w)
      | Inr payload \<Rightarrow>
          on_store (S_CommitPaymentCommand (svc_Store svc) c
            \<lparr>cmd_PaymentID = p_ID p, cmd_ProviderReference = reference, cmd_EventType = [],
             cmd_Status = status, cmd_Amount = amount, cmd_Ledger = entries,
             cmd_Event = \<lparr>ev_ID = env_uuid env (w_next w), ev_AggregateID = p_ID p,
               ev_EventType = eventType, ev_Payload = payload, ev_Published = False\<rparr>\<rparr>)
            (w\<lparr>w_next := Suc (w_next w)\<rparr>))"

section \<open>Authorize, Capture, Refund\<close>

text \<open>
  Each operation first reads the payment; what follows works on that snapshot and makes at most
  one further store call. The part after the read has a name of its own, because between the two
  store calls other requests may run.
\<close>

definition Authorize_read ::
  "'d Env \<Rightarrow> ('c, 's, 'd) PaymentService \<Rightarrow> (nat \<Rightarrow> 'c) \<Rightarrow> string \<Rightarrow> 'd Payment
    \<Rightarrow> (('s, 'd) World, 'd Payment) op" where
  "Authorize_read env svc ctx ident p w =
     (case (case svc_Risk svc of None \<Rightarrow> Inr True | Some check \<Rightarrow> check p) of
        Inl e \<Rightarrow> (Inl e, w)
      | Inr allowed \<Rightarrow>
          if \<not> allowed
          then (Inl (Err ''payment blocked by risk policy''),
                snd (on_store (S_Transition (svc_Store svc) (ctx 1) ident PaymentFailed
                               ''risk_blocked'') w))
          else
            (let w1 = w\<lparr>w_calls := w_calls w @ [CallAuthorize p]\<rparr>
             in case prov_Authorize (svc_Provider svc) p of
                  Inl (Panic m) \<Rightarrow> (Inl (Panic m), w1)
                | Inl e \<Rightarrow>
                    (Inl e, snd (on_store (S_Transition (svc_Store svc) (ctx 1) ident PaymentFailed
                                   ''provider_error'') w1))
                | Inr reference \<Rightarrow>
                    PaymentService_commit env svc (ctx 1) p PaymentAuthorized (decZero (env_D env))
                      reference
                      (entry_pair env (w_next w1) ident ''customer:pending''
                        (acct_pending (p_MerchantID p)) (p_Currency p) (p_Amount p))
                      ''payment.authorized'' (w1\<lparr>w_next := w_next w1 + 2\<rparr>)))"

definition PaymentService_Authorize ::
  "'d Env \<Rightarrow> ('c, 's, 'd) PaymentService \<Rightarrow> (nat \<Rightarrow> 'c) \<Rightarrow> string
    \<Rightarrow> (('s, 'd) World, 'd Payment) op" where
  "PaymentService_Authorize env svc ctx ident w =
     (case S_GetPayment (svc_Store svc) (ctx 0) ident (w_store w) of
        Inl e \<Rightarrow> (Inl e, w)
      | Inr p \<Rightarrow> Authorize_read env svc ctx ident p w)"

definition Capture_read ::
  "'d Env \<Rightarrow> ('c, 's, 'd) PaymentService \<Rightarrow> (nat \<Rightarrow> 'c) \<Rightarrow> string \<Rightarrow> 'd \<Rightarrow> 'd Payment
    \<Rightarrow> (('s, 'd) World, 'd Payment) op" where
  "Capture_read env svc ctx ident amount p w =
     (case ValidateCapture (env_D env) p amount of
        Inl e \<Rightarrow> (Inl e, w)
      | Inr _ \<Rightarrow>
          (let w1 = w\<lparr>w_calls := w_calls w @ [CallCapture p amount]\<rparr>
           in case prov_Capture (svc_Provider svc) p amount of
                Inl e \<Rightarrow> (Inl e, w1)
              | Inr _ \<Rightarrow>
                  PaymentService_commit env svc (ctx 1) p PaymentCaptured amount
                    (p_ProviderReference p)
                    (entry_pair env (w_next w1) ident (acct_pending (p_MerchantID p))
                      (acct_available (p_MerchantID p)) (p_Currency p) amount)
                    ''payment.captured'' (w1\<lparr>w_next := w_next w1 + 2\<rparr>)))"

definition PaymentService_Capture ::
  "'d Env \<Rightarrow> ('c, 's, 'd) PaymentService \<Rightarrow> (nat \<Rightarrow> 'c) \<Rightarrow> string \<Rightarrow> 'd
    \<Rightarrow> (('s, 'd) World, 'd Payment) op" where
  "PaymentService_Capture env svc ctx ident amount w =
     (case S_GetPayment (svc_Store svc) (ctx 0) ident (w_store w) of
        Inl e \<Rightarrow> (Inl e, w)
      | Inr p \<Rightarrow> Capture_read env svc ctx ident amount p w)"

definition Refund_read ::
  "'d Env \<Rightarrow> ('c, 's, 'd) PaymentService \<Rightarrow> (nat \<Rightarrow> 'c) \<Rightarrow> string \<Rightarrow> 'd \<Rightarrow> 'd Payment
    \<Rightarrow> (('s, 'd) World, 'd Payment) op" where
  "Refund_read env svc ctx ident amount p w =
     (case ValidateRefund (env_D env) p amount of
        Inl e \<Rightarrow> (Inl e, w)
      | Inr _ \<Rightarrow>
          (let w1 = w\<lparr>w_calls := w_calls w @ [CallRefund p amount]\<rparr>
           in case prov_Refund (svc_Provider svc) p amount of
                Inl e \<Rightarrow> (Inl e, w1)
              | Inr _ \<Rightarrow>
                  PaymentService_commit env svc (ctx 1) p PaymentRefunded amount
                    (p_ProviderReference p)
                    (entry_pair env (w_next w1) ident (acct_available (p_MerchantID p))
                      ''customer:refunded'' (p_Currency p) amount)
                    ''payment.refunded'' (w1\<lparr>w_next := w_next w1 + 2\<rparr>)))"

definition PaymentService_Refund ::
  "'d Env \<Rightarrow> ('c, 's, 'd) PaymentService \<Rightarrow> (nat \<Rightarrow> 'c) \<Rightarrow> string \<Rightarrow> 'd
    \<Rightarrow> (('s, 'd) World, 'd Payment) op" where
  "PaymentService_Refund env svc ctx ident amount w =
     (case S_GetPayment (svc_Store svc) (ctx 0) ident (w_store w) of
        Inl e \<Rightarrow> (Inl e, w)
      | Inr p \<Rightarrow> Refund_read env svc ctx ident amount p w)"

section \<open>The branches of the operations\<close>

text \<open>The answer of the risk engine; a nil engine allows everything.\<close>

definition risk_answer :: "('c, 's, 'd) PaymentService \<Rightarrow> 'd Payment \<Rightarrow> bool result" where
  "risk_answer svc p = (case svc_Risk svc of None \<Rightarrow> Inr True | Some check \<Rightarrow> check p)"

abbreviation log_call :: "'d ProviderCall \<Rightarrow> ('s, 'd) World \<Rightarrow> ('s, 'd) World" where
  "log_call c w \<equiv> w\<lparr>w_calls := w_calls w @ [c]\<rparr>"

lemma Authorize_read_cases:
  assumes "Authorize_read env svc ctx i p w = (r, w')"
  obtains (risk_error) e where "risk_answer svc p = Inl e" "r = Inl e" "w' = w"
  | (blocked) "risk_answer svc p = Inr False" "r = Inl (Err ''payment blocked by risk policy'')"
      "w' = snd (on_store (S_Transition (svc_Store svc) (ctx 1) i PaymentFailed ''risk_blocked'') w)"
  | (panic) m where "risk_answer svc p = Inr True" "prov_Authorize (svc_Provider svc) p = Inl (Panic m)"
      "r = Inl (Panic m)" "w' = log_call (CallAuthorize p) w"
  | (refused) e where "risk_answer svc p = Inr True" "prov_Authorize (svc_Provider svc) p = Inl e"
      "r = Inl e" "\<nexists>m. e = Panic m"
      "w' = snd (on_store (S_Transition (svc_Store svc) (ctx 1) i PaymentFailed ''provider_error'')
                  (log_call (CallAuthorize p) w))"
  | (commit) reference where "risk_answer svc p = Inr True"
      "prov_Authorize (svc_Provider svc) p = Inr reference"
      "PaymentService_commit env svc (ctx 1) p PaymentAuthorized (decZero (env_D env)) reference
         (entry_pair env (w_next w) i ''customer:pending'' (acct_pending (p_MerchantID p))
           (p_Currency p) (p_Amount p)) ''payment.authorized''
         (log_call (CallAuthorize p) w\<lparr>w_next := w_next w + 2\<rparr>) = (r, w')"
proof (cases "risk_answer svc p")
  case (Inl e)
  with assms risk_error show thesis by (simp add: Authorize_read_def risk_answer_def)
next
  case (Inr allowed)
  show thesis
  proof (cases allowed)
    case False
    with Inr assms blocked show thesis by (simp add: Authorize_read_def risk_answer_def)
  next
    case True
    note call = assms [unfolded Authorize_read_def] and risk = Inr [unfolded risk_answer_def True]
    show thesis
    proof (cases "prov_Authorize (svc_Provider svc) p")
      case (Inl e)
      show thesis
      proof (cases "\<exists>m. e = Panic m")
        case True
        with call risk Inl panic show thesis using Inr \<open>allowed\<close> by (auto simp: Let_def)
      next
        case False
        with call risk Inl refused [of e] show thesis using Inr \<open>allowed\<close>
          by (cases e) (simp_all add: Let_def)
      qed
    next
      case (Inr reference)
      with call risk commit [of reference] show thesis
        using \<open>risk_answer svc p = Inr allowed\<close> \<open>allowed\<close> by (simp add: Let_def)
    qed
  qed
qed

lemma Capture_read_cases:
  assumes "Capture_read env svc ctx i a p w = (r, w')"
  obtains (invalid) e where "ValidateCapture (env_D env) p a = Inl e" "r = Inl e" "w' = w"
  | (refused) e where "ValidateCapture (env_D env) p a = Inr ()"
      "prov_Capture (svc_Provider svc) p a = Inl e" "r = Inl e" "w' = log_call (CallCapture p a) w"
  | (commit) "ValidateCapture (env_D env) p a = Inr ()" "prov_Capture (svc_Provider svc) p a = Inr ()"
      "PaymentService_commit env svc (ctx 1) p PaymentCaptured a (p_ProviderReference p)
         (entry_pair env (w_next w) i (acct_pending (p_MerchantID p)) (acct_available (p_MerchantID p))
           (p_Currency p) a) ''payment.captured''
         (log_call (CallCapture p a) w\<lparr>w_next := w_next w + 2\<rparr>) = (r, w')"
proof (cases "ValidateCapture (env_D env) p a")
  case (Inl e)
  with assms invalid show thesis by (simp add: Capture_read_def)
next
  case (Inr u)
  with assms refused commit show thesis
    by (cases "prov_Capture (svc_Provider svc) p a") (simp_all add: Capture_read_def Let_def)
qed

lemma Refund_read_cases:
  assumes "Refund_read env svc ctx i a p w = (r, w')"
  obtains (invalid) e where "ValidateRefund (env_D env) p a = Inl e" "r = Inl e" "w' = w"
  | (refused) e where "ValidateRefund (env_D env) p a = Inr ()"
      "prov_Refund (svc_Provider svc) p a = Inl e" "r = Inl e" "w' = log_call (CallRefund p a) w"
  | (commit) "ValidateRefund (env_D env) p a = Inr ()" "prov_Refund (svc_Provider svc) p a = Inr ()"
      "PaymentService_commit env svc (ctx 1) p PaymentRefunded a (p_ProviderReference p)
         (entry_pair env (w_next w) i (acct_available (p_MerchantID p)) ''customer:refunded''
           (p_Currency p) a) ''payment.refunded''
         (log_call (CallRefund p a) w\<lparr>w_next := w_next w + 2\<rparr>) = (r, w')"
proof (cases "ValidateRefund (env_D env) p a")
  case (Inl e)
  with assms invalid show thesis by (simp add: Refund_read_def)
next
  case (Inr u)
  with assms refused commit show thesis
    by (cases "prov_Refund (svc_Provider svc) p a") (simp_all add: Refund_read_def Let_def)
qed

lemma PaymentService_commit_cases:
  assumes "PaymentService_commit env svc c p status amount reference entries eventType w = (r, w')"
  obtains (marshal) e where
      "marshalPayment (env_D env) (commit_expected (env_D env) p status amount reference) = Inl e"
      "r = Inl e" "w' = w"
  | (store) payload s' where
      "marshalPayment (env_D env) (commit_expected (env_D env) p status amount reference) = Inr payload"
      "S_CommitPaymentCommand (svc_Store svc) c
         \<lparr>cmd_PaymentID = p_ID p, cmd_ProviderReference = reference, cmd_EventType = [],
          cmd_Status = status, cmd_Amount = amount, cmd_Ledger = entries,
          cmd_Event = \<lparr>ev_ID = env_uuid env (w_next w), ev_AggregateID = p_ID p,
            ev_EventType = eventType, ev_Payload = payload, ev_Published = False\<rparr>\<rparr> (w_store w) = (r, s')"
      "w' = w\<lparr>w_next := Suc (w_next w), w_store := s'\<rparr>"
proof (cases "marshalPayment (env_D env) (commit_expected (env_D env) p status amount reference)")
  case (Inl e)
  with assms marshal show thesis by (simp add: PaymentService_commit_def)
next
  case (Inr payload)
  with assms store [of payload] show thesis
    by (auto simp: PaymentService_commit_def on_store_def split: prod.splits)
qed

lemma PaymentService_Create_cases:
  assumes "PaymentService_Create env svc ctx inp key w = (r, w')"
  obtains (no_key) "key = []" "r = Inl (Err ''x-idempotency-key is required'')" "w' = w"
  | (invalid) e where "key \<noteq> []"
      "NewPayment (env_D env) (env_U env) (env_uuid env (w_next w)) inp = Inl e" "r = Inl e" "w' = w"
  | (store) p s' where "key \<noteq> []"
      "NewPayment (env_D env) (env_U env) (env_uuid env (w_next w)) inp = Inr p"
      "S_CreatePayment (svc_Store svc) (ctx 0) p key (w_store w) = (r, s')"
      "w_store w' = s'" "w_next w' = Suc (w_next w)" "w_calls w' = w_calls w"
proof (cases "key = []")
  case True
  with assms no_key show thesis by (simp add: PaymentService_Create_def)
next
  case False
  show thesis
  proof (cases "NewPayment (env_D env) (env_U env) (env_uuid env (w_next w)) inp")
    case (Inl e)
    with assms False have "r = Inl e" "w' = w" by (simp_all add: PaymentService_Create_def)
    then show thesis by (rule invalid [OF False Inl])
  next
    case (Inr p)
    obtain r0 s' where call: "S_CreatePayment (svc_Store svc) (ctx 0) p key (w_store w) = (r0, s')"
      by fastforce
    with assms False Inr have res: "r = r0" "w_store w' = s'" "w_next w' = Suc (w_next w)"
      "w_calls w' = w_calls w"
      by (auto simp: PaymentService_Create_def on_store_def split: sum.splits prod.splits if_splits)
    show thesis by (rule store [OF False Inr call [folded res(1)] res(2-4)])
  qed
qed

text \<open>The pair of entries of a positive amount passes the balance check.\<close>

context decimal_laws
begin

lemma pair_balanced:
  assumes "env_D env = D" "0 < val a"
  shows "ValidateBalanced D (entry_pair env n pid dacct cacct c a) = Inr ()"
  using assms by (simp add: ValidateBalanced_iff entry_pair_def one_sided_def)

end

end
