(* ===== verification/Payout_Dispute.thy ===== *)
theory Payout_Dispute
  imports Payment_Service
begin

text \<open>
  The payout service (src/internal/service/payout.go) and the dispute service
  (src/internal/service/dispute.go), over any store. \<open>Complete\<close>, \<open>Open\<close> and \<open>Resolve\<close> read
  first and then make one store call; the part after the read is named separately.
\<close>

section \<open>Payouts\<close>

definition PayoutService_Create ::
  "'d Env \<Rightarrow> ('c, 's, 'd) Store \<Rightarrow> (nat \<Rightarrow> 'c) \<Rightarrow> string \<Rightarrow> string \<Rightarrow> 'd
    \<Rightarrow> (('s, 'd) World, 'd Payout) op" where
  "PayoutService_Create env S ctx merchant currency amount w =
     (let n = w_next w in
      case NewPayout (env_D env) (env_U env) (env_uuid env n) merchant currency amount of
        Inl e \<Rightarrow> (Inl e, w)
      | Inr p \<Rightarrow>
          on_store (S_CreatePayout S (ctx 0) p
            (entry_pair env (n + 1) [] (acct_available merchant) (acct_payout_pending merchant)
              (po_Currency p) amount)
            \<lparr>ev_ID = env_uuid env (n + 3), ev_AggregateID = po_ID p,
             ev_EventType = ''payout.created'',
             ev_Payload = payload_of (marshalPayout (env_D env) p), ev_Published = False\<rparr>)
            (w\<lparr>w_next := n + 4\<rparr>))"

definition Complete_read ::
  "'d Env \<Rightarrow> ('c, 's, 'd) Store \<Rightarrow> (nat \<Rightarrow> 'c) \<Rightarrow> string \<Rightarrow> string \<Rightarrow> bool \<Rightarrow> 'd Payout
    \<Rightarrow> (('s, 'd) World, 'd Payout) op" where
  "Complete_read env S ctx payoutID reference success payout w =
     (let n = w_next w;
          status = (if success then PayoutPaid else PayoutFailed);
          eventType = (if success then ''payout.paid'' else ''payout.failed'');
          entries =
            (if success
             then entry_pair env n [] (acct_payout_pending (po_MerchantID payout))
                    ''provider:payout_settled'' (po_Currency payout) (po_Amount payout)
             else entry_pair env n [] (acct_payout_pending (po_MerchantID payout))
                    (acct_available (po_MerchantID payout)) (po_Currency payout)
                    (po_Amount payout));
          payout' = payout\<lparr>po_Status := status, po_ProviderReference := reference\<rparr>
      in on_store (S_TransitionPayout S (ctx 1) payoutID status reference entries
           \<lparr>ev_ID = env_uuid env (n + 2), ev_AggregateID = payoutID, ev_EventType = eventType,
            ev_Payload = payload_of (marshalPayout (env_D env) payout'), ev_Published = False\<rparr>)
           (w\<lparr>w_next := n + 3\<rparr>))"

definition PayoutService_Complete ::
  "'d Env \<Rightarrow> ('c, 's, 'd) Store \<Rightarrow> (nat \<Rightarrow> 'c) \<Rightarrow> string \<Rightarrow> string \<Rightarrow> bool
    \<Rightarrow> (('s, 'd) World, 'd Payout) op" where
  "PayoutService_Complete env S ctx payoutID reference success w =
     (case S_GetPayout S (ctx 0) payoutID (w_store w) of
        Inl e \<Rightarrow> (Inl e, w)
      | Inr payout \<Rightarrow> Complete_read env S ctx payoutID reference success payout w)"

section \<open>Disputes\<close>

definition Open_read ::
  "'d Env \<Rightarrow> ('c, 's, 'd) Store \<Rightarrow> (nat \<Rightarrow> 'c) \<Rightarrow> string \<Rightarrow> string \<Rightarrow> 'd \<Rightarrow> 'd Payment
    \<Rightarrow> (('s, 'd) World, 'd Dispute) op" where
  "Open_read env S ctx paymentID reason amount p w =
     (let D = env_D env; n = w_next w in
      if \<not> decGreaterThan D amount (decZero D)
         \<or> decGreaterThan D amount (decSub D (p_CapturedAmount p) (p_RefundedAmount p))
      then (Inl (Err ''dispute amount exceeds settled payment amount''), w)
      else case NewDispute D (env_U env) (env_uuid env n) paymentID (p_MerchantID p) (p_Currency p)
                  reason amount of
        Inl e \<Rightarrow> (Inl e, w)
      | Inr d \<Rightarrow>
          on_store (S_CreateDispute S (ctx 1) d
            (entry_pair env (n + 1) paymentID (acct_available (p_MerchantID p))
              (acct_dispute_frozen (p_MerchantID p)) (p_Currency p) amount)
            \<lparr>ev_ID = env_uuid env (n + 3), ev_AggregateID = di_ID d,
             ev_EventType = ''dispute.opened'',
             ev_Payload = payload_of (marshalDispute D d), ev_Published = False\<rparr>)
            (w\<lparr>w_next := n + 4\<rparr>))"

definition DisputeService_Open ::
  "'d Env \<Rightarrow> ('c, 's, 'd) Store \<Rightarrow> (nat \<Rightarrow> 'c) \<Rightarrow> string \<Rightarrow> string \<Rightarrow> 'd
    \<Rightarrow> (('s, 'd) World, 'd Dispute) op" where
  "DisputeService_Open env S ctx paymentID reason amount w =
     (case S_GetPayment S (ctx 0) paymentID (w_store w) of
        Inl e \<Rightarrow> (Inl e, w)
      | Inr p \<Rightarrow> Open_read env S ctx paymentID reason amount p w)"

text \<open>
  The entries of the losing branch are built in any case, so a won dispute draws two UUIDs more.
\<close>

definition Resolve_read ::
  "'d Env \<Rightarrow> ('c, 's, 'd) Store \<Rightarrow> (nat \<Rightarrow> 'c) \<Rightarrow> string \<Rightarrow> bool \<Rightarrow> 'd Dispute
    \<Rightarrow> (('s, 'd) World, 'd Dispute) op" where
  "Resolve_read env S ctx disputeID merchantWins d w =
     (let n = w_next w;
          status = (if merchantWins then DisputeWon else DisputeLost);
          eventType = (if merchantWins then ''dispute.won'' else ''dispute.lost'');
          m = (if merchantWins then n + 4 else n + 2);
          entries =
            (if merchantWins
             then entry_pair env (n + 2) (di_PaymentID d) (acct_dispute_frozen (di_MerchantID d))
                    (acct_available (di_MerchantID d)) (di_Currency d) (di_Amount d)
             else entry_pair env n (di_PaymentID d) (acct_dispute_frozen (di_MerchantID d))
                    ''customer:chargeback'' (di_Currency d) (di_Amount d));
          d' = d\<lparr>di_Status := status\<rparr>
      in on_store (S_ResolveDispute S (ctx 1) disputeID status entries
           \<lparr>ev_ID = env_uuid env m, ev_AggregateID = disputeID, ev_EventType = eventType,
            ev_Payload = payload_of (marshalDispute (env_D env) d'), ev_Published = False\<rparr>)
           (w\<lparr>w_next := m + 1\<rparr>))"

definition DisputeService_Resolve ::
  "'d Env \<Rightarrow> ('c, 's, 'd) Store \<Rightarrow> (nat \<Rightarrow> 'c) \<Rightarrow> string \<Rightarrow> bool
    \<Rightarrow> (('s, 'd) World, 'd Dispute) op" where
  "DisputeService_Resolve env S ctx disputeID merchantWins w =
     (case S_GetDispute S (ctx 0) disputeID (w_store w) of
        Inl e \<Rightarrow> (Inl e, w)
      | Inr d \<Rightarrow> Resolve_read env S ctx disputeID merchantWins d w)"

end
