(* ===== verification/Ledger_Book.thy ===== *)
theory Ledger_Book
  imports Store_Interface
begin

text \<open>
  The abstract specification of the money side of the platform: a book of payments, payouts,
  disputes and postings with rational amounts, and the moves the services may make on it. A
  move is atomic. The book has no decimals, no UUIDs and no maps of events; the stores refine
  it (theories \<open>Store_Contract\<close> and \<open>Platform\<close>). Here are the moves, the invariant of the book
  and its proof by rule induction.
\<close>

section \<open>The book\<close>

record Posting =
  pst_payment :: string
  pst_account :: string
  pst_currency :: string
  pst_debit :: rat
  pst_credit :: rat

record BookPayment =
  bp_merchant :: string
  bp_currency :: string
  bp_amount :: rat
  bp_captured :: rat
  bp_refunded :: rat
  bp_status :: PaymentStatus

record BookPayout =
  bo_merchant :: string
  bo_currency :: string
  bo_amount :: rat
  bo_status :: PayoutStatus

record BookDispute =
  bd_payment :: string
  bd_merchant :: string
  bd_currency :: string
  bd_amount :: rat
  bd_status :: DisputeStatus

record Book =
  b_payments :: "string \<rightharpoonup> BookPayment"
  b_payouts :: "string \<rightharpoonup> BookPayout"
  b_disputes :: "string \<rightharpoonup> BookDispute"
  b_ledger :: "Posting list"
  b_events :: nat

definition empty_book :: Book where
  "empty_book = \<lparr>b_payments = Map.empty, b_payouts = Map.empty, b_disputes = Map.empty,
     b_ledger = [], b_events = 0\<rparr>"

text \<open>A movement of \<open>a\<close> from one account to another, and the event recorded with it.\<close>

definition posting_pair ::
  "string \<Rightarrow> string \<Rightarrow> string \<Rightarrow> string \<Rightarrow> rat \<Rightarrow> Posting list" where
  "posting_pair pid debitAccount creditAccount c a =
     [\<lparr>pst_payment = pid, pst_account = debitAccount, pst_currency = c, pst_debit = a, pst_credit = 0\<rparr>,
      \<lparr>pst_payment = pid, pst_account = creditAccount, pst_currency = c, pst_debit = 0, pst_credit = a\<rparr>]"

definition post :: "string \<Rightarrow> string \<Rightarrow> string \<Rightarrow> string \<Rightarrow> rat \<Rightarrow> Book \<Rightarrow> Book" where
  "post pid debitAccount creditAccount c a b =
     b\<lparr>b_ledger := b_ledger b @ posting_pair pid debitAccount creditAccount c a,
       b_events := Suc (b_events b)\<rparr>"

section \<open>Balances\<close>

definition posting_sum :: "(Posting \<Rightarrow> bool) \<Rightarrow> Posting list \<Rightarrow> rat" where
  "posting_sum P ps = sum_list (map (\<lambda>x. if P x then pst_credit x - pst_debit x else 0) ps)"

definition bal :: "Book \<Rightarrow> string \<Rightarrow> string \<Rightarrow> rat" where
  "bal b account c = posting_sum (\<lambda>x. pst_account x = account \<and> pst_currency x = c) (b_ledger b)"

text \<open>The part of an account's balance that carries a given payment identifier.\<close>

definition pbal :: "Book \<Rightarrow> string \<Rightarrow> string \<Rightarrow> rat" where
  "pbal b pid account = posting_sum (\<lambda>x. pst_payment x = pid \<and> pst_account x = account) (b_ledger b)"

definition currency_total :: "Book \<Rightarrow> string \<Rightarrow> rat" where
  "currency_total b c = posting_sum (\<lambda>x. pst_currency x = c) (b_ledger b)"

lemma posting_sum_append [simp]:
  "posting_sum P (ps @ qs) = posting_sum P ps + posting_sum P qs"
  by (simp add: posting_sum_def)

lemma posting_sum_Nil [simp]: "posting_sum P [] = 0"
  by (simp add: posting_sum_def)

lemma bal_post [balance_simps]:
  "bal (post pid d e c a b) account c' =
     bal b account c' + (if c' = c then (if account = e then a else 0) - (if account = d then a else 0)
                         else 0)"
  by (simp add: bal_def post_def posting_pair_def posting_sum_def)

lemma pbal_post [balance_simps]:
  "pbal (post pid d e c a b) pid' account =
     pbal b pid' account + (if pid' = pid then (if account = e then a else 0) - (if account = d then a else 0)
                            else 0)"
  by (simp add: pbal_def post_def posting_pair_def posting_sum_def)

lemma currency_total_post [balance_simps]: "currency_total (post pid d e c a b) c' = currency_total b c'"
  by (simp add: currency_total_def post_def posting_pair_def posting_sum_def)

lemma post_fields [simp]:
  "b_payments (post pid d e c a b) = b_payments b" "b_payouts (post pid d e c a b) = b_payouts b"
  "b_disputes (post pid d e c a b) = b_disputes b" "b_events (post pid d e c a b) = Suc (b_events b)"
  "length (b_ledger (post pid d e c a b)) = length (b_ledger b) + 2"
  by (simp_all add: post_def posting_pair_def)

lemma bal_updates [simp]:
  "bal (b\<lparr>b_payments := pm\<rparr>) = bal b" "bal (b\<lparr>b_payouts := om\<rparr>) = bal b"
  "bal (b\<lparr>b_disputes := dm\<rparr>) = bal b" "pbal (b\<lparr>b_payments := pm\<rparr>) = pbal b"
  "pbal (b\<lparr>b_payouts := om\<rparr>) = pbal b" "pbal (b\<lparr>b_disputes := dm\<rparr>) = pbal b"
  "currency_total (b\<lparr>b_payments := pm\<rparr>) = currency_total b"
  "currency_total (b\<lparr>b_payouts := om\<rparr>) = currency_total b"
  "currency_total (b\<lparr>b_disputes := dm\<rparr>) = currency_total b"
  by (simp_all add: bal_def pbal_def currency_total_def fun_eq_iff)

section \<open>The moves\<close>

definition set_payment :: "string \<Rightarrow> BookPayment \<Rightarrow> Book \<Rightarrow> Book" where
  "set_payment i p b = b\<lparr>b_payments := (b_payments b)(i \<mapsto> p)\<rparr>"

definition set_payout :: "string \<Rightarrow> BookPayout \<Rightarrow> Book \<Rightarrow> Book" where
  "set_payout i p b = b\<lparr>b_payouts := (b_payouts b)(i \<mapsto> p)\<rparr>"

definition set_dispute :: "string \<Rightarrow> BookDispute \<Rightarrow> Book \<Rightarrow> Book" where
  "set_dispute i d b = b\<lparr>b_disputes := (b_disputes b)(i \<mapsto> d)\<rparr>"

lemmas set_defs = set_payment_def set_payout_def set_dispute_def

text \<open>
  \<open>cok\<close> says which currency codes a payment may be created with. \<open>book_open\<close> asks only that the payment has captured as much as is disputed: the dispute
  service compares with the amount still settled when it read the payment, which a refund may
  have lowered since.
\<close>

inductive book_step :: "(string \<Rightarrow> bool) \<Rightarrow> Book \<Rightarrow> Book \<Rightarrow> bool" for cok where
  book_create: "b_payments b i = None \<Longrightarrow> 0 < a \<Longrightarrow> cok c \<Longrightarrow>
    book_step cok b (set_payment i \<lparr>bp_merchant = m, bp_currency = c, bp_amount = a, bp_captured = 0,
      bp_refunded = 0, bp_status = PaymentCreated\<rparr> b)"
| book_fail: "b_payments b i = Some p \<Longrightarrow> transition_table (bp_status p) PaymentFailed \<Longrightarrow>
    book_step cok b (set_payment i (p\<lparr>bp_status := PaymentFailed\<rparr>) b)"
| book_authorize: "b_payments b i = Some p \<Longrightarrow> transition_table (bp_status p) PaymentAuthorized \<Longrightarrow>
    book_step cok b (post i ''customer:pending'' (acct_pending (bp_merchant p)) (bp_currency p) (bp_amount p)
      (set_payment i (p\<lparr>bp_status := PaymentAuthorized\<rparr>) b))"
| book_capture: "b_payments b i = Some p \<Longrightarrow> transition_table (bp_status p) PaymentCaptured \<Longrightarrow>
    0 < a \<Longrightarrow> bp_captured p + a \<le> bp_amount p \<Longrightarrow>
    book_step cok b (post i (acct_pending (bp_merchant p)) (acct_available (bp_merchant p)) (bp_currency p) a
      (set_payment i (p\<lparr>bp_status := PaymentCaptured, bp_captured := bp_captured p + a\<rparr>) b))"
| book_refund: "b_payments b i = Some p \<Longrightarrow> transition_table (bp_status p) PaymentRefunded \<Longrightarrow>
    0 < a \<Longrightarrow> bp_refunded p + a \<le> bp_captured p \<Longrightarrow>
    book_step cok b (post i (acct_available (bp_merchant p)) ''customer:refunded'' (bp_currency p) a
      (set_payment i (p\<lparr>bp_status := PaymentRefunded, bp_refunded := bp_refunded p + a\<rparr>) b))"
| book_payout: "b_payouts b i = None \<Longrightarrow> 0 < a \<Longrightarrow> a \<le> bal b (acct_available m) c \<Longrightarrow>
    book_step cok b (post [] (acct_available m) (acct_payout_pending m) c a
      (set_payout i \<lparr>bo_merchant = m, bo_currency = c, bo_amount = a, bo_status = PayoutPending\<rparr> b))"
| book_paid: "b_payouts b i = Some p \<Longrightarrow> bo_status p = PayoutPending \<Longrightarrow>
    book_step cok b (post [] (acct_payout_pending (bo_merchant p)) ''provider:payout_settled''
      (bo_currency p) (bo_amount p) (set_payout i (p\<lparr>bo_status := PayoutPaid\<rparr>) b))"
| book_payout_failed: "b_payouts b i = Some p \<Longrightarrow> bo_status p = PayoutPending \<Longrightarrow>
    book_step cok b (post [] (acct_payout_pending (bo_merchant p)) (acct_available (bo_merchant p))
      (bo_currency p) (bo_amount p) (set_payout i (p\<lparr>bo_status := PayoutFailed\<rparr>) b))"
| book_open: "b_disputes b i = None \<Longrightarrow> b_payments b pid = Some p \<Longrightarrow> 0 < a \<Longrightarrow> a \<le> bp_captured p \<Longrightarrow>
    book_step cok b (post pid (acct_available (bp_merchant p)) (acct_dispute_frozen (bp_merchant p))
      (bp_currency p) a
      (set_dispute i \<lparr>bd_payment = pid, bd_merchant = bp_merchant p, bd_currency = bp_currency p,
        bd_amount = a, bd_status = DisputeOpen\<rparr> b))"
| book_won: "b_disputes b i = Some d \<Longrightarrow> bd_status d = DisputeOpen \<Longrightarrow>
    book_step cok b (post (bd_payment d) (acct_dispute_frozen (bd_merchant d))
      (acct_available (bd_merchant d)) (bd_currency d) (bd_amount d)
      (set_dispute i (d\<lparr>bd_status := DisputeWon\<rparr>) b))"
| book_lost: "b_disputes b i = Some d \<Longrightarrow> bd_status d = DisputeOpen \<Longrightarrow>
    book_step cok b (post (bd_payment d) (acct_dispute_frozen (bd_merchant d)) ''customer:chargeback''
      (bd_currency d) (bd_amount d) (set_dispute i (d\<lparr>bd_status := DisputeLost\<rparr>) b))"

inductive book_reachable :: "(string \<Rightarrow> bool) \<Rightarrow> Book \<Rightarrow> bool" for cok where
  book_start: "book_reachable cok empty_book"
| book_next: "book_reachable cok b \<Longrightarrow> book_step cok b b' \<Longrightarrow> book_reachable cok b'"

section \<open>The invariant\<close>

definition payment_ok :: "BookPayment \<Rightarrow> bool" where
  "payment_ok p \<longleftrightarrow>
     0 < bp_amount p \<and> 0 \<le> bp_refunded p \<and> bp_refunded p \<le> bp_captured p \<and>
     bp_captured p \<le> bp_amount p \<and> bp_status p \<noteq> PaymentStatusZero \<and>
     (bp_status p \<in> {PaymentCreated, PaymentAuthorized, PaymentFailed} \<longrightarrow> bp_captured p = 0) \<and>
     (bp_status p = PaymentCaptured \<longrightarrow> 0 < bp_captured p \<and> bp_refunded p = 0) \<and>
     (bp_status p = PaymentRefunded \<longrightarrow> 0 < bp_refunded p)"

definition settled :: "string \<Rightarrow> string \<Rightarrow> BookPayment \<Rightarrow> rat" where
  "settled m c p =
     (if bp_merchant p = m \<and> bp_currency p = c then bp_captured p - bp_refunded p else 0)"

definition payout_in :: "PayoutStatus set \<Rightarrow> string \<Rightarrow> string \<Rightarrow> BookPayout \<Rightarrow> rat" where
  "payout_in S m c p =
     (if bo_merchant p = m \<and> bo_currency p = c \<and> bo_status p \<in> S then bo_amount p else 0)"

definition dispute_in :: "DisputeStatus set \<Rightarrow> string \<Rightarrow> string \<Rightarrow> BookDispute \<Rightarrow> rat" where
  "dispute_in S m c d =
     (if bd_merchant d = m \<and> bd_currency d = c \<and> bd_status d \<in> S then bd_amount d else 0)"

definition finite_book :: "Book \<Rightarrow> bool" where
  "finite_book b \<longleftrightarrow>
     finite (dom (b_payments b)) \<and> finite (dom (b_payouts b)) \<and> finite (dom (b_disputes b))"

definition amounts_ok :: "Book \<Rightarrow> bool" where
  "amounts_ok b \<longleftrightarrow>
     (\<forall>i p. b_payments b i = Some p \<longrightarrow> payment_ok p) \<and>
     (\<forall>i p. b_payouts b i = Some p \<longrightarrow> 0 < bo_amount p) \<and>
     (\<forall>i d. b_disputes b i = Some d \<longrightarrow> 0 < bd_amount d)"

text \<open>
  The available balance of a merchant is what its payments have settled, less the payouts that
  were not returned, less the disputes that were not won.
\<close>

definition available_ok :: "Book \<Rightarrow> bool" where
  "available_ok b \<longleftrightarrow> (\<forall>m c. bal b (acct_available m) c =
     dom_sum (settled m c) (b_payments b)
     - dom_sum (payout_in {PayoutPending, PayoutPaid} m c) (b_payouts b)
     - dom_sum (dispute_in {DisputeOpen, DisputeLost} m c) (b_disputes b))"

definition reserved_ok :: "Book \<Rightarrow> bool" where
  "reserved_ok b \<longleftrightarrow> (\<forall>m c. bal b (acct_payout_pending m) c =
     dom_sum (payout_in {PayoutPending} m c) (b_payouts b))"

definition frozen_ok :: "Book \<Rightarrow> bool" where
  "frozen_ok b \<longleftrightarrow> (\<forall>m c. bal b (acct_dispute_frozen m) c =
     dom_sum (dispute_in {DisputeOpen} m c) (b_disputes b))"

text \<open>
  The postings of one payment agree with its record. A payment that failed holds either nothing
  or, when it had been authorized before, still its whole amount.
\<close>

definition payment_postings_ok :: "Book \<Rightarrow> bool" where
  "payment_postings_ok b \<longleftrightarrow>
     (\<forall>i m. b_payments b i = None \<longrightarrow> pbal b i (acct_pending m) = 0 \<and> pbal b i ''customer:refunded'' = 0) \<and>
     (\<forall>i p. b_payments b i = Some p \<longrightarrow>
        pbal b i ''customer:refunded'' = bp_refunded p \<and>
        (bp_status p = PaymentCreated \<longrightarrow> pbal b i (acct_pending (bp_merchant p)) = 0) \<and>
        (bp_status p \<in> {PaymentAuthorized, PaymentCaptured, PaymentRefunded} \<longrightarrow>
           pbal b i (acct_pending (bp_merchant p)) = bp_amount p - bp_captured p) \<and>
        (bp_status p = PaymentFailed \<longrightarrow>
           pbal b i (acct_pending (bp_merchant p)) \<in> {0, bp_amount p}))"

definition entries_ok :: "Book \<Rightarrow> bool" where
  "entries_ok b \<longleftrightarrow> length (b_ledger b) = 2 * b_events b \<and> (\<forall>c. currency_total b c = 0)"

definition book_inv :: "Book \<Rightarrow> bool" where
  "book_inv b \<longleftrightarrow> finite_book b \<and> amounts_ok b \<and> available_ok b \<and> reserved_ok b \<and> frozen_ok b \<and>
     payment_postings_ok b \<and> entries_ok b"

lemma book_inv_empty: "book_inv empty_book"
  by (simp add: book_inv_def empty_book_def finite_book_def amounts_ok_def available_ok_def
      reserved_ok_def frozen_ok_def payment_postings_ok_def entries_ok_def bal_def pbal_def
      currency_total_def)

section \<open>Every move keeps it\<close>

lemma finite_book_step: "book_step cok b b' \<Longrightarrow> finite_book b \<Longrightarrow> finite_book b'"
  by (induction rule: book_step.induct) (simp_all add: finite_book_def set_defs)

lemma payment_ok_moves:
  assumes "payment_ok p"
  shows "transition_table (bp_status p) PaymentFailed \<Longrightarrow> payment_ok (p\<lparr>bp_status := PaymentFailed\<rparr>)"
    and "transition_table (bp_status p) PaymentAuthorized \<Longrightarrow>
      payment_ok (p\<lparr>bp_status := PaymentAuthorized\<rparr>)"
    and "transition_table (bp_status p) PaymentCaptured \<Longrightarrow> 0 < a \<Longrightarrow> bp_captured p + a \<le> bp_amount p \<Longrightarrow>
      payment_ok (p\<lparr>bp_status := PaymentCaptured, bp_captured := bp_captured p + a\<rparr>)"
    and "transition_table (bp_status p) PaymentRefunded \<Longrightarrow> 0 < a \<Longrightarrow> bp_refunded p + a \<le> bp_captured p \<Longrightarrow>
      payment_ok (p\<lparr>bp_status := PaymentRefunded, bp_refunded := bp_refunded p + a\<rparr>)"
  using assms unfolding payment_ok_def by auto

lemma amounts_ok_step: "book_step cok b b' \<Longrightarrow> amounts_ok b \<Longrightarrow> amounts_ok b'"
proof (induction rule: book_step.induct)
  case (book_create b i a c m)
  then show ?case by (simp add: amounts_ok_def set_defs payment_ok_def)
qed (simp_all add: amounts_ok_def set_defs payment_ok_moves)

lemmas dom_sum_changes = dom_sum_new dom_sum_upd

lemma available_ok_step: "book_step cok b b' \<Longrightarrow> finite_book b \<Longrightarrow> available_ok b \<Longrightarrow> available_ok b'"
  by (induction rule: book_step.induct)
    (simp_all add: available_ok_def finite_book_def set_defs balance_simps dom_sum_changes
      settled_def payout_in_def dispute_in_def)

lemma reserved_ok_step: "book_step cok b b' \<Longrightarrow> finite_book b \<Longrightarrow> reserved_ok b \<Longrightarrow> reserved_ok b'"
  by (induction rule: book_step.induct)
    (simp_all add: reserved_ok_def finite_book_def set_defs balance_simps dom_sum_changes
      payout_in_def)

lemma frozen_ok_step: "book_step cok b b' \<Longrightarrow> finite_book b \<Longrightarrow> frozen_ok b \<Longrightarrow> frozen_ok b'"
  by (induction rule: book_step.induct)
    (simp_all add: frozen_ok_def finite_book_def set_defs balance_simps dom_sum_changes
      dispute_in_def)

lemma entries_ok_step: "book_step cok b b' \<Longrightarrow> entries_ok b \<Longrightarrow> entries_ok b'"
  by (induction rule: book_step.induct)
    (simp_all add: entries_ok_def set_defs balance_simps)

text \<open>
  The postings of a payment: a move that posts neither to a pending account nor to the refund
  account, and changes no payment, keeps them.
\<close>

lemma payment_postings_frame:
  assumes "payment_postings_ok b" and "b_payments b' = b_payments b"
    and "\<And>i m. pbal b' i (acct_pending m) = pbal b i (acct_pending m)"
    and "\<And>i. pbal b' i ''customer:refunded'' = pbal b i ''customer:refunded''"
  shows "payment_postings_ok b'"
  using assms by (simp add: payment_postings_ok_def)

lemma payment_postings_step:
  "book_step cok b b' \<Longrightarrow> amounts_ok b \<Longrightarrow> payment_postings_ok b \<Longrightarrow> payment_postings_ok b'"
proof (induction rule: book_step.induct)
  case (book_create b i a c m)
  then show ?case by (auto simp: payment_postings_ok_def set_defs)
next
  case (book_fail b i p)
  then have "bp_captured p = 0" by (auto simp: amounts_ok_def payment_ok_def)
  with book_fail show ?case by (auto simp: payment_postings_ok_def set_defs)
next
  case (book_authorize b i p)
  then have "bp_captured p = 0" by (auto simp: amounts_ok_def payment_ok_def)
  with book_authorize show ?case by (auto simp: payment_postings_ok_def set_defs balance_simps)
next
  case (book_capture b i p a)
  then show ?case by (auto simp: payment_postings_ok_def set_defs balance_simps)
next
  case (book_refund b i p a)
  then show ?case by (auto simp: payment_postings_ok_def set_defs balance_simps)
qed (erule payment_postings_frame; simp add: set_defs balance_simps)+

lemma book_inv_step: "book_step cok b b' \<Longrightarrow> book_inv b \<Longrightarrow> book_inv b'"
  unfolding book_inv_def
  by (blast intro: finite_book_step amounts_ok_step available_ok_step reserved_ok_step
      frozen_ok_step payment_postings_step entries_ok_step)

lemma book_reachable_inv: "book_reachable cok b \<Longrightarrow> book_inv b"
  by (induction rule: book_reachable.induct) (auto intro: book_inv_empty book_inv_step)

lemma book_reachable_currency:
  "book_reachable cok b \<Longrightarrow> b_payments b i = Some p \<Longrightarrow> cok (bp_currency p)"
proof (induction arbitrary: i p rule: book_reachable.induct)
  case book_start
  then show ?case by (simp add: empty_book_def)
next
  case (book_next b b')
  from book_next.hyps(2) book_next.prems book_next.IH show ?case
    by (induction rule: book_step.induct) (auto simp: set_defs split: if_splits)
qed

section \<open>Records only move forward\<close>

text \<open>
  What a move can do to an existing payment: its parties and its amount never change, its
  captured and refunded amounts only grow, and its status follows the transition table.
\<close>

definition payment_le :: "BookPayment \<Rightarrow> BookPayment \<Rightarrow> bool" where
  "payment_le p q \<longleftrightarrow>
     bp_merchant q = bp_merchant p \<and> bp_currency q = bp_currency p \<and> bp_amount q = bp_amount p \<and>
     bp_captured p \<le> bp_captured q \<and> bp_refunded p \<le> bp_refunded q \<and>
     transition_table\<^sup>*\<^sup>* (bp_status p) (bp_status q)"

lemma payment_le_refl [simp]: "payment_le p p"
  by (simp add: payment_le_def)

lemma payment_le_trans: "payment_le p q \<Longrightarrow> payment_le q r \<Longrightarrow> payment_le p r"
  unfolding payment_le_def by (auto intro: rtranclp_trans)

lemma book_step_payment:
  "book_step cok b b' \<Longrightarrow> b_payments b i = Some p \<Longrightarrow> \<exists>q. b_payments b' i = Some q \<and> payment_le p q"
  by (induction rule: book_step.induct)
    (auto simp: set_defs payment_le_def simp del: transition_to_failed transition_to_authorized
      transition_to_captured transition_to_refunded)

text \<open>A payout or a dispute that is resolved stays as it is.\<close>

lemma book_step_payout:
  "book_step cok b b' \<Longrightarrow> b_payouts b i = Some p \<Longrightarrow>
     \<exists>q. b_payouts b' i = Some q \<and> (bo_status p \<noteq> PayoutPending \<longrightarrow> q = p) \<and>
       bo_merchant q = bo_merchant p \<and> bo_currency q = bo_currency p \<and> bo_amount q = bo_amount p"
  by (induction rule: book_step.induct) (auto simp: set_defs)

lemma book_step_dispute:
  "book_step cok b b' \<Longrightarrow> b_disputes b i = Some d \<Longrightarrow>
     \<exists>e. b_disputes b' i = Some e \<and> (bd_status d \<noteq> DisputeOpen \<longrightarrow> e = d) \<and>
       bd_payment e = bd_payment d \<and> bd_merchant e = bd_merchant d \<and>
       bd_currency e = bd_currency d \<and> bd_amount e = bd_amount d"
  by (induction rule: book_step.induct) (auto simp: set_defs)

text \<open>The postings are append-only.\<close>

lemma book_step_ledger: "book_step cok b b' \<Longrightarrow> \<exists>ps. b_ledger b' = b_ledger b @ ps"
  by (induction rule: book_step.induct) (simp_all add: set_defs post_def)

end
