(* ===== verification/Store_Contract.thy ===== *)
theory Store_Contract
  imports Ledger_Book
begin

text \<open>
  What the services rely on in a store, as a locale: every method that moves money performs one
  guarded move on the book and records exactly one outbox event, or returns an error; an error
  leaves the book as it was, or its answer was lost after the whole move was made. \<open>absB\<close> is the book a store state stands for, \<open>inv\<close> the
  store's own invariant, \<open>evs\<close> the identifiers of its outbox events, and \<open>repr\<close> the amounts the
  store keeps exactly.
\<close>

section \<open>Abstraction of the domain structures\<close>

definition abs_payment :: "('d \<Rightarrow> rat) \<Rightarrow> 'd Payment \<Rightarrow> BookPayment" where
  "abs_payment val p = \<lparr>bp_merchant = p_MerchantID p, bp_currency = p_Currency p,
     bp_amount = val (p_Amount p), bp_captured = val (p_CapturedAmount p),
     bp_refunded = val (p_RefundedAmount p), bp_status = p_Status p\<rparr>"

definition abs_payout :: "('d \<Rightarrow> rat) \<Rightarrow> 'd Payout \<Rightarrow> BookPayout" where
  "abs_payout val p = \<lparr>bo_merchant = po_MerchantID p, bo_currency = po_Currency p,
     bo_amount = val (po_Amount p), bo_status = po_Status p\<rparr>"

definition abs_dispute :: "('d \<Rightarrow> rat) \<Rightarrow> 'd Dispute \<Rightarrow> BookDispute" where
  "abs_dispute val d = \<lparr>bd_payment = di_PaymentID d, bd_merchant = di_MerchantID d,
     bd_currency = di_Currency d, bd_amount = val (di_Amount d), bd_status = di_Status d\<rparr>"

definition abs_entry :: "('d \<Rightarrow> rat) \<Rightarrow> 'd LedgerEntry \<Rightarrow> Posting" where
  "abs_entry val e = \<lparr>pst_payment = le_PaymentID e, pst_account = le_AccountID e,
     pst_currency = le_Currency e, pst_debit = val (le_Debit e), pst_credit = val (le_Credit e)\<rparr>"

lemma abs_fields [simp, abs_simps]:
  "bp_merchant (abs_payment val p) = p_MerchantID p"
  "bp_currency (abs_payment val p) = p_Currency p"
  "bp_amount (abs_payment val p) = val (p_Amount p)"
  "bp_captured (abs_payment val p) = val (p_CapturedAmount p)"
  "bp_refunded (abs_payment val p) = val (p_RefundedAmount p)"
  "bp_status (abs_payment val p) = p_Status p"
  "bo_merchant (abs_payout val q) = po_MerchantID q"
  "bo_currency (abs_payout val q) = po_Currency q"
  "bo_amount (abs_payout val q) = val (po_Amount q)"
  "bo_status (abs_payout val q) = po_Status q"
  "bd_payment (abs_dispute val d) = di_PaymentID d"
  "bd_merchant (abs_dispute val d) = di_MerchantID d"
  "bd_currency (abs_dispute val d) = di_Currency d"
  "bd_amount (abs_dispute val d) = val (di_Amount d)"
  "bd_status (abs_dispute val d) = di_Status d"
  by (simp_all add: abs_payment_def abs_payout_def abs_dispute_def)

section \<open>Moves as the stores make them\<close>

definition record_entries :: "Posting list \<Rightarrow> Book \<Rightarrow> Book" where
  "record_entries ps b = b\<lparr>b_ledger := b_ledger b @ ps, b_events := Suc (b_events b)\<rparr>"

lemma post_record_entries: "post pid d e c a = record_entries (posting_pair pid d e c a)"
  by (rule ext) (simp add: post_def record_entries_def)

definition commit_guard :: "PaymentStatus \<Rightarrow> rat \<Rightarrow> BookPayment \<Rightarrow> bool" where
  "commit_guard status a p \<longleftrightarrow>
     transition_table (bp_status p) status \<and>
     (status = PaymentCaptured \<longrightarrow> 0 < a \<and> bp_captured p + a \<le> bp_amount p) \<and>
     (status = PaymentRefunded \<longrightarrow> 0 < a \<and> bp_refunded p + a \<le> bp_captured p)"

definition commit_effect :: "PaymentStatus \<Rightarrow> rat \<Rightarrow> BookPayment \<Rightarrow> BookPayment" where
  "commit_effect status a p = p\<lparr>bp_status := status,
     bp_captured := (if status = PaymentCaptured then bp_captured p + a else bp_captured p),
     bp_refunded := (if status = PaymentRefunded then bp_refunded p + a else bp_refunded p)\<rparr>"

definition new_payment :: "('d \<Rightarrow> rat) \<Rightarrow> 'd Payment \<Rightarrow> bool" where
  "new_payment val p \<longleftrightarrow> p_Status p = PaymentCreated \<and> 0 < val (p_Amount p) \<and>
     val (p_CapturedAmount p) = 0 \<and> val (p_RefundedAmount p) = 0"

definition entries_repr :: "('d \<Rightarrow> bool) \<Rightarrow> 'd LedgerEntry list \<Rightarrow> bool" where
  "entries_repr repr es \<longleftrightarrow> (\<forall>e \<in> set es. repr (le_Debit e) \<and> repr (le_Credit e))"

text \<open>
  The answer of a call and what it did. A success means that the call did its work; after an error it
  did nothing, or all of it and only the answer was lost.
\<close>

definition outcome :: "'a result \<Rightarrow> bool \<Rightarrow> bool \<Rightarrow> bool" where
  "outcome r nothing all \<longleftrightarrow> all \<or> isl r \<and> nothing"

lemma outcome_simps [simp]:
  "outcome (Inr a) nothing all \<longleftrightarrow> all"
  "outcome (Inl e) nothing all \<longleftrightarrow> all \<or> nothing"
  by (auto simp: outcome_def)

lemma outcome_cases: "outcome r nothing all \<Longrightarrow> (all \<Longrightarrow> Q) \<Longrightarrow> (nothing \<Longrightarrow> Q) \<Longrightarrow> Q"
  by (auto simp: outcome_def)

section \<open>The contract\<close>

locale store_contract = decimal_laws D val
  for D :: "'d decimal_pkg" and val :: "'d \<Rightarrow> rat" +
  fixes S :: "('c, 's, 'd) Store" and absB :: "'s \<Rightarrow> Book" and inv :: "'s \<Rightarrow> bool"
    and evs :: "'s \<Rightarrow> string set" and repr :: "'d \<Rightarrow> bool"
  assumes repr_zero: "repr (decZero D)" "repr (decNil D)"
    and get_payment: "inv s \<Longrightarrow> S_GetPayment S c i s = Inr p \<Longrightarrow>
      p_ID p = i \<and> repr (p_Amount p) \<and> b_payments (absB s) i = Some (abs_payment val p)"
    and get_payout: "inv s \<Longrightarrow> S_GetPayout S c i s = Inr po \<Longrightarrow>
      repr (po_Amount po) \<and> b_payouts (absB s) i = Some (abs_payout val po)"
    and get_dispute: "inv s \<Longrightarrow> S_GetDispute S c i s = Inr di \<Longrightarrow>
      repr (di_Amount di) \<and> b_disputes (absB s) i = Some (abs_dispute val di)"
    and create_payment: "inv s \<Longrightarrow> S_CreatePayment S c p key s = (r0, s') \<Longrightarrow>
      b_payments (absB s) (p_ID p) = None \<Longrightarrow> new_payment val p \<Longrightarrow> repr (p_Amount p) \<Longrightarrow>
      inv s' \<and> evs s' = evs s \<and>
      (case r0 of Inr (q, True) \<Rightarrow> absB s' = absB s
       | _ \<Rightarrow> outcome r0 (absB s' = absB s) (absB s' = set_payment (p_ID p) (abs_payment val p) (absB s)))"
    and fail_payment: "inv s \<Longrightarrow> S_Transition S c i PaymentFailed reference s = (r, s') \<Longrightarrow>
      inv s' \<and> evs s' = evs s \<and>
      outcome r (absB s' = absB s)
        (\<exists>p. b_payments (absB s) i = Some p \<and> transition_table (bp_status p) PaymentFailed \<and>
           absB s' = set_payment i (p\<lparr>bp_status := PaymentFailed\<rparr>) (absB s))"
    and commit: "inv s \<Longrightarrow> S_CommitPaymentCommand S c cmd s = (r, s') \<Longrightarrow>
      ev_ID (cmd_Event cmd) \<notin> evs s \<Longrightarrow> entries_repr repr (cmd_Ledger cmd) \<Longrightarrow>
      repr (cmd_Amount cmd) \<Longrightarrow> inv s' \<and>
      outcome r (absB s' = absB s \<and> evs s' = evs s)
         (evs s' = insert (ev_ID (cmd_Event cmd)) (evs s) \<and>
          ValidateBalanced D (cmd_Ledger cmd) = Inr () \<and>
          (\<exists>p. b_payments (absB s) (cmd_PaymentID cmd) = Some p \<and>
            commit_guard (cmd_Status cmd) (val (cmd_Amount cmd)) p \<and>
            absB s' = record_entries (map (abs_entry val) (cmd_Ledger cmd))
              (set_payment (cmd_PaymentID cmd)
                (commit_effect (cmd_Status cmd) (val (cmd_Amount cmd)) p) (absB s))))"
    and create_payout: "inv s \<Longrightarrow> S_CreatePayout S c po es ev s = (rp, s') \<Longrightarrow>
      ev_ID ev \<notin> evs s \<Longrightarrow> b_payouts (absB s) (po_ID po) = None \<Longrightarrow>
      entries_repr repr es \<Longrightarrow> repr (po_Amount po) \<Longrightarrow> inv s' \<and>
      outcome rp (absB s' = absB s \<and> evs s' = evs s)
         (evs s' = insert (ev_ID ev) (evs s) \<and>
          val (po_Amount po) \<le> bal (absB s) (acct_available (po_MerchantID po)) (po_Currency po) \<and>
          absB s' = record_entries (map (abs_entry val) es)
            (set_payout (po_ID po) (abs_payout val po) (absB s)))"
    and transition_payout: "inv s \<Longrightarrow> S_TransitionPayout S c i pst reference es ev s = (rp, s') \<Longrightarrow>
      ev_ID ev \<notin> evs s \<Longrightarrow> entries_repr repr es \<Longrightarrow> inv s' \<and>
      outcome rp (absB s' = absB s \<and> evs s' = evs s)
         (evs s' = insert (ev_ID ev) (evs s) \<and> pst \<noteq> PayoutPending \<and>
          (\<exists>q. b_payouts (absB s) i = Some q \<and> bo_status q = PayoutPending \<and>
            absB s' = record_entries (map (abs_entry val) es)
              (set_payout i (q\<lparr>bo_status := pst\<rparr>) (absB s))))"
    and create_dispute: "inv s \<Longrightarrow> S_CreateDispute S c di es ev s = (rd, s') \<Longrightarrow>
      ev_ID ev \<notin> evs s \<Longrightarrow> entries_repr repr es \<Longrightarrow> repr (di_Amount di) \<Longrightarrow> inv s' \<and>
      outcome rd (absB s' = absB s \<and> evs s' = evs s)
         (evs s' = insert (ev_ID ev) (evs s) \<and> b_disputes (absB s) (di_ID di) = None \<and>
          absB s' = record_entries (map (abs_entry val) es)
            (set_dispute (di_ID di) (abs_dispute val di) (absB s)))"
    and resolve_dispute: "inv s \<Longrightarrow> S_ResolveDispute S c i dst es ev s = (rd, s') \<Longrightarrow>
      ev_ID ev \<notin> evs s \<Longrightarrow> entries_repr repr es \<Longrightarrow> inv s' \<and>
      outcome rd (absB s' = absB s \<and> evs s' = evs s)
         (evs s' = insert (ev_ID ev) (evs s) \<and> dst \<noteq> DisputeOpen \<and>
          (\<exists>d. b_disputes (absB s) i = Some d \<and> bd_status d = DisputeOpen \<and>
            absB s' = record_entries (map (abs_entry val) es)
              (set_dispute i (d\<lparr>bd_status := dst\<rparr>) (absB s))))"
    and claim_outbox: "inv s \<Longrightarrow> S_ClaimOutbox S c n s = (r', s') \<Longrightarrow>
      inv s' \<and> evs s' = evs s \<and> absB s' = absB s"
    and mark_published: "inv s \<Longrightarrow> S_MarkPublished S c i s = (u, s') \<Longrightarrow>
      inv s' \<and> evs s' = evs s \<and> absB s' = absB s"
    and register_webhook: "inv s \<Longrightarrow> S_RegisterWebhook S c i s = (w, s') \<Longrightarrow>
      inv s' \<and> evs s' = evs s \<and> absB s' = absB s"

end
