(* ===== verification/Memory_Contract.thy ===== *)
theory Memory_Contract
  imports Memory_Store Store_Contract
begin

text \<open>
  The memory store keeps the store contract: its invariant, the book it stands for, and one
  lemma per method. The interpretation at the end makes every consequence of the contract
  available for the memory store, over any decimal package with the documented laws.
\<close>

section \<open>Invariant and abstraction\<close>

text \<open>
  Payments and events are filed under their own identifier, an idempotency key names an existing
  payment, and the maps the book counts are finite.
\<close>

definition memory_inv :: "'d MemoryStore \<Rightarrow> bool" where
  "memory_inv s \<longleftrightarrow>
     (\<forall>i p. payments s i = Some p \<longrightarrow> p_ID p = i) \<and>
     (\<forall>k i. keys s k = Some i \<longrightarrow> payments s i \<noteq> None) \<and>
     (\<forall>i e. outbox s i = Some e \<longrightarrow> ev_ID e = i) \<and>
     finite (dom (outbox s))"

definition absM :: "('d \<Rightarrow> rat) \<Rightarrow> 'd MemoryStore \<Rightarrow> Book" where
  "absM val s = \<lparr>b_payments = map_option (abs_payment val) \<circ> payments s,
     b_payouts = map_option (abs_payout val) \<circ> payouts s,
     b_disputes = map_option (abs_dispute val) \<circ> disputes s,
     b_ledger = map (abs_entry val) (ledger s),
     b_events = card (dom (outbox s))\<rparr>"

lemma memory_inv_New: "memory_inv NewMemory"
  by (simp add: memory_inv_def NewMemory_def)

lemma absM_New: "absM val NewMemory = empty_book"
  by (simp add: absM_def NewMemory_def empty_book_def)

lemma map_option_upd [simp]: "map_option f \<circ> m(k \<mapsto> v) = (map_option f \<circ> m)(k \<mapsto> f v)"
  by (rule ext) simp

lemma absM_fields [simp, abs_simps]:
  "b_payments (absM val s) i = map_option (abs_payment val) (payments s i)"
  "b_payouts (absM val s) i = map_option (abs_payout val) (payouts s i)"
  "b_disputes (absM val s) i = map_option (abs_dispute val) (disputes s i)"
  "b_ledger (absM val s) = map (abs_entry val) (ledger s)"
  "b_events (absM val s) = card (dom (outbox s))"
  by (simp_all add: absM_def)

section \<open>Balances\<close>

definition entry_balance :: "('d \<Rightarrow> rat) \<Rightarrow> string \<Rightarrow> string \<Rightarrow> 'd LedgerEntry list \<Rightarrow> rat" where
  "entry_balance val account currency es =
     sum_list (map (\<lambda>e. if le_AccountID e = account \<and> le_Currency e = currency
                        then val (le_Credit e) - val (le_Debit e) else 0) es)"

lemma entry_balance_simps [simp]:
  "entry_balance val account currency [] = 0"
  "entry_balance val account currency (e # es) =
     (if le_AccountID e = account \<and> le_Currency e = currency
      then val (le_Credit e) - val (le_Debit e) else 0) + entry_balance val account currency es"
  "entry_balance val account currency (es @ es') =
     entry_balance val account currency es + entry_balance val account currency es'"
  by (simp_all add: entry_balance_def)

lemma bal_absM [abs_simps]: "bal (absM val s) account c = entry_balance val account c (ledger s)"
  by (simp add: bal_def posting_sum_def entry_balance_def comp_def abs_entry_def cong: if_cong)

context decimal_laws
begin

lemma val_balance_of_loop [simp]:
  "val (balance_of_loop D account currency b es) = val b + entry_balance val account currency es"
  by (induction es arbitrary: b) (simp_all add: algebra_simps)

section \<open>The methods keep the contract\<close>

lemma memory_create_payment:
  assumes "memory_inv s" "Memory_CreatePayment D c p key s = (r, s')" "payments s (p_ID p) = None"
  shows "memory_inv s' \<and> outbox s' = outbox s \<and>
     (case r of Inr (q, False) \<Rightarrow> absM val s' = set_payment (p_ID p) (abs_payment val p) (absM val s)
      | _ \<Rightarrow> absM val s' = absM val s)"
proof (cases "keys s key")
  case None
  with assms show ?thesis
    by (auto simp: Memory_CreatePayment_def memory_inv_def set_defs absM_def split: if_splits)
next
  case (Some i)
  with assms show ?thesis by (auto simp: Memory_CreatePayment_def)
qed

lemma memory_fail_payment:
  assumes "memory_inv s" "Memory_Transition c i PaymentFailed reference s = (r, s')"
  shows "memory_inv s' \<and> outbox s' = outbox s \<and>
     (case r of Inl _ \<Rightarrow> s' = s
      | Inr _ \<Rightarrow> \<exists>p. b_payments (absM val s) i = Some p \<and> transition_table (bp_status p) PaymentFailed \<and>
          absM val s' = set_payment i (p\<lparr>bp_status := PaymentFailed\<rparr>) (absM val s))"
  using assms
  by (auto simp: Memory_Transition_def memory_inv_def set_defs absM_def CanTransition_def
      abs_payment_def Let_def split: option.splits if_splits)

text \<open>What a successful commit does to the store, with every guard it passed.\<close>

lemma Memory_Commit_ok:
  assumes "Memory_CommitPaymentCommand D c cmd s = (Inr q, s')"
  obtains p where "payments s (cmd_PaymentID cmd) = Some p"
    and "commit_guard (cmd_Status cmd) (val (cmd_Amount cmd)) (abs_payment val p)"
    and "ValidateBalanced D (cmd_Ledger cmd) = Inr ()"
    and "p_ID q = p_ID p"
    and "abs_payment val q =
      commit_effect (cmd_Status cmd) (val (cmd_Amount cmd)) (abs_payment val p)"
    and "s' = s\<lparr>payments := (payments s)(p_ID p \<mapsto> q), ledger := ledger s @ cmd_Ledger cmd,
      outbox := (outbox s)(ev_ID (cmd_Event cmd) \<mapsto> (cmd_Event cmd)\<lparr>ev_AggregateID := p_ID p\<rparr>)\<rparr>"
  using assms
  by (auto simp: Memory_CommitPaymentCommand_def CanTransition_def commit_guard_def
      commit_effect_def abs_payment_def ValidateCapture_iff ValidateRefund_iff Let_def
      split: option.splits if_splits sum.splits)

lemma Memory_Commit_error:
  "Memory_CommitPaymentCommand D c cmd s = (Inl e, s') \<Longrightarrow> s' = s"
  by (auto simp: Memory_CommitPaymentCommand_def Let_def split: option.splits if_splits sum.splits)

lemma memory_commit:
  assumes inv: "memory_inv s" and call: "Memory_CommitPaymentCommand D c cmd s = (r, s')"
    and new: "ev_ID (cmd_Event cmd) \<notin> dom (outbox s)"
  shows "memory_inv s' \<and>
     (case r of Inl _ \<Rightarrow> absM val s' = absM val s \<and> dom (outbox s') = dom (outbox s)
      | Inr _ \<Rightarrow> dom (outbox s') = insert (ev_ID (cmd_Event cmd)) (dom (outbox s)) \<and>
         ValidateBalanced D (cmd_Ledger cmd) = Inr () \<and>
         (\<exists>p. b_payments (absM val s) (cmd_PaymentID cmd) = Some p \<and>
           commit_guard (cmd_Status cmd) (val (cmd_Amount cmd)) p \<and>
           absM val s' = record_entries (map (abs_entry val) (cmd_Ledger cmd))
             (set_payment (cmd_PaymentID cmd)
               (commit_effect (cmd_Status cmd) (val (cmd_Amount cmd)) p) (absM val s))))"
proof (cases r)
  case (Inl e)
  with call inv show ?thesis by (auto dest: Memory_Commit_error)
next
  case (Inr q)
  from call [unfolded Inr] obtain p where p: "payments s (cmd_PaymentID cmd) = Some p"
    "commit_guard (cmd_Status cmd) (val (cmd_Amount cmd)) (abs_payment val p)"
    "ValidateBalanced D (cmd_Ledger cmd) = Inr ()" "p_ID q = p_ID p"
    "abs_payment val q = commit_effect (cmd_Status cmd) (val (cmd_Amount cmd)) (abs_payment val p)"
    "s' = s\<lparr>payments := (payments s)(p_ID p \<mapsto> q), ledger := ledger s @ cmd_Ledger cmd,
      outbox := (outbox s)(ev_ID (cmd_Event cmd) \<mapsto> (cmd_Event cmd)\<lparr>ev_AggregateID := p_ID p\<rparr>)\<rparr>"
    by (rule Memory_Commit_ok)
  from inv p(1) have i: "p_ID p = cmd_PaymentID cmd" by (auto simp: memory_inv_def)
  from inv i p have "memory_inv s'" by (auto simp: memory_inv_def split: if_splits)
  moreover have "card (dom (outbox s')) = Suc (card (dom (outbox s)))"
    using inv new p(6) by (simp add: memory_inv_def)
  ultimately show ?thesis
    using Inr p i by (simp add: absM_def record_entries_def set_defs)
qed

text \<open>
  The four methods that write a payout or a dispute: on success the record, the entries and the
  event are written together.
\<close>

lemma memory_create_payout:
  assumes inv: "memory_inv s" and call: "Memory_CreatePayout D c po es ev s = (r, s')"
    and new: "ev_ID ev \<notin> dom (outbox s)"
  shows "memory_inv s' \<and>
     (case r of Inl _ \<Rightarrow> absM val s' = absM val s \<and> dom (outbox s') = dom (outbox s)
      | Inr _ \<Rightarrow> dom (outbox s') = insert (ev_ID ev) (dom (outbox s)) \<and>
         val (po_Amount po) \<le> bal (absM val s) (acct_available (po_MerchantID po)) (po_Currency po) \<and>
         absM val s' = record_entries (map (abs_entry val) es)
           (set_payout (po_ID po) (abs_payout val po) (absM val s)))"
  using assms
  by (auto simp: Memory_CreatePayout_def memory_inv_def record_entries_def set_defs absM_def Let_def
      bal_absM [unfolded absM_def] card_insert_if split: sum.splits if_splits)

lemma memory_transition_payout:
  assumes inv: "memory_inv s" and call: "Memory_TransitionPayout D c i pst reference es ev s = (r, s')"
    and new: "ev_ID ev \<notin> dom (outbox s)"
  shows "memory_inv s' \<and>
     (case r of Inl _ \<Rightarrow> absM val s' = absM val s \<and> dom (outbox s') = dom (outbox s)
      | Inr _ \<Rightarrow> dom (outbox s') = insert (ev_ID ev) (dom (outbox s)) \<and> pst \<noteq> PayoutPending \<and>
         (\<exists>q. b_payouts (absM val s) i = Some q \<and> bo_status q = PayoutPending \<and>
           absM val s' = record_entries (map (abs_entry val) es)
             (set_payout i (q\<lparr>bo_status := pst\<rparr>) (absM val s))))"
  using assms
  by (auto simp: Memory_TransitionPayout_def memory_inv_def record_entries_def set_defs absM_def
      Let_def abs_payout_def card_insert_if split: option.splits sum.splits if_splits)

lemma memory_create_dispute:
  assumes inv: "memory_inv s" and call: "Memory_CreateDispute D c di es ev s = (r, s')"
    and new: "ev_ID ev \<notin> dom (outbox s)"
  shows "memory_inv s' \<and>
     (case r of Inl _ \<Rightarrow> absM val s' = absM val s \<and> dom (outbox s') = dom (outbox s)
      | Inr _ \<Rightarrow> dom (outbox s') = insert (ev_ID ev) (dom (outbox s)) \<and>
         b_disputes (absM val s) (di_ID di) = None \<and>
         absM val s' = record_entries (map (abs_entry val) es)
           (set_dispute (di_ID di) (abs_dispute val di) (absM val s)))"
  using assms
  by (auto simp: Memory_CreateDispute_def memory_inv_def record_entries_def set_defs absM_def
      card_insert_if split: sum.splits if_splits)

lemma memory_resolve_dispute:
  assumes inv: "memory_inv s" and call: "Memory_ResolveDispute D c i dst es ev s = (r, s')"
    and new: "ev_ID ev \<notin> dom (outbox s)"
  shows "memory_inv s' \<and>
     (case r of Inl _ \<Rightarrow> absM val s' = absM val s \<and> dom (outbox s') = dom (outbox s)
      | Inr _ \<Rightarrow> dom (outbox s') = insert (ev_ID ev) (dom (outbox s)) \<and> dst \<noteq> DisputeOpen \<and>
         (\<exists>d. b_disputes (absM val s) i = Some d \<and> bd_status d = DisputeOpen \<and>
           absM val s' = record_entries (map (abs_entry val) es)
             (set_dispute i (d\<lparr>bd_status := dst\<rparr>) (absM val s))))"
  using assms
  by (auto simp: Memory_ResolveDispute_def memory_inv_def record_entries_def set_defs absM_def
      Let_def abs_dispute_def card_insert_if split: option.splits sum.splits if_splits)

lemma memory_outbox_steps:
  "Memory_ClaimOutbox c n s = (r, s') \<Longrightarrow> s' = s"
  "memory_inv s \<Longrightarrow> Memory_MarkPublished c i s = (r', s') \<Longrightarrow>
     memory_inv s' \<and> dom (outbox s') = dom (outbox s) \<and> absM val s' = absM val s"
  "memory_inv s \<Longrightarrow> Memory_RegisterWebhook c i s = (r'', s') \<Longrightarrow>
     memory_inv s' \<and> dom (outbox s') = dom (outbox s) \<and> absM val s' = absM val s"
  by (auto simp: Memory_ClaimOutbox_def Memory_MarkPublished_def Memory_RegisterWebhook_def
      memory_inv_def absM_def insert_absorb [OF domI] split: option.splits if_splits)

end

sublocale decimal_laws \<subseteq> mem: store_contract D val "memoryStore D" "absM val" memory_inv
  "\<lambda>s. dom (outbox s)" "\<lambda>_. True"
proof (unfold_locales, goal_cases)
  case 1 show ?case by simp
next
  case 2 then show ?case
    by (auto simp: Memory_GetPayment_def memory_inv_def split: option.splits)
next
  case 3 then show ?case by (auto simp: Memory_GetPayout_def split: option.splits)
next
  case 4 then show ?case by (auto simp: Memory_GetDispute_def split: option.splits)
next
  case (5 s c p key r0 s')
  then show ?case using memory_create_payment [of s c p key r0 s'] by (auto split: sum.splits bool.splits)
next
  case (6 s c i reference r s')
  then show ?case using memory_fail_payment [of s c i reference r s']
    by (auto split: sum.splits)
next
  case (7 s c cmd r s') then show ?case using memory_commit [of s c cmd r s'] by (auto split: sum.splits)
next
  case (8 s c po es ev rp s')
  then show ?case using memory_create_payout [of s c po es ev rp s'] by (auto split: sum.splits)
next
  case (9 s c i pst reference es ev rp s')
  then show ?case using memory_transition_payout [of s c i pst reference es ev rp s'] by (auto split: sum.splits)
next
  case (10 s c di es ev rd s')
  then show ?case using memory_create_dispute [of s c di es ev rd s'] by (auto split: sum.splits)
next
  case (11 s c i dst es ev rd s')
  then show ?case using memory_resolve_dispute [of s c i dst es ev rd s'] by (auto split: sum.splits)
next
  case (12 s c n r' s')
  then show ?case using memory_outbox_steps(1) [of c n s r' s'] by simp
next
  case (13 s c i u s')
  then show ?case using memory_outbox_steps(2) [of s c i u s'] by simp
next
  case (14 s c i w s')
  then show ?case using memory_outbox_steps(3) [of s c i w s'] by simp
qed

end
