(* ===== verification/Platform.thy ===== *)
theory Platform
  imports Payout_Dispute Memory_Contract
begin

text \<open>
  The whole platform as a transition system. A request of the API runs as a read of the store
  followed by one further store call, and between the two the calls of other requests may run:
  the system state holds the world and the requests that have read and not yet written, each
  with its snapshot. One step is one atomic store call together with the code around it. Over any
  store that keeps the contract, every step is at most one move of the book; so every property
  of the book holds for the platform under any interleaving.
\<close>

section \<open>Requests in flight and steps\<close>

datatype 'd Task =
  TAuthorize string "'d Payment"
| TCapture string 'd "'d Payment"
| TRefund string 'd "'d Payment"
| TComplete string string bool "'d Payout"
| TOpen string string 'd "'d Payment"
| TResolve string bool "'d Dispute"

type_synonym ('s, 'd) Sys = "('s, 'd) World \<times> 'd Task multiset"

text \<open>
  The parameter \<open>repr\<close> restricts the amounts of requests to those the store keeps exactly. The
  provider and the risk engine may answer differently in every step: \<open>svc\<close> is only fixed to the
  store. Changes of the metrics and UUIDs drawn outside the services are steps of their own.
\<close>

inductive platform_step ::
  "'d Env \<Rightarrow> ('c, 's, 'd) Store \<Rightarrow> ('d \<Rightarrow> bool) \<Rightarrow> ('s, 'd) Sys \<Rightarrow> ('s, 'd) Sys \<Rightarrow> bool"
  for env S repr where
  step_create: "svc_Store svc = S \<Longrightarrow> repr (cp_Amount inp) \<Longrightarrow>
    PaymentService_Create env svc ctx inp key w = (r, w') \<Longrightarrow>
    platform_step env S repr (w, ts) (w', ts)"
| read_authorize: "S_GetPayment S c i (w_store w) = Inr p \<Longrightarrow>
    platform_step env S repr (w, ts) (w, add_mset (TAuthorize i p) ts)"
| step_authorize: "svc_Store svc = S \<Longrightarrow> Authorize_read env svc ctx i p w = (r, w') \<Longrightarrow>
    platform_step env S repr (w, add_mset (TAuthorize i p) ts) (w', ts)"
| read_capture: "S_GetPayment S c i (w_store w) = Inr p \<Longrightarrow> repr a \<Longrightarrow>
    platform_step env S repr (w, ts) (w, add_mset (TCapture i a p) ts)"
| step_capture: "svc_Store svc = S \<Longrightarrow> Capture_read env svc ctx i a p w = (r, w') \<Longrightarrow>
    platform_step env S repr (w, add_mset (TCapture i a p) ts) (w', ts)"
| read_refund: "S_GetPayment S c i (w_store w) = Inr p \<Longrightarrow> repr a \<Longrightarrow>
    platform_step env S repr (w, ts) (w, add_mset (TRefund i a p) ts)"
| step_refund: "svc_Store svc = S \<Longrightarrow> Refund_read env svc ctx i a p w = (r, w') \<Longrightarrow>
    platform_step env S repr (w, add_mset (TRefund i a p) ts) (w', ts)"
| step_payout: "repr a \<Longrightarrow> PayoutService_Create env S ctx m c a w = (r', w') \<Longrightarrow>
    platform_step env S repr (w, ts) (w', ts)"
| read_complete: "S_GetPayout S c i (w_store w) = Inr po \<Longrightarrow>
    platform_step env S repr (w, ts) (w, add_mset (TComplete i reference success po) ts)"
| step_complete: "Complete_read env S ctx i reference success po w = (r', w') \<Longrightarrow>
    platform_step env S repr (w, add_mset (TComplete i reference success po) ts) (w', ts)"
| read_open: "S_GetPayment S c i (w_store w) = Inr p \<Longrightarrow> repr a \<Longrightarrow>
    platform_step env S repr (w, ts) (w, add_mset (TOpen i reason a p) ts)"
| step_open: "Open_read env S ctx i reason a p w = (r'', w') \<Longrightarrow>
    platform_step env S repr (w, add_mset (TOpen i reason a p) ts) (w', ts)"
| read_resolve: "S_GetDispute S c i (w_store w) = Inr d \<Longrightarrow>
    platform_step env S repr (w, ts) (w, add_mset (TResolve i win d) ts)"
| step_resolve: "Resolve_read env S ctx i win d w = (r'', w') \<Longrightarrow>
    platform_step env S repr (w, add_mset (TResolve i win d) ts) (w', ts)"
| step_claim: "S_ClaimOutbox S c n (w_store w) = (rc, s') \<Longrightarrow>
    platform_step env S repr (w, ts) (w\<lparr>w_store := s'\<rparr>, ts)"
| step_published: "S_MarkPublished S c i (w_store w) = (u, s') \<Longrightarrow>
    platform_step env S repr (w, ts) (w\<lparr>w_store := s'\<rparr>, ts)"
| step_webhook: "S_RegisterWebhook S c i (w_store w) = (v, s') \<Longrightarrow>
    platform_step env S repr (w, ts) (w\<lparr>w_store := s'\<rparr>, ts)"
| step_metrics: "platform_step env S repr (w, ts) (w\<lparr>w_metrics := m\<rparr>, ts)"
| step_uuid: "platform_step env S repr (w, ts) (w\<lparr>w_next := Suc (w_next w)\<rparr>, ts)"

inductive platform_reachable ::
  "'d Env \<Rightarrow> ('c, 's, 'd) Store \<Rightarrow> ('d \<Rightarrow> bool) \<Rightarrow> 's \<Rightarrow> ('s, 'd) Sys \<Rightarrow> bool"
  for env S repr s0 where
  platform_start: "platform_reachable env S repr s0
    (\<lparr>w_store = s0, w_next = 0, w_calls = [], w_metrics = NewCounterMetrics\<rparr>, {#})"
| platform_next: "platform_reachable env S repr s0 x \<Longrightarrow> platform_step env S repr x y \<Longrightarrow>
    platform_reachable env S repr s0 y"

text \<open>A service operation called with nothing in between is a run of the platform.\<close>

lemma run_two:
  "platform_reachable env S repr s0 x \<Longrightarrow> platform_step env S repr x y \<Longrightarrow> platform_step env S repr y z \<Longrightarrow>
     platform_reachable env S repr s0 z"
  by (blast intro: platform_next)

lemma run_create:
  assumes "platform_reachable env S repr s0 (w, ts)" "svc_Store svc = S" "repr (cp_Amount inp)"
  shows "platform_reachable env S repr s0 (snd (PaymentService_Create env svc ctx inp key w), ts)"
  by (rule platform_next [OF assms(1)], rule step_create [where svc = svc and repr = repr])
    (use assms in \<open>auto intro: surjective_pairing\<close>)

lemma run_authorize:
  assumes "platform_reachable env S repr s0 (w, ts)" "svc_Store svc = S"
  shows "platform_reachable env S repr s0 (snd (PaymentService_Authorize env svc ctx i w), ts)"
proof (cases "S_GetPayment S (ctx 0) i (w_store w)")
  case (Inl e)
  with assms show ?thesis by (simp add: PaymentService_Authorize_def)
next
  case (Inr p)
  have "platform_step env S repr (w, ts) (w, add_mset (TAuthorize i p) ts)"
    by (rule read_authorize) (use Inr assms in simp_all)
  moreover have "platform_step env S repr (w, add_mset (TAuthorize i p) ts) (snd (Authorize_read env svc ctx i p w), ts)"
    by (rule step_authorize [OF assms(2)]) (rule surjective_pairing)
  ultimately have "platform_reachable env S repr s0 (snd (Authorize_read env svc ctx i p w), ts)"
    by (rule run_two [OF assms(1)])
  with Inr assms show ?thesis by (simp add: PaymentService_Authorize_def)
qed

lemma run_capture:
  assumes "platform_reachable env S repr s0 (w, ts)" "svc_Store svc = S" "repr a"
  shows "platform_reachable env S repr s0 (snd (PaymentService_Capture env svc ctx i a w), ts)"
proof (cases "S_GetPayment S (ctx 0) i (w_store w)")
  case (Inl e)
  with assms show ?thesis by (simp add: PaymentService_Capture_def)
next
  case (Inr p)
  have "platform_step env S repr (w, ts) (w, add_mset (TCapture i a p) ts)"
    by (rule read_capture) (use Inr assms in simp_all)
  moreover have "platform_step env S repr (w, add_mset (TCapture i a p) ts) (snd (Capture_read env svc ctx i a p w), ts)"
    by (rule step_capture [OF assms(2)]) (rule surjective_pairing)
  ultimately have "platform_reachable env S repr s0 (snd (Capture_read env svc ctx i a p w), ts)"
    by (rule run_two [OF assms(1)])
  with Inr assms show ?thesis by (simp add: PaymentService_Capture_def)
qed

lemma run_refund:
  assumes "platform_reachable env S repr s0 (w, ts)" "svc_Store svc = S" "repr a"
  shows "platform_reachable env S repr s0 (snd (PaymentService_Refund env svc ctx i a w), ts)"
proof (cases "S_GetPayment S (ctx 0) i (w_store w)")
  case (Inl e)
  with assms show ?thesis by (simp add: PaymentService_Refund_def)
next
  case (Inr p)
  have "platform_step env S repr (w, ts) (w, add_mset (TRefund i a p) ts)"
    by (rule read_refund) (use Inr assms in simp_all)
  moreover have "platform_step env S repr (w, add_mset (TRefund i a p) ts) (snd (Refund_read env svc ctx i a p w), ts)"
    by (rule step_refund [OF assms(2)]) (rule surjective_pairing)
  ultimately have "platform_reachable env S repr s0 (snd (Refund_read env svc ctx i a p w), ts)"
    by (rule run_two [OF assms(1)])
  with Inr assms show ?thesis by (simp add: PaymentService_Refund_def)
qed

lemma run_payout:
  assumes "platform_reachable env S repr s0 (w, ts)" "repr a"
  shows "platform_reachable env S repr s0 (snd (PayoutService_Create env S ctx m c a w), ts)"
  by (rule platform_next [OF assms(1)], rule step_payout [where repr = repr])
    (use assms in \<open>auto intro: surjective_pairing\<close>)

lemma run_complete:
  assumes "platform_reachable env S repr s0 (w, ts)"
  shows "platform_reachable env S repr s0 (snd (PayoutService_Complete env S ctx i reference ok w), ts)"
proof (cases "S_GetPayout S (ctx 0) i (w_store w)")
  case (Inl e)
  with assms show ?thesis by (simp add: PayoutService_Complete_def)
next
  case (Inr p)
  have "platform_step env S repr (w, ts) (w, add_mset (TComplete i reference ok p) ts)"
    by (rule read_complete) (use Inr assms in simp_all)
  moreover have "platform_step env S repr (w, add_mset (TComplete i reference ok p) ts) (snd (Complete_read env S ctx i reference ok p w), ts)"
    by (rule step_complete) (rule surjective_pairing)
  ultimately have "platform_reachable env S repr s0 (snd (Complete_read env S ctx i reference ok p w), ts)"
    by (rule run_two [OF assms(1)])
  with Inr assms show ?thesis by (simp add: PayoutService_Complete_def)
qed

lemma run_open:
  assumes "platform_reachable env S repr s0 (w, ts)" "repr a"
  shows "platform_reachable env S repr s0 (snd (DisputeService_Open env S ctx i reason a w), ts)"
proof (cases "S_GetPayment S (ctx 0) i (w_store w)")
  case (Inl e)
  with assms show ?thesis by (simp add: DisputeService_Open_def)
next
  case (Inr p)
  have "platform_step env S repr (w, ts) (w, add_mset (TOpen i reason a p) ts)"
    by (rule read_open) (use Inr assms in simp_all)
  moreover have "platform_step env S repr (w, add_mset (TOpen i reason a p) ts) (snd (Open_read env S ctx i reason a p w), ts)"
    by (rule step_open) (rule surjective_pairing)
  ultimately have "platform_reachable env S repr s0 (snd (Open_read env S ctx i reason a p w), ts)"
    by (rule run_two [OF assms(1)])
  with Inr assms show ?thesis by (simp add: DisputeService_Open_def)
qed

lemma run_resolve:
  assumes "platform_reachable env S repr s0 (w, ts)"
  shows "platform_reachable env S repr s0 (snd (DisputeService_Resolve env S ctx i win w), ts)"
proof (cases "S_GetDispute S (ctx 0) i (w_store w)")
  case (Inl e)
  with assms show ?thesis by (simp add: DisputeService_Resolve_def)
next
  case (Inr p)
  have "platform_step env S repr (w, ts) (w, add_mset (TResolve i win p) ts)"
    by (rule read_resolve) (use Inr assms in simp_all)
  moreover have "platform_step env S repr (w, add_mset (TResolve i win p) ts) (snd (Resolve_read env S ctx i win p w), ts)"
    by (rule step_resolve) (rule surjective_pairing)
  ultimately have "platform_reachable env S repr s0 (snd (Resolve_read env S ctx i win p w), ts)"
    by (rule run_two [OF assms(1)])
  with Inr assms show ?thesis by (simp add: DisputeService_Resolve_def)
qed

lemmas run_services = run_create run_authorize run_capture run_refund run_payout run_complete
  run_open run_resolve

section \<open>What a step may do\<close>

definition book_ids :: "Book \<Rightarrow> string set" where
  "book_ids b = dom (b_payments b) \<union> dom (b_payouts b) \<union> dom (b_disputes b)"

text \<open>The currency codes that upper-casing leaves alone, as every stored code is.\<close>

definition upper_currency :: "(string \<Rightarrow> string) \<Rightarrow> string \<Rightarrow> bool" where
  "upper_currency U c \<longleftrightarrow> ToUpper U c = c"

text \<open>At most one move of the book, and new identifiers are UUIDs drawn in the step.\<close>

definition move_ok ::
  "'d Env \<Rightarrow> ('s \<Rightarrow> Book) \<Rightarrow> ('s \<Rightarrow> bool) \<Rightarrow> ('s \<Rightarrow> string set)
    \<Rightarrow> ('s, 'd) World \<Rightarrow> ('s, 'd) World \<Rightarrow> bool" where
  "move_ok env absB invS evs w w' \<longleftrightarrow>
     invS (w_store w') \<and> w_next w \<le> w_next w' \<and>
     book_ids (absB (w_store w')) \<union> evs (w_store w') \<subseteq>
       book_ids (absB (w_store w)) \<union> evs (w_store w) \<union> env_uuid env ` {w_next w..<w_next w'} \<and>
     (absB (w_store w') = absB (w_store w) \<or> book_step (upper_currency (env_U env)) (absB (w_store w)) (absB (w_store w')))"

text \<open>A snapshot is an earlier version of the record it was read from.\<close>

definition snapshot_ok :: "('d \<Rightarrow> rat) \<Rightarrow> Book \<Rightarrow> string \<Rightarrow> 'd Payment \<Rightarrow> bool" where
  "snapshot_ok val b i p \<longleftrightarrow>
     p_ID p = i \<and> payment_ok (abs_payment val p) \<and>
     (\<exists>q. b_payments b i = Some q \<and> payment_le (abs_payment val p) q)"

definition payout_snapshot_ok :: "('d \<Rightarrow> rat) \<Rightarrow> Book \<Rightarrow> string \<Rightarrow> 'd Payout \<Rightarrow> bool" where
  "payout_snapshot_ok val b i po \<longleftrightarrow>
     (\<exists>q. b_payouts b i = Some q \<and> bo_merchant q = po_MerchantID po \<and>
        bo_currency q = po_Currency po \<and> bo_amount q = val (po_Amount po))"

definition dispute_snapshot_ok :: "('d \<Rightarrow> rat) \<Rightarrow> Book \<Rightarrow> string \<Rightarrow> 'd Dispute \<Rightarrow> bool" where
  "dispute_snapshot_ok val b i d \<longleftrightarrow>
     (\<exists>e. b_disputes b i = Some e \<and> bd_payment e = di_PaymentID d \<and>
        bd_merchant e = di_MerchantID d \<and> bd_currency e = di_Currency d \<and>
        bd_amount e = val (di_Amount d))"

fun task_ok :: "('d \<Rightarrow> rat) \<Rightarrow> ('d \<Rightarrow> bool) \<Rightarrow> Book \<Rightarrow> 'd Task \<Rightarrow> bool" where
  "task_ok val repr b (TAuthorize i p) \<longleftrightarrow> snapshot_ok val b i p \<and> repr (p_Amount p)"
| "task_ok val repr b (TCapture i a p) \<longleftrightarrow> snapshot_ok val b i p \<and> repr a"
| "task_ok val repr b (TRefund i a p) \<longleftrightarrow> snapshot_ok val b i p \<and> repr a"
| "task_ok val repr b (TComplete i reference success po) \<longleftrightarrow>
     payout_snapshot_ok val b i po \<and> repr (po_Amount po)"
| "task_ok val repr b (TOpen i reason a p) \<longleftrightarrow> snapshot_ok val b i p \<and> repr a"
| "task_ok val repr b (TResolve i win d) \<longleftrightarrow> dispute_snapshot_ok val b i d \<and> repr (di_Amount d)"

lemma snapshot_ok_step: "book_step cok b b' \<Longrightarrow> snapshot_ok val b i p \<Longrightarrow> snapshot_ok val b' i p"
  unfolding snapshot_ok_def by (meson book_step_payment payment_le_trans)

lemma payout_snapshot_ok_step:
  "book_step cok b b' \<Longrightarrow> payout_snapshot_ok val b i po \<Longrightarrow> payout_snapshot_ok val b' i po"
  unfolding payout_snapshot_ok_def by (metis book_step_payout)

lemma dispute_snapshot_ok_step:
  "book_step cok b b' \<Longrightarrow> dispute_snapshot_ok val b i d \<Longrightarrow> dispute_snapshot_ok val b' i d"
  unfolding dispute_snapshot_ok_def by (metis book_step_dispute)

lemma task_ok_step: "book_step cok b b' \<Longrightarrow> task_ok val repr b t \<Longrightarrow> task_ok val repr b' t"
  by (cases t)
    (auto intro: snapshot_ok_step payout_snapshot_ok_step dispute_snapshot_ok_step)

lemma book_ids_moves [simp]:
  "book_ids (record_entries ps b) = book_ids b"
  "book_ids (set_payment i p b) = insert i (book_ids b)"
  "book_ids (set_payout i q b) = insert i (book_ids b)"
  "book_ids (set_dispute i d b) = insert i (book_ids b)"
  by (auto simp: book_ids_def record_entries_def set_defs)

lemma on_store_iff:
  "on_store f w = (r, w') \<longleftrightarrow> (\<exists>s'. f (w_store w) = (r, s') \<and> w' = w\<lparr>w_store := s'\<rparr>)"
  by (auto simp: on_store_def split: prod.splits)

lemma snd_on_store: "snd (on_store f w) = w\<lparr>w_store := snd (f (w_store w))\<rparr>"
  by (simp add: on_store_def split: prod.splits)

text \<open>
  The invariant of the system: the store's own invariant, identifiers drawn before, a reachable
  book, and requests whose snapshots are earlier versions of the records.
\<close>

definition platform_ok ::
  "'d Env \<Rightarrow> ('d \<Rightarrow> rat) \<Rightarrow> ('d \<Rightarrow> bool) \<Rightarrow> ('s \<Rightarrow> Book) \<Rightarrow> ('s \<Rightarrow> bool) \<Rightarrow> ('s \<Rightarrow> string set)
    \<Rightarrow> ('s, 'd) Sys \<Rightarrow> bool" where
  "platform_ok env val repr absB invS evs x \<longleftrightarrow>
     (let s = w_store (fst x) in
      invS s \<and> book_ids (absB s) \<union> evs s \<subseteq> env_uuid env ` {..<w_next (fst x)} \<and>
      book_reachable (upper_currency (env_U env)) (absB s) \<and>
      (\<forall>t \<in># snd x. task_ok val repr (absB s) t))"

section \<open>The services over any store that keeps the contract\<close>

text \<open>
  The laws of the environment: the UUIDs one process draws are pairwise different, and
  upper-casing twice is upper-casing once. \<open>known\<close> says that every identifier in use was drawn
  before.
\<close>

locale ledger_env = decimal_laws D val for D :: "'d decimal_pkg" and val :: "'d \<Rightarrow> rat" +
  fixes env :: "'d Env"
  assumes env_D [simp]: "env_D env = D"
    and uuid_inj: "inj (env_uuid env)"
    and upper_idem: "ToUpper (env_U env) (ToUpper (env_U env) s) = ToUpper (env_U env) s"

locale platform = store_contract D val S absB inv evs repr + ledger_env D val env
  for D :: "'d decimal_pkg" and val :: "'d \<Rightarrow> rat" and S :: "('c, 's, 'd) Store"
    and absB :: "'s \<Rightarrow> Book" and inv :: "'s \<Rightarrow> bool" and evs :: "'s \<Rightarrow> string set"
    and repr :: "'d \<Rightarrow> bool" and env :: "'d Env"
begin

abbreviation known :: "('s, 'd) World \<Rightarrow> bool" where
  "known w \<equiv> book_ids (absB (w_store w)) \<union> evs (w_store w) \<subseteq> env_uuid env ` {..<w_next w}"

abbreviation moved :: "('s, 'd) World \<Rightarrow> ('s, 'd) World \<Rightarrow> bool" where
  "moved w w' \<equiv> move_ok env absB inv evs w w'"

lemma uuid_eq [simp]: "env_uuid env j = env_uuid env k \<longleftrightarrow> j = k"
  using uuid_inj by (rule inj_eq)

lemma uuid_fresh: "X \<subseteq> env_uuid env ` {..<n} \<Longrightarrow> n \<le> k \<Longrightarrow> env_uuid env k \<notin> X"
  by auto

lemma moved_unchanged:
  "inv s' \<Longrightarrow> absB s' = absB (w_store w) \<Longrightarrow> evs s' = evs (w_store w) \<Longrightarrow> w_store w' = s' \<Longrightarrow>
     w_next w \<le> w_next w' \<Longrightarrow> moved w w'"
  by (auto simp: move_ok_def)

lemma abs_entry_pair [simp]:
  "map (abs_entry val) (entry_pair env n pid d e c a) = posting_pair pid d e c (val a)"
  by (simp add: entry_pair_def abs_entry_def posting_pair_def)

lemma entry_pair_repr: "repr a \<Longrightarrow> entries_repr repr (entry_pair env n pid d e c a)"
  using repr_zero by (simp add: entries_repr_def entry_pair_def)

lemma commit_move:
  assumes call: "PaymentService_commit env svc c p status amount reference
        (entry_pair env n i d e cur a) et w = (r, w')"
    and inv: "inv (w_store w)" "known w" and svc: "svc_Store svc = S"
    and amounts: "repr a" "repr amount" and pid: "p_ID p = i"
    and step: "\<And>q. b_payments (absB (w_store w)) i = Some q \<Longrightarrow> commit_guard status (val amount) q \<Longrightarrow>
       book_step (upper_currency (env_U env)) (absB (w_store w)) (post i d e cur (val a)
         (set_payment i (commit_effect status (val amount) q) (absB (w_store w))))"
  shows "moved w w'"
proof -
  from call show ?thesis
  proof (cases rule: PaymentService_commit_cases)
    case marshal
    with inv show ?thesis by (simp add: move_ok_def)
  next
    case (store payload s')
    have new: "env_uuid env (w_next w) \<notin> evs (w_store w)"
      using inv(2) by (intro uuid_fresh) auto
    from commit [OF inv(1) store(2) [unfolded svc]] new amounts
    have post: "inv s'" "outcome r (absB s' = absB (w_store w) \<and> evs s' = evs (w_store w))
         (evs s' = insert (env_uuid env (w_next w)) (evs (w_store w)) \<and>
          (\<exists>q. b_payments (absB (w_store w)) i = Some q \<and> commit_guard status (val amount) q \<and>
            absB s' = post i d e cur (val a)
              (set_payment i (commit_effect status (val amount) q) (absB (w_store w)))))"
      by (auto simp: entry_pair_repr pid post_record_entries outcome_def)
    from post(2) show ?thesis
    proof (rule outcome_cases)
      assume "absB s' = absB (w_store w) \<and> evs s' = evs (w_store w)"
      with post(1) store show ?thesis by (auto intro: moved_unchanged)
    next
      assume "evs s' = insert (env_uuid env (w_next w)) (evs (w_store w)) \<and>
          (\<exists>q. b_payments (absB (w_store w)) i = Some q \<and> commit_guard status (val amount) q \<and>
            absB s' = post i d e cur (val a)
              (set_payment i (commit_effect status (val amount) q) (absB (w_store w))))"
      with post(1) obtain q where q: "b_payments (absB (w_store w)) i = Some q"
        "commit_guard status (val amount) q" "absB s' = post i d e cur (val a)
            (set_payment i (commit_effect status (val amount) q) (absB (w_store w)))"
        "evs s' = insert (env_uuid env (w_next w)) (evs (w_store w))" "inv s'"
        by auto
      from q(1) have "i \<in> book_ids (absB (w_store w))" by (auto simp: book_ids_def)
      with q store(3) step [OF q(1,2)] show ?thesis
        by (auto simp: move_ok_def post_record_entries)
    qed
  qed
qed

lemma moved_next: "moved (w\<lparr>w_next := w_next w + k\<rparr>) w' \<Longrightarrow> moved w w'"
  by (auto simp: move_ok_def)

lemma known_next [intro]: "known w \<Longrightarrow> known (w\<lparr>w_next := w_next w + k\<rparr>)"
  by (auto intro!: image_mono)

lemma fail_move:
  assumes "inv (w_store w)" "svc_Store svc = S"
  shows "moved w (snd (on_store (S_Transition (svc_Store svc) c i PaymentFailed reference) w))"
proof -
  obtain r s' where call: "S_Transition S c i PaymentFailed reference (w_store w) = (r, s')"
    by fastforce
  have law: "inv s' \<and> evs s' = evs (w_store w) \<and>
      outcome r (absB s' = absB (w_store w))
        (\<exists>p. b_payments (absB (w_store w)) i = Some p \<and>
           transition_table (bp_status p) PaymentFailed \<and>
           absB s' = set_payment i (p\<lparr>bp_status := PaymentFailed\<rparr>) (absB (w_store w)))"
    by (rule fail_payment [OF assms(1) call])
  show ?thesis
  proof (cases "absB s' = absB (w_store w)")
    case True
    with law call assms(2) show ?thesis by (auto simp: snd_on_store intro: moved_unchanged)
  next
    case False
    with law obtain p where p: "b_payments (absB (w_store w)) i = Some p"
      "transition_table (bp_status p) PaymentFailed"
      "absB s' = set_payment i (p\<lparr>bp_status := PaymentFailed\<rparr>) (absB (w_store w))" by (auto simp: outcome_def)
    then have "i \<in> book_ids (absB (w_store w))" by (auto simp: book_ids_def)
    with p law call assms(2) book_fail [OF p(1,2)] show ?thesis
      by (auto simp: snd_on_store move_ok_def)
  qed
qed

lemma authorize_move:
  assumes call: "Authorize_read env svc ctx i p w = (r, w')"
    and w: "inv (w_store w)" "known w" and svc: "svc_Store svc = S"
    and task: "task_ok val repr (absB (w_store w)) (TAuthorize i p)"
  shows "moved w w'"
  using call
proof (cases rule: Authorize_read_cases)
  case blocked
  with w svc show ?thesis by (auto intro: fail_move)
next
  case refused
  have "moved (log_call (CallAuthorize p) w) w'"
    unfolding refused(5) by (rule fail_move) (use w svc in simp_all)
  then show ?thesis by (simp add: move_ok_def)
next
  case (commit reference)
  let ?w = "log_call (CallAuthorize p) w\<lparr>w_next := w_next w + 2\<rparr>"
  have "moved ?w w'"
    using commit(3)
  proof (rule commit_move)
    fix q assume q: "b_payments (absB (w_store ?w)) i = Some q"
      "commit_guard PaymentAuthorized (val (decZero (env_D env))) q"
    with task have "payment_le (abs_payment val p) q" by (auto simp: snapshot_ok_def)
    with q book_authorize [of "absB (w_store w)" i q]
    show "book_step (upper_currency (env_U env)) (absB (w_store ?w))
      (post i ''customer:pending'' (acct_pending (p_MerchantID p)) (p_Currency p) (val (p_Amount p))
        (set_payment i (commit_effect PaymentAuthorized (val (decZero (env_D env))) q)
          (absB (w_store ?w))))"
      by (simp add: commit_guard_def commit_effect_def payment_le_def)
  qed (use w svc task repr_zero in \<open>auto simp: snapshot_ok_def\<close>)
  then show ?thesis using moved_next [of w 2 w'] by (simp add: move_ok_def)
qed (use w in \<open>auto simp: move_ok_def\<close>)

lemma capture_move:
  assumes call: "Capture_read env svc ctx i a p w = (r, w')"
    and w: "inv (w_store w)" "known w" and svc: "svc_Store svc = S"
    and task: "task_ok val repr (absB (w_store w)) (TCapture i a p)"
  shows "moved w w'"
  using call
proof (cases rule: Capture_read_cases)
  case commit
  let ?w = "log_call (CallCapture p a) w\<lparr>w_next := w_next w + 2\<rparr>"
  have "moved ?w w'"
    using commit(3)
  proof (rule commit_move)
    fix q assume q: "b_payments (absB (w_store ?w)) i = Some q"
      "commit_guard PaymentCaptured (val a) q"
    with task have "payment_le (abs_payment val p) q" by (auto simp: snapshot_ok_def)
    with q book_capture [of "absB (w_store w)" i q "val a"]
    show "book_step (upper_currency (env_U env)) (absB (w_store ?w))
      (post i (acct_pending (p_MerchantID p)) (acct_available (p_MerchantID p)) (p_Currency p) (val a)
        (set_payment i (commit_effect PaymentCaptured (val a) q) (absB (w_store ?w))))"
      by (simp add: commit_guard_def commit_effect_def payment_le_def)
  qed (use w svc task in \<open>auto simp: snapshot_ok_def\<close>)
  then show ?thesis using moved_next [of w 2 w'] by (simp add: move_ok_def)
qed (use w in \<open>auto simp: move_ok_def\<close>)

lemma refund_move:
  assumes call: "Refund_read env svc ctx i a p w = (r, w')"
    and w: "inv (w_store w)" "known w" and svc: "svc_Store svc = S"
    and task: "task_ok val repr (absB (w_store w)) (TRefund i a p)"
  shows "moved w w'"
  using call
proof (cases rule: Refund_read_cases)
  case commit
  let ?w = "log_call (CallRefund p a) w\<lparr>w_next := w_next w + 2\<rparr>"
  have "moved ?w w'"
    using commit(3)
  proof (rule commit_move)
    fix q assume q: "b_payments (absB (w_store ?w)) i = Some q"
      "commit_guard PaymentRefunded (val a) q"
    with task have "payment_le (abs_payment val p) q" by (auto simp: snapshot_ok_def)
    with q book_refund [of "absB (w_store w)" i q "val a"]
    show "book_step (upper_currency (env_U env)) (absB (w_store ?w))
      (post i (acct_available (p_MerchantID p)) ''customer:refunded'' (p_Currency p) (val a)
        (set_payment i (commit_effect PaymentRefunded (val a) q) (absB (w_store ?w))))"
      by (simp add: commit_guard_def commit_effect_def payment_le_def)
  qed (use w svc task in \<open>auto simp: snapshot_ok_def\<close>)
  then show ?thesis using moved_next [of w 2 w'] by (simp add: move_ok_def)
qed (use w in \<open>auto simp: move_ok_def\<close>)

lemma uuid_range [simp]:
  "env_uuid env k \<in> env_uuid env ` {m..<n} \<longleftrightarrow> m \<le> k \<and> k < n"
  by auto

lemma not_known:
  assumes "known w" "w_next w \<le> k"
  shows "env_uuid env k \<notin> evs (w_store w)" "b_payments (absB (w_store w)) (env_uuid env k) = None"
    "b_payouts (absB (w_store w)) (env_uuid env k) = None"
    "b_disputes (absB (w_store w)) (env_uuid env k) = None"
  using uuid_fresh [OF assms] by (auto simp: book_ids_def domIff)

lemma create_move:
  assumes call: "PaymentService_Create env svc ctx inp key w = (r, w')"
    and w: "inv (w_store w)" "known w" and svc: "svc_Store svc = S" and amount: "repr (cp_Amount inp)"
  shows "moved w w'"
  using call
proof (cases rule: PaymentService_Create_cases)
  case (store p s')
  then have new: "p_ID p = env_uuid env (w_next w)" "new_payment val p" "p_Amount p = cp_Amount inp"
    by (auto simp: NewPayment_def new_payment_def split: if_splits)
  from create_payment [OF w(1) store(3) [unfolded svc]] not_known(2) [OF w(2), of "w_next w"] new amount
  have law: "inv s' \<and> evs s' = evs (w_store w) \<and>
    (absB s' = absB (w_store w) \<or> absB s' = set_payment (p_ID p) (abs_payment val p) (absB (w_store w)))"
    by (auto simp: outcome_def split: sum.splits bool.splits prod.splits)
  have absp: "abs_payment val p = \<lparr>bp_merchant = p_MerchantID p, bp_currency = p_Currency p,
      bp_amount = val (p_Amount p), bp_captured = 0, bp_refunded = 0, bp_status = PaymentCreated\<rparr>"
    using new(2) by (simp add: abs_payment_def new_payment_def)
  have cur: "upper_currency (env_U env) (p_Currency p)"
  proof -
    have "p_Currency p = ToUpper (env_U env) (cp_Currency inp)"
      using store(2) by (auto simp: NewPayment_def split: if_splits)
    then show ?thesis by (simp add: upper_currency_def upper_idem)
  qed
  have "book_step (upper_currency (env_U env)) (absB (w_store w))
      (set_payment (p_ID p) (abs_payment val p) (absB (w_store w)))"
    unfolding absp
    by (rule book_create) (use new cur not_known(2) [OF w(2)] in \<open>auto simp: new_payment_def\<close>)
  with law store(4,5) show ?thesis using new by (auto simp: move_ok_def)
qed (use w in \<open>auto simp: move_ok_def\<close>)

text \<open>The shape shared by the four writers of payouts and disputes.\<close>

lemma moved_write:
  assumes law: "inv s' \<and> outcome rr (absB s' = absB (w_store w) \<and> evs s' = evs (w_store w))
      (evs s' = insert x (evs (w_store w)) \<and> Q)"
    and w': "w' = w\<lparr>w_next := n, w_store := s'\<rparr>" and x: "x = env_uuid env k"
    and range: "w_next w \<le> k" "k < n"
    and inv: "inv (w_store w)"
    and step: "Q \<Longrightarrow> book_step (upper_currency (env_U env)) (absB (w_store w)) (absB s') \<and>
      book_ids (absB s') \<subseteq> book_ids (absB (w_store w)) \<union> env_uuid env ` {w_next w..<n}"
  shows "moved w w'"
proof (cases "absB s' = absB (w_store w) \<and> evs s' = evs (w_store w)")
  case True
  with law w' range show ?thesis by (auto simp: move_ok_def)
next
  case False
  with law x step have "book_step (upper_currency (env_U env)) (absB (w_store w)) (absB s')" "inv s'"
    "book_ids (absB s') \<subseteq> book_ids (absB (w_store w)) \<union> env_uuid env ` {w_next w..<n}"
    "evs s' = insert (env_uuid env k) (evs (w_store w))" by (auto simp: outcome_def)
  with w' range show ?thesis by (auto simp: move_ok_def)
qed

lemma payout_move:
  assumes call: "PayoutService_Create env S ctx m c a w = (r, w')"
    and w: "inv (w_store w)" "known w" and amount: "repr a"
  shows "moved w w'"
proof (cases "NewPayout D (env_U env) (env_uuid env (w_next w)) m c a")
  case (Inl e)
  with call w show ?thesis by (simp add: PayoutService_Create_def move_ok_def)
next
  case (Inr p)
  then have p: "p = \<lparr>po_ID = env_uuid env (w_next w), po_MerchantID = m,
      po_Currency = ToUpper (env_U env) c, po_Amount = a, po_ProviderReference = [],
      po_Status = PayoutPending\<rparr>" "0 < val a"
    by (auto simp: NewPayout_def split: if_splits)
  let ?n = "w_next w" and ?b = "absB (w_store w)"
  let ?es = "entry_pair env (?n + 1) [] (acct_available m) (acct_payout_pending m) (po_Currency p) a"
  let ?ev = "\<lparr>ev_ID = env_uuid env (?n + 3), ev_AggregateID = po_ID p,
    ev_EventType = ''payout.created'', ev_Payload = payload_of (marshalPayout D p), ev_Published = False\<rparr>"
  obtain s' where s': "S_CreatePayout S (ctx 0) p ?es ?ev (w_store w) = (r, s')"
    "w' = w\<lparr>w_next := ?n + 4, w_store := s'\<rparr>"
    using call Inr by (auto simp: PayoutService_Create_def Let_def on_store_iff)
  have "moved w w'"
  proof (rule moved_write [OF create_payout [OF w(1) s'(1)] s'(2), of "?n + 3"])
    show "ev_ID ?ev \<notin> evs (w_store w)" "b_payouts ?b (po_ID p) = None"
      using not_known [OF w(2)] p(1) by simp_all
    assume "val (po_Amount p) \<le> bal ?b (acct_available (po_MerchantID p)) (po_Currency p) \<and>
      absB s' = record_entries (map (abs_entry val) ?es) (set_payout (po_ID p) (abs_payout val p) ?b)"
    then show "book_step (upper_currency (env_U env)) ?b (absB s') \<and>
      book_ids (absB s') \<subseteq> book_ids ?b \<union> env_uuid env ` {w_next w..<?n + 4}"
      using book_payout [of ?b "po_ID p" "val a" m "po_Currency p"] not_known(3) [OF w(2)] p
      by (auto simp: post_record_entries abs_payout_def)
  qed (use amount p w in \<open>simp_all add: entry_pair_repr\<close>)
  then show ?thesis .
qed

lemma complete_move:
  assumes call: "Complete_read env S ctx i reference success po w = (r, w')"
    and w: "inv (w_store w)" "known w"
    and task: "task_ok val repr (absB (w_store w)) (TComplete i reference success po)"
  shows "moved w w'"
proof -
  let ?n = "w_next w" and ?b = "absB (w_store w)"
  let ?st = "if success then PayoutPaid else PayoutFailed"
  let ?to = "if success then ''provider:payout_settled'' else acct_available (po_MerchantID po)"
  let ?es = "entry_pair env ?n [] (acct_payout_pending (po_MerchantID po)) ?to (po_Currency po)
    (po_Amount po)"
  let ?ev = "\<lparr>ev_ID = env_uuid env (?n + 2), ev_AggregateID = i,
    ev_EventType = (if success then ''payout.paid'' else ''payout.failed''),
    ev_Payload = payload_of (marshalPayout D (po\<lparr>po_Status := ?st, po_ProviderReference := reference\<rparr>)),
    ev_Published = False\<rparr>"
  obtain s' where s': "S_TransitionPayout S (ctx 1) i ?st reference ?es ?ev (w_store w) = (r, s')"
    "w' = w\<lparr>w_next := ?n + 3, w_store := s'\<rparr>"
    using call by (cases success) (auto simp: Complete_read_def Let_def on_store_iff)
  obtain q where q: "b_payouts ?b i = Some q" "bo_merchant q = po_MerchantID po"
    "bo_currency q = po_Currency po" "bo_amount q = val (po_Amount po)"
    using task by (auto simp: payout_snapshot_ok_def)
  show ?thesis
  proof (rule moved_write [OF transition_payout [OF w(1) s'(1)] s'(2), of "?n + 2"])
    assume "?st \<noteq> PayoutPending \<and> (\<exists>q. b_payouts ?b i = Some q \<and> bo_status q = PayoutPending \<and>
      absB s' = record_entries (map (abs_entry val) ?es) (set_payout i (q\<lparr>bo_status := ?st\<rparr>) ?b))"
    then have q': "bo_status q = PayoutPending"
      "absB s' = post [] (acct_payout_pending (bo_merchant q)) ?to (bo_currency q) (bo_amount q)
        (set_payout i (q\<lparr>bo_status := ?st\<rparr>) ?b)"
      using q by (auto simp: post_record_entries)
    from q(1) have "i \<in> book_ids ?b" by (auto simp: book_ids_def)
    with q' show "book_step (upper_currency (env_U env)) ?b (absB s') \<and>
      book_ids (absB s') \<subseteq> book_ids ?b \<union> env_uuid env ` {w_next w..<?n + 3}"
      using book_paid [OF q(1) q'(1)] book_payout_failed [OF q(1) q'(1)] q(2)
      by (auto simp: post_record_entries)
  qed (use task w not_known(1) [OF w(2)] in \<open>simp_all add: entry_pair_repr\<close>)
qed

lemma open_move:
  assumes call: "Open_read env S ctx i reason a p w = (r, w')"
    and w: "inv (w_store w)" "known w"
    and task: "task_ok val repr (absB (w_store w)) (TOpen i reason a p)"
    and book: "book_reachable (upper_currency (env_U env)) (absB (w_store w))"
  shows "moved w w'"
proof (cases "w' = w")
  case True
  with w show ?thesis by (simp add: move_ok_def)
next
  case False
  let ?n = "w_next w" and ?b = "absB (w_store w)"
  obtain q where q: "b_payments ?b i = Some q" "payment_le (abs_payment val p) q"
    "0 \<le> val (p_RefundedAmount p)"
    using task by (auto simp: snapshot_ok_def payment_ok_def)
  with book_reachable_currency [OF book q(1)]
  have currency: "ToUpper (env_U env) (p_Currency p) = p_Currency p"
    by (simp add: upper_currency_def payment_le_def)
  let ?d = "\<lparr>di_ID = env_uuid env ?n, di_PaymentID = i, di_MerchantID = p_MerchantID p,
    di_Currency = p_Currency p, di_Reason = reason, di_Amount = a, di_Status = DisputeOpen\<rparr>"
  let ?es = "entry_pair env (?n + 1) i (acct_available (p_MerchantID p))
    (acct_dispute_frozen (p_MerchantID p)) (p_Currency p) a"
  let ?ev = "\<lparr>ev_ID = env_uuid env (?n + 3), ev_AggregateID = env_uuid env ?n,
    ev_EventType = ''dispute.opened'', ev_Payload = payload_of (marshalDispute D ?d), ev_Published = False\<rparr>"
  from call False have a: "0 < val a" "val a \<le> val (p_CapturedAmount p) - val (p_RefundedAmount p)"
    by (auto simp: Open_read_def Let_def split: if_splits)
  with call False currency
  have "on_store (S_CreateDispute S (ctx 1) ?d ?es ?ev) (w\<lparr>w_next := ?n + 4\<rparr>) = (r, w')"
    by (auto simp: Open_read_def Let_def NewDispute_def split: if_splits)
  then obtain s' where s': "S_CreateDispute S (ctx 1) ?d ?es ?ev (w_store w) = (r, s')"
    "w' = w\<lparr>w_next := ?n + 4, w_store := s'\<rparr>" by (auto simp: on_store_iff)
  show ?thesis
  proof (rule moved_write [OF create_dispute [OF w(1) s'(1)] s'(2), of "?n + 3"])
    assume s'': "b_disputes ?b (di_ID ?d) = None \<and>
      absB s' = record_entries (map (abs_entry val) ?es) (set_dispute (di_ID ?d) (abs_dispute val ?d) ?b)"
    have "val a \<le> bp_captured q"
      using a q(2,3) by (simp add: payment_le_def)
    with s'' show "book_step (upper_currency (env_U env)) ?b (absB s') \<and>
      book_ids (absB s') \<subseteq> book_ids ?b \<union> env_uuid env ` {w_next w..<?n + 4}"
      using book_open [of ?b "env_uuid env ?n" i q "val a"] q a
      by (auto simp: post_record_entries abs_dispute_def payment_le_def)
  qed (use task w not_known [OF w(2)] in \<open>simp_all add: entry_pair_repr\<close>)
qed

lemma resolve_move:
  assumes call: "Resolve_read env S ctx i win d w = (r, w')"
    and w: "inv (w_store w)" "known w"
    and task: "task_ok val repr (absB (w_store w)) (TResolve i win d)"
  shows "moved w w'"
proof -
  let ?n = "if win then w_next w + 2 else w_next w" and ?b = "absB (w_store w)"
  let ?st = "if win then DisputeWon else DisputeLost"
  let ?to = "if win then acct_available (di_MerchantID d) else ''customer:chargeback''"
  let ?es = "entry_pair env ?n (di_PaymentID d) (acct_dispute_frozen (di_MerchantID d)) ?to
    (di_Currency d) (di_Amount d)"
  let ?ev = "\<lparr>ev_ID = env_uuid env (?n + 2), ev_AggregateID = i,
    ev_EventType = (if win then ''dispute.won'' else ''dispute.lost''),
    ev_Payload = payload_of (marshalDispute D (d\<lparr>di_Status := ?st\<rparr>)), ev_Published = False\<rparr>"
  obtain s' where s': "S_ResolveDispute S (ctx 1) i ?st ?es ?ev (w_store w) = (r, s')"
    "w' = w\<lparr>w_next := ?n + 3, w_store := s'\<rparr>"
    using call by (cases win) (auto simp: Resolve_read_def Let_def on_store_iff eval_nat_numeral)
  obtain e where e: "b_disputes ?b i = Some e" "bd_payment e = di_PaymentID d"
    "bd_merchant e = di_MerchantID d" "bd_currency e = di_Currency d" "bd_amount e = val (di_Amount d)"
    using task by (auto simp: dispute_snapshot_ok_def)
  show ?thesis
  proof (rule moved_write [OF resolve_dispute [OF w(1) s'(1)] s'(2), of "?n + 2"])
    assume "?st \<noteq> DisputeOpen \<and> (\<exists>e. b_disputes ?b i = Some e \<and> bd_status e = DisputeOpen \<and>
      absB s' = record_entries (map (abs_entry val) ?es) (set_dispute i (e\<lparr>bd_status := ?st\<rparr>) ?b))"
    then have e': "bd_status e = DisputeOpen"
      "absB s' = post (bd_payment e) (acct_dispute_frozen (bd_merchant e)) ?to (bd_currency e)
        (bd_amount e) (set_dispute i (e\<lparr>bd_status := ?st\<rparr>) ?b)"
      using e by (auto simp: post_record_entries)
    from e(1) have "i \<in> book_ids ?b" by (auto simp: book_ids_def)
    with e' show "book_step (upper_currency (env_U env)) ?b (absB s') \<and>
      book_ids (absB s') \<subseteq> book_ids ?b \<union> env_uuid env ` {w_next w..<?n + 3}"
      using book_won [OF e(1) e'(1)] book_lost [OF e(1) e'(1)] e(3)
      by (auto simp: post_record_entries)
  qed (use task w not_known(1) [OF w(2)] in \<open>simp_all add: entry_pair_repr\<close>)
qed

section \<open>Every reachable state of the platform\<close>

abbreviation platform_inv :: "('s, 'd) Sys \<Rightarrow> bool" where
  "platform_inv x \<equiv> platform_ok env val repr absB inv evs x"

lemma platform_invD:
  assumes "platform_inv (w, ts)"
  shows "inv (w_store w)" "known w" "book_reachable (upper_currency (env_U env)) (absB (w_store w))"
    "t \<in># ts \<Longrightarrow> task_ok val repr (absB (w_store w)) t"
  using assms by (simp_all add: platform_ok_def Let_def)

lemma moved_inv:
  assumes inv: "platform_inv (w, ts)" and ts: "ts' \<subseteq># ts" and m: "moved w w'"
  shows "platform_inv (w', ts')"
proof -
  note w = platform_invD [OF inv]
  from m w(3) have "book_reachable (upper_currency (env_U env)) (absB (w_store w'))"
    by (auto simp: move_ok_def intro: book_next)
  moreover have "env_uuid env ` {..<w_next w} \<union> env_uuid env ` {w_next w..<w_next w'}
      \<subseteq> env_uuid env ` {..<w_next w'}"
    using m by (auto simp: move_ok_def)
  then have "known w'" using m w(2) unfolding move_ok_def by blast
  moreover have "\<forall>t \<in># ts'. task_ok val repr (absB (w_store w')) t"
    using m w(4) ts by (auto simp: move_ok_def dest: mset_subset_eqD intro: task_ok_step)
  ultimately show ?thesis using m by (simp add: move_ok_def platform_ok_def Let_def)
qed

lemma unmoved:
  "inv s' \<and> evs s' = evs (w_store w) \<and> absB s' = absB (w_store w) \<Longrightarrow> moved w (w\<lparr>w_store := s'\<rparr>)"
  by (auto intro: moved_unchanged)

lemma add_task:
  "platform_inv (w, ts) \<Longrightarrow> task_ok val repr (absB (w_store w)) t \<Longrightarrow> platform_inv (w, add_mset t ts)"
  by (simp add: platform_ok_def Let_def)

lemma read_payment_task:
  assumes "platform_inv (w, ts)" "S_GetPayment S c i (w_store w) = Inr p"
  shows "snapshot_ok val (absB (w_store w)) i p \<and> repr (p_Amount p)"
proof -
  have p: "p_ID p = i \<and> repr (p_Amount p) \<and> b_payments (absB (w_store w)) i = Some (abs_payment val p)"
    by (rule get_payment [OF platform_invD(1) [OF assms(1)] assms(2)])
  moreover have "book_inv (absB (w_store w))"
    by (rule book_reachable_inv [OF platform_invD(3) [OF assms(1)]])
  ultimately show ?thesis by (auto simp: snapshot_ok_def book_inv_def amounts_ok_def)
qed

lemma read_payout_task:
  assumes "platform_inv (w, ts)" "S_GetPayout S c i (w_store w) = Inr po"
  shows "payout_snapshot_ok val (absB (w_store w)) i po \<and> repr (po_Amount po)"
  using get_payout [OF platform_invD(1) [OF assms(1)] assms(2)] by (simp add: payout_snapshot_ok_def)

lemma read_dispute_task:
  assumes "platform_inv (w, ts)" "S_GetDispute S c i (w_store w) = Inr d"
  shows "dispute_snapshot_ok val (absB (w_store w)) i d \<and> repr (di_Amount d)"
  using get_dispute [OF platform_invD(1) [OF assms(1)] assms(2)] by (simp add: dispute_snapshot_ok_def)

text \<open>Every step is a move, or only adds a request that has just read.\<close>

lemma platform_step_moved:
  assumes "platform_step env S repr (w, ts) (w', ts')" "platform_inv (w, ts)"
  shows "moved w w' \<and> (ts' \<subseteq># ts \<or>
     (\<exists>t. ts' = add_mset t ts \<and> w' = w \<and> task_ok val repr (absB (w_store w)) t))"
  using assms(1)
proof (cases rule: platform_step.cases)
  case step_create
  then show ?thesis using create_move platform_invD(1,2) [OF assms(2)] by blast
next
  case step_authorize
  then show ?thesis using authorize_move platform_invD [OF assms(2)] by fastforce
next
  case step_capture
  then show ?thesis using capture_move platform_invD [OF assms(2)] by fastforce
next
  case step_refund
  then show ?thesis using refund_move platform_invD [OF assms(2)] by fastforce
next
  case step_payout
  then show ?thesis using payout_move platform_invD(1,2) [OF assms(2)] by blast
next
  case step_complete
  then show ?thesis using complete_move platform_invD [OF assms(2)] by fastforce
next
  case step_open
  then show ?thesis using open_move platform_invD [OF assms(2)] by fastforce
next
  case step_resolve
  then show ?thesis using resolve_move platform_invD [OF assms(2)] by fastforce
next
  case step_claim
  then show ?thesis using unmoved claim_outbox platform_invD(1) [OF assms(2)] by blast
next
  case step_published
  then show ?thesis using unmoved mark_published platform_invD(1) [OF assms(2)] by blast
next
  case step_webhook
  then show ?thesis using unmoved register_webhook platform_invD(1) [OF assms(2)] by blast
next
  case step_uuid
  then show ?thesis using moved_next [of w 1] moved_unchanged platform_invD(1) [OF assms(2)] by fastforce
qed (use platform_invD(1) [OF assms(2)] read_payment_task [OF assms(2)] read_payout_task [OF assms(2)]
    read_dispute_task [OF assms(2)] in \<open>auto simp: move_ok_def\<close>)

lemma platform_step_moves:
  assumes "platform_step env S repr (w, ts) (w', ts')" "platform_inv (w, ts)"
  shows "absB (w_store w') = absB (w_store w) \<or>
     book_step (upper_currency (env_U env)) (absB (w_store w)) (absB (w_store w'))"
  using platform_step_moved [OF assms] by (auto simp: move_ok_def)

lemma platform_step_inv:
  assumes "platform_step env S repr x y" "platform_inv x"
  shows "platform_inv y"
proof -
  obtain w ts w' ts' where xy: "x = (w, ts)" "y = (w', ts')" by (cases x; cases y)
  from platform_step_moved [OF assms [unfolded xy]] show ?thesis
    using assms(2) unfolding xy by (auto intro: moved_inv add_task)
qed

lemma platform_reachable_inv:
  assumes "platform_reachable env S repr s0 x" "inv s0" "absB s0 = empty_book" "evs s0 = {}"
  shows "platform_inv x"
  using assms(1)
proof (induction rule: platform_reachable.induct)
  case platform_start
  with assms(2-4) show ?case
    by (simp add: platform_ok_def book_start) (simp add: book_ids_def empty_book_def)
next
  case (platform_next x y)
  from platform_next.hyps(2) platform_next.IH show ?case by (rule platform_step_inv)
qed

lemma platform_book_inv:
  assumes "platform_reachable env S repr s0 (w, ts)" "inv s0" "absB s0 = empty_book" "evs s0 = {}"
  shows "inv (w_store w)" "book_inv (absB (w_store w))"
  using platform_invD(1,3) [OF platform_reachable_inv [OF assms]] book_reachable_inv by auto

end

section \<open>The platform over the memory store\<close>

sublocale ledger_env \<subseteq> mp: platform D val "memoryStore D" "absM val" memory_inv
  "\<lambda>s. dom (outbox s)" "\<lambda>_. True" env
  by unfold_locales

text \<open>An environment that satisfies the laws, and a service for concrete runs.\<close>

definition demo_env :: "coef_exp Env" where
  "demo_env = \<lparr>env_D = ce_pkg, env_U = (\<lambda>s. s),
     env_uuid = (\<lambda>n. ''00000000-'' @ replicate n CHR ''0'')\<rparr>"

interpretation demo: ledger_env ce_pkg ce_val demo_env
proof
  show "ToUpper (env_U demo_env) (ToUpper (env_U demo_env) s) = ToUpper (env_U demo_env) s" for s
    by (simp add: demo_env_def ToUpper_def upperASCII_idem)
qed (auto simp: demo_env_def inj_def)

end
