(* ===== verification/Demo_Run.thy ===== *)
theory Demo_Run
  imports Platform
begin

text \<open>
  One concrete run of the platform over the memory store, used to show that the hypotheses of
  the properties can hold: a payment of 49.90 is created, authorized and captured up to 30.00, a
  payout of 10.00 is reserved and a dispute of 5.00 is opened.
\<close>

definition demo_svc :: "(string list, coef_exp MemoryStore, coef_exp) PaymentService" where
  "demo_svc = \<lparr>svc_Store = memoryStore ce_pkg, svc_Provider = DeterministicProvider,
     svc_Risk = Some (ThresholdRisk_Check ce_pkg ''10000''), svc_Metrics = False\<rparr>"

definition demo_input :: "coef_exp CreatePayment" where
  "demo_input = \<lparr>cp_MerchantID = ''m'', cp_CustomerID = ''c'', cp_Currency = ''usd'',
     cp_Amount = Dec 4990 (-2)\<rparr>"

definition demo_w0 :: "(coef_exp MemoryStore, coef_exp) World" where
  "demo_w0 = \<lparr>w_store = NewMemory, w_next = 0, w_calls = [], w_metrics = NewCounterMetrics\<rparr>"

abbreviation demo_id :: string where "demo_id \<equiv> ''00000000-''"

definition demo_payment :: "coef_exp Payment" where
  "demo_payment = \<lparr>p_ID = demo_id, p_MerchantID = ''m'', p_CustomerID = ''c'', p_Currency = ''USD'',
     p_Amount = Dec 4990 (-2), p_CapturedAmount = Dec 0 0, p_RefundedAmount = Dec 0 0,
     p_Status = PaymentCreated, p_ProviderReference = []\<rparr>"

lemma demo_NewPayment: "NewPayment ce_pkg (\<lambda>s. s) demo_id demo_input = Inr demo_payment"
  by code_simp

definition demo_w1 :: "(coef_exp MemoryStore, coef_exp) World" where
  "demo_w1 = snd (PaymentService_Create demo_env demo_svc (\<lambda>_. []) demo_input ''order'' demo_w0)"

definition demo_w2 :: "(coef_exp MemoryStore, coef_exp) World" where
  "demo_w2 = snd (PaymentService_Authorize demo_env demo_svc (\<lambda>_. []) demo_id demo_w1)"

definition demo_w3 :: "(coef_exp MemoryStore, coef_exp) World" where
  "demo_w3 = snd (PaymentService_Capture demo_env demo_svc (\<lambda>_. []) demo_id (Dec 30 0) demo_w2)"

definition demo_w4 :: "(coef_exp MemoryStore, coef_exp) World" where
  "demo_w4 = snd (PayoutService_Create demo_env (memoryStore ce_pkg) (\<lambda>_. []) ''m'' ''USD'' (Dec 10 0) demo_w3)"

definition demo_w5 :: "(coef_exp MemoryStore, coef_exp) World" where
  "demo_w5 = snd (DisputeService_Open demo_env (memoryStore ce_pkg) (\<lambda>_. []) demo_id ''fraud'' (Dec 5 0) demo_w4)"

lemmas demo_defs = demo_w5_def demo_w4_def demo_w3_def demo_w2_def demo_w1_def demo_w0_def

lemma demo_reachable:
  "platform_reachable demo_env (memoryStore ce_pkg) (\<lambda>_. True) NewMemory (demo_w1, {#})"
  "platform_reachable demo_env (memoryStore ce_pkg) (\<lambda>_. True) NewMemory (demo_w2, {#})"
  "platform_reachable demo_env (memoryStore ce_pkg) (\<lambda>_. True) NewMemory (demo_w3, {#})"
  "platform_reachable demo_env (memoryStore ce_pkg) (\<lambda>_. True) NewMemory (demo_w4, {#})"
  "platform_reachable demo_env (memoryStore ce_pkg) (\<lambda>_. True) NewMemory (demo_w5, {#})"
  unfolding demo_defs
  by (intro run_services platform_start TrueI; simp add: demo_svc_def)+

lemma demo_svc_simps [simp]: "svc_Store demo_svc = memoryStore ce_pkg"
  "svc_Provider demo_svc = DeterministicProvider"
  by (simp_all add: demo_svc_def)

section \<open>The states of the run, written out\<close>

text \<open>The payment after the authorization and after the capture, the payout and the dispute.\<close>

definition demo_authorized :: "coef_exp Payment" where
  "demo_authorized = demo_payment\<lparr>p_Status := PaymentAuthorized,
     p_ProviderReference := ''demo_00000000''\<rparr>"

definition demo_captured :: "coef_exp Payment" where
  "demo_captured = demo_authorized\<lparr>p_Status := PaymentCaptured, p_CapturedAmount := Dec 30 0\<rparr>"

definition demo_payout :: "coef_exp Payout" where
  "demo_payout = \<lparr>po_ID = env_uuid demo_env 7, po_MerchantID = ''m'', po_Currency = ''USD'',
     po_Amount = Dec 10 0, po_ProviderReference = [], po_Status = PayoutPending\<rparr>"

definition demo_dispute :: "coef_exp Dispute" where
  "demo_dispute = \<lparr>di_ID = env_uuid demo_env 11, di_PaymentID = demo_id, di_MerchantID = ''m'',
     di_Currency = ''USD'', di_Reason = ''fraud'', di_Amount = Dec 5 0, di_Status = DisputeOpen\<rparr>"

lemma demo_fields [simp]:
  "p_ID demo_payment = demo_id" "p_MerchantID demo_payment = ''m''" "p_Currency demo_payment = ''USD''"
  "p_Amount demo_payment = Dec 4990 (-2)" "p_Status demo_payment = PaymentCreated"
  "p_CapturedAmount demo_payment = Dec 0 0" "p_RefundedAmount demo_payment = Dec 0 0"
  "p_ID demo_authorized = demo_id" "p_MerchantID demo_authorized = ''m''"
  "p_Currency demo_authorized = ''USD''" "p_Amount demo_authorized = Dec 4990 (-2)"
  "p_Status demo_authorized = PaymentAuthorized" "p_CapturedAmount demo_authorized = Dec 0 0"
  "p_RefundedAmount demo_authorized = Dec 0 0" "p_ProviderReference demo_authorized = ''demo_00000000''"
  "p_ID demo_captured = demo_id" "p_MerchantID demo_captured = ''m''"
  "p_Currency demo_captured = ''USD''" "p_Amount demo_captured = Dec 4990 (-2)"
  "p_Status demo_captured = PaymentCaptured" "p_CapturedAmount demo_captured = Dec 30 0"
  "p_RefundedAmount demo_captured = Dec 0 0" "p_ProviderReference demo_captured = ''demo_00000000''"
  "po_ID demo_payout = env_uuid demo_env 7" "po_MerchantID demo_payout = ''m''"
  "po_Currency demo_payout = ''USD''" "po_Amount demo_payout = Dec 10 0"
  "po_Status demo_payout = PayoutPending"
  "di_ID demo_dispute = env_uuid demo_env 11" "di_MerchantID demo_dispute = ''m''"
  "di_Currency demo_dispute = ''USD''" "di_Amount demo_dispute = Dec 5 0"
  "di_Status demo_dispute = DisputeOpen"
  by (simp_all add: demo_payment_def demo_authorized_def demo_captured_def demo_payout_def
      demo_dispute_def)

text \<open>The payloads, as \<open>json.Marshal\<close> writes them.\<close>

definition demo_json :: "string \<Rightarrow> string \<Rightarrow> string" where
  "demo_json captured status = ''{\"id\":\"00000000-\",\"merchant_id\":\"m\",\"customer_id\":\"c\",\"currency\":\"USD\",\"amount\":\"49.90\",\"captured_amount\":\"'' @ captured @ ''\",\"refunded_amount\":\"0\",\"status\":\"'' @ status @ ''\",\"provider_reference\":\"demo_00000000\"}''"

definition demo_payout_json :: string where
  "demo_payout_json = ''{\"ID\":\"00000000-0000000\",\"MerchantID\":\"m\",\"Currency\":\"USD\",\"Amount\":\"10\",\"status\":\"pending\"}''"

definition demo_dispute_json :: string where
  "demo_dispute_json = ''{\"ID\":\"00000000-00000000000\",\"PaymentID\":\"00000000-\",\"MerchantID\":\"m\",\"Currency\":\"USD\",\"Reason\":\"fraud\",\"Amount\":\"5\",\"status\":\"open\"}''"

lemma demo_marshal:
  "marshalPayment ce_pkg demo_authorized = Inr (demo_json ''0'' ''authorized'')"
  "marshalPayment ce_pkg demo_captured = Inr (demo_json ''30'' ''captured'')"
  "marshalPayout ce_pkg demo_payout = Inr demo_payout_json"
  "marshalDispute ce_pkg demo_dispute = Inr demo_dispute_json"
  by code_simp+

definition demo_event :: "nat \<Rightarrow> string \<Rightarrow> string \<Rightarrow> string \<Rightarrow> OutboxEvent" where
  "demo_event n aggregate et payload = \<lparr>ev_ID = env_uuid demo_env n, ev_AggregateID = aggregate,
     ev_EventType = et, ev_Payload = payload, ev_Published = False\<rparr>"

lemma demo_pair:
  "0 < ce_val a \<Longrightarrow> ValidateBalanced ce_pkg (entry_pair demo_env n pid d c cur a) = Inr ()"
  by (rule ce.pair_balanced) simp_all

lemma demo_env_simps [simp]: "env_D demo_env = ce_pkg" "env_U demo_env = (\<lambda>s. s)"
  by (simp_all add: demo_env_def)

lemma demo_upper [simp]: "ToUpper (\<lambda>s. s) ''USD'' = ''USD''"
  by code_simp

lemma demo_w1_eq [code]:
  "demo_w1 = \<lparr>w_store = \<lparr>payments = [demo_id \<mapsto> demo_payment], keys = [''order'' \<mapsto> demo_id],
     outbox = Map.empty, ledger = [], webhooks = {}, payouts = Map.empty, disputes = Map.empty\<rparr>,
     w_next = 1, w_calls = [], w_metrics = NewCounterMetrics\<rparr>"
proof -
  have "env_uuid demo_env 0 = demo_id" by (simp add: demo_env_def)
  then show ?thesis
    by (simp add: demo_w1_def demo_w0_def PaymentService_Create_def demo_svc_def on_store_def
        Memory_CreatePayment_def NewMemory_def demo_NewPayment)
qed

lemma demo_w2_eq [code]:
  "demo_w2 = \<lparr>w_store = \<lparr>payments = [demo_id \<mapsto> demo_authorized], keys = [''order'' \<mapsto> demo_id],
     outbox = [env_uuid demo_env 3 \<mapsto>
       demo_event 3 demo_id ''payment.authorized'' (demo_json ''0'' ''authorized'')],
     ledger = entry_pair demo_env 1 demo_id ''customer:pending'' (acct_pending ''m'') ''USD'' (Dec 4990 (-2)),
     webhooks = {}, payouts = Map.empty, disputes = Map.empty\<rparr>,
     w_next = 4, w_calls = [CallAuthorize demo_payment], w_metrics = NewCounterMetrics\<rparr>"
proof -
  have answers: "ThresholdRisk_Check ce_pkg ''10000'' demo_payment = Inr True"
    "prov_Authorize DeterministicProvider demo_payment = Inr ''demo_00000000''"
    by code_simp+
  have expected: "commit_expected ce_pkg demo_payment PaymentAuthorized (decZero ce_pkg)
      ''demo_00000000'' = demo_authorized"
    by (simp add: commit_expected_def demo_authorized_def)
  have written: "demo_payment\<lparr>p_Status := PaymentAuthorized, p_ProviderReference := ''demo_00000000''\<rparr> =
      demo_authorized"
    by (simp add: demo_authorized_def)
  show ?thesis
    by (simp add: demo_w2_def demo_w1_eq PaymentService_Authorize_def Memory_GetPayment_def
        Authorize_read_def demo_svc_def answers PaymentService_commit_def expected demo_marshal
        on_store_def Let_def Memory_CommitPaymentCommand_def CanTransition_def demo_pair
        written demo_event_def eval_nat_numeral)
qed

lemma demo_w3_eq [code]:
  "demo_w3 = \<lparr>w_store = \<lparr>payments = [demo_id \<mapsto> demo_captured], keys = [''order'' \<mapsto> demo_id],
     outbox = [env_uuid demo_env 3 \<mapsto>
         demo_event 3 demo_id ''payment.authorized'' (demo_json ''0'' ''authorized''),
       env_uuid demo_env 6 \<mapsto> demo_event 6 demo_id ''payment.captured'' (demo_json ''30'' ''captured'')],
     ledger = entry_pair demo_env 1 demo_id ''customer:pending'' (acct_pending ''m'') ''USD'' (Dec 4990 (-2)) @
       entry_pair demo_env 4 demo_id (acct_pending ''m'') (acct_available ''m'') ''USD'' (Dec 30 0),
     webhooks = {}, payouts = Map.empty, disputes = Map.empty\<rparr>,
     w_next = 7, w_calls = [CallAuthorize demo_payment, CallCapture demo_authorized (Dec 30 0)],
     w_metrics = NewCounterMetrics\<rparr>"
proof -
  have answers: "ValidateCapture ce_pkg demo_authorized (Dec 30 0) = Inr ()"
    "prov_Capture DeterministicProvider demo_authorized (Dec 30 0) = Inr ()"
    "decAdd ce_pkg (Dec 0 0) (Dec 30 0) = Dec 30 0"
    by code_simp+
  have expected: "commit_expected ce_pkg demo_authorized PaymentCaptured (Dec 30 0) ''demo_00000000'' =
      demo_captured"
    by (simp add: commit_expected_def demo_captured_def demo_authorized_def answers)
  have written: "demo_authorized\<lparr>p_CapturedAmount := Dec 30 0, p_Status := PaymentCaptured,
      p_ProviderReference := ''demo_00000000''\<rparr> = demo_captured"
    by (simp add: demo_captured_def demo_authorized_def)
  show ?thesis
    by (simp add: demo_w3_def demo_w2_eq PaymentService_Capture_def Memory_GetPayment_def
        Capture_read_def answers PaymentService_commit_def expected demo_marshal
        on_store_def Let_def Memory_CommitPaymentCommand_def CanTransition_def demo_pair
        written demo_event_def eval_nat_numeral)
qed

lemma demo_w4_eq [code]:
  "demo_w4 = demo_w3\<lparr>w_next := 11, w_store := (w_store demo_w3)\<lparr>
     payouts := [env_uuid demo_env 7 \<mapsto> demo_payout],
     ledger := ledger (w_store demo_w3) @
       entry_pair demo_env 8 [] (acct_available ''m'') (acct_payout_pending ''m'') ''USD'' (Dec 10 0),
     outbox := (outbox (w_store demo_w3))(env_uuid demo_env 10 \<mapsto>
       demo_event 10 (env_uuid demo_env 7) ''payout.created'' demo_payout_json)\<rparr>\<rparr>"
proof -
  have new: "NewPayout ce_pkg (\<lambda>s. s) (env_uuid demo_env 7) ''m'' ''USD'' (Dec 10 0) = Inr demo_payout"
    by (simp add: NewPayout_def demo_payout_def)
  have enough: "\<not> decLessThan ce_pkg (balance_of_loop ce_pkg (acct_available ''m'') ''USD'' (decZero ce_pkg)
       (ledger (w_store demo_w3))) (Dec 10 0)"
    by (simp add: demo_w3_eq entry_pair_def)
  have "w_next demo_w3 = 7" "payouts (w_store demo_w3) = Map.empty" by (simp_all add: demo_w3_eq)
  with enough show ?thesis
    by (simp add: demo_w4_def PayoutService_Create_def new demo_marshal on_store_def Let_def
        Memory_CreatePayout_def demo_pair payload_of_def demo_event_def)
qed

lemma demo_w5_eq [code]:
  "demo_w5 = demo_w4\<lparr>w_next := 15, w_store := (w_store demo_w4)\<lparr>
     disputes := [env_uuid demo_env 11 \<mapsto> demo_dispute],
     ledger := ledger (w_store demo_w4) @
       entry_pair demo_env 12 demo_id (acct_available ''m'') (acct_dispute_frozen ''m'') ''USD'' (Dec 5 0),
     outbox := (outbox (w_store demo_w4))(env_uuid demo_env 14 \<mapsto>
       demo_event 14 (env_uuid demo_env 11) ''dispute.opened'' demo_dispute_json)\<rparr>\<rparr>"
proof -
  have new: "NewDispute ce_pkg (\<lambda>s. s) (env_uuid demo_env 11) demo_id ''m'' ''USD'' ''fraud'' (Dec 5 0) =
      Inr demo_dispute"
    by (simp add: NewDispute_def demo_dispute_def)
  have "w_next demo_w4 = 11" "disputes (w_store demo_w4) = Map.empty"
    "payments (w_store demo_w4) demo_id = Some demo_captured"
    by (simp_all add: demo_w4_eq demo_w3_eq)
  then show ?thesis
    by (simp add: demo_w5_def DisputeService_Open_def Memory_GetPayment_def Open_read_def new
        demo_marshal on_store_def Let_def Memory_CreateDispute_def demo_pair payload_of_def
        demo_event_def)
qed

lemma demo_calls:
  "PaymentService_Create demo_env demo_svc (\<lambda>_. []) demo_input ''order'' demo_w0 =
     (Inr (demo_payment, False), demo_w1)"
  "PaymentService_Authorize demo_env demo_svc (\<lambda>_. []) demo_id demo_w1 = (Inr demo_authorized, demo_w2)"
  "PaymentService_Capture demo_env demo_svc (\<lambda>_. []) demo_id (Dec 30 0) demo_w2 =
     (Inr demo_captured, demo_w3)"
proof -
  have "fst (PaymentService_Create demo_env demo_svc (\<lambda>_. []) demo_input ''order'' demo_w0) =
      Inr (demo_payment, False)"
    "fst (PaymentService_Authorize demo_env demo_svc (\<lambda>_. []) demo_id demo_w1) = Inr demo_authorized"
    "fst (PaymentService_Capture demo_env demo_svc (\<lambda>_. []) demo_id (Dec 30 0) demo_w2) =
      Inr demo_captured"
    by code_simp+
  then show
    "PaymentService_Create demo_env demo_svc (\<lambda>_. []) demo_input ''order'' demo_w0 =
       (Inr (demo_payment, False), demo_w1)"
    "PaymentService_Authorize demo_env demo_svc (\<lambda>_. []) demo_id demo_w1 = (Inr demo_authorized, demo_w2)"
    "PaymentService_Capture demo_env demo_svc (\<lambda>_. []) demo_id (Dec 30 0) demo_w2 =
       (Inr demo_captured, demo_w3)"
    by (simp_all add: demo_w1_def demo_w2_def demo_w3_def prod_eq_iff)
qed

end
