(* ===== verification/Ledger_Totals.thy ===== *)
theory Ledger_Totals
  imports Demo_Run
begin

text \<open>
  The consequences of the book's invariant for the memory store, in terms of the store's own
  maps and its ledger slice. The statements are proved in the locale \<open>ledger_env\<close>; the root
  theory states them over the definitions.
\<close>

section \<open>Totals over the store\<close>

definition settled_total :: "('d \<Rightarrow> rat) \<Rightarrow> string \<Rightarrow> string \<Rightarrow> 'd MemoryStore \<Rightarrow> rat" where
  "settled_total val m c s = dom_sum (\<lambda>p. if p_MerchantID p = m \<and> p_Currency p = c
     then val (p_CapturedAmount p) - val (p_RefundedAmount p) else 0) (payments s)"

definition payout_total :: "('d \<Rightarrow> rat) \<Rightarrow> PayoutStatus set \<Rightarrow> string \<Rightarrow> string \<Rightarrow> 'd MemoryStore \<Rightarrow> rat" where
  "payout_total val X m c s = dom_sum (\<lambda>p. if po_MerchantID p = m \<and> po_Currency p = c \<and> po_Status p \<in> X
     then val (po_Amount p) else 0) (payouts s)"

definition dispute_total :: "('d \<Rightarrow> rat) \<Rightarrow> DisputeStatus set \<Rightarrow> string \<Rightarrow> string \<Rightarrow> 'd MemoryStore \<Rightarrow> rat" where
  "dispute_total val X m c s = dom_sum (\<lambda>d. if di_MerchantID d = m \<and> di_Currency d = c \<and> di_Status d \<in> X
     then val (di_Amount d) else 0) (disputes s)"

text \<open>The entries of one payment on one account.\<close>

definition payment_balance :: "('d \<Rightarrow> rat) \<Rightarrow> string \<Rightarrow> string \<Rightarrow> 'd LedgerEntry list \<Rightarrow> rat" where
  "payment_balance val pid account es =
     sum_list (map (\<lambda>e. if le_PaymentID e = pid \<and> le_AccountID e = account
                        then val (le_Credit e) - val (le_Debit e) else 0) es)"

definition currency_balance :: "('d \<Rightarrow> rat) \<Rightarrow> string \<Rightarrow> 'd LedgerEntry list \<Rightarrow> rat" where
  "currency_balance val c es =
     sum_list (map (\<lambda>e. if le_Currency e = c then val (le_Credit e) - val (le_Debit e) else 0) es)"

lemma dom_sum_comp: "dom_sum f (map_option g \<circ> m) = dom_sum (\<lambda>x. f (g x)) m"
  unfolding dom_sum_def by (rule sum.cong) auto

lemma totals_abs [abs_simps]:
  "dom_sum (settled m c) (b_payments (absM val s)) = settled_total val m c s"
  "dom_sum (payout_in X m c) (b_payouts (absM val s)) = payout_total val X m c s"
  "dom_sum (dispute_in Y m c) (b_disputes (absM val s)) = dispute_total val Y m c s"
  by (simp_all add: absM_def dom_sum_comp settled_total_def payout_total_def dispute_total_def
      settled_def payout_in_def dispute_in_def cong: if_cong)

lemma pbal_absM [abs_simps]: "pbal (absM val s) pid account = payment_balance val pid account (ledger s)"
  by (simp add: pbal_def posting_sum_def payment_balance_def comp_def abs_entry_def cong: if_cong)

lemma currency_total_absM [abs_simps]:
  "currency_total (absM val s) c = currency_balance val c (ledger s)"
  by (simp add: currency_total_def posting_sum_def currency_balance_def comp_def abs_entry_def
      cong: if_cong)

section \<open>What holds in every reachable state\<close>

context ledger_env
begin

abbreviation reach :: "('d MemoryStore, 'd) World \<Rightarrow> 'd Task multiset \<Rightarrow> bool" where
  "reach w ts \<equiv> platform_reachable env (memoryStore D) (\<lambda>_. True) NewMemory (w, ts)"

lemma reach_book:
  assumes "reach w ts"
  shows "memory_inv (w_store w)" "book_inv (absM val (w_store w))"
  using mp.platform_book_inv [OF assms] memory_inv_New absM_New [of val]
  by (simp_all add: NewMemory_def)

lemma reach_available:
  assumes "reach w ts"
  shows "entry_balance val (acct_available m) c (ledger (w_store w)) =
     settled_total val m c (w_store w)
     - payout_total val {PayoutPending, PayoutPaid} m c (w_store w)
     - dispute_total val {DisputeOpen, DisputeLost} m c (w_store w)"
  using reach_book(2) [OF assms]
  by (simp add: book_inv_def available_ok_def totals_abs bal_absM)

lemma reach_reserved:
  assumes "reach w ts"
  shows "entry_balance val (acct_payout_pending m) c (ledger (w_store w)) =
       payout_total val {PayoutPending} m c (w_store w)"
    and "entry_balance val (acct_dispute_frozen m) c (ledger (w_store w)) =
       dispute_total val {DisputeOpen} m c (w_store w)"
  using reach_book(2) [OF assms]
  by (simp_all add: book_inv_def reserved_ok_def frozen_ok_def totals_abs bal_absM)

lemma reach_totals_nonneg:
  assumes "reach w ts"
  shows "0 \<le> payout_total val X m c (w_store w)" "0 \<le> dispute_total val Y m c (w_store w)"
proof -
  have "amounts_ok (absM val (w_store w))"
    using reach_book(2) [OF assms] by (simp add: book_inv_def)
  then have pos: "payouts (w_store w) i = Some p \<Longrightarrow> 0 < val (po_Amount p)"
    "disputes (w_store w) i = Some d \<Longrightarrow> 0 < val (di_Amount d)" for i p d
    unfolding amounts_ok_def by (metis absM_fields(2) abs_fields(9) option.simps(9),
      metis absM_fields(3) abs_fields(14) option.simps(9))
  show "0 \<le> payout_total val X m c (w_store w)"
    unfolding payout_total_def by (rule dom_sum_nonneg) (simp add: less_imp_le [OF pos(1)])
  show "0 \<le> dispute_total val Y m c (w_store w)"
    unfolding dispute_total_def by (rule dom_sum_nonneg) (simp add: less_imp_le [OF pos(2)])
qed

lemma reach_entries:
  assumes "reach w ts"
  shows "length (ledger (w_store w)) = 2 * card (dom (outbox (w_store w)))"
    and "currency_balance val c (ledger (w_store w)) = 0"
  using reach_book(2) [OF assms] by (simp_all add: book_inv_def entries_ok_def currency_total_absM)

lemma reach_payment:
  assumes "reach w ts" and p: "payments (w_store w) i = Some p"
  shows "p_ID p = i" "payment_ok (abs_payment val p)"
    and "payment_balance val i ''customer:refunded'' (ledger (w_store w)) = val (p_RefundedAmount p)"
    and "p_Status p \<in> {PaymentAuthorized, PaymentCaptured, PaymentRefunded} \<Longrightarrow>
      payment_balance val i (acct_pending (p_MerchantID p)) (ledger (w_store w)) =
        val (p_Amount p) - val (p_CapturedAmount p)"
    and "p_Status p = PaymentCreated \<Longrightarrow>
      payment_balance val i (acct_pending (p_MerchantID p)) (ledger (w_store w)) = 0"
    and "p_Status p = PaymentFailed \<Longrightarrow>
      payment_balance val i (acct_pending (p_MerchantID p)) (ledger (w_store w)) \<in> {0, val (p_Amount p)}"
proof -
  have b: "b_payments (absM val (w_store w)) i = Some (abs_payment val p)" using p by simp
  have "amounts_ok (absM val (w_store w))" and ok: "payment_postings_ok (absM val (w_store w))"
    using reach_book(2) [OF assms(1)] by (simp_all add: book_inv_def)
  with b show "payment_ok (abs_payment val p)" unfolding amounts_ok_def by blast
  show "p_ID p = i" using reach_book(1) [OF assms(1)] p by (simp add: memory_inv_def)
  note q = ok [unfolded payment_postings_ok_def, THEN conjunct2, rule_format, OF b, unfolded pbal_absM]
  from q show "payment_balance val i ''customer:refunded'' (ledger (w_store w)) = val (p_RefundedAmount p)"
    by simp
  from q show "payment_balance val i (acct_pending (p_MerchantID p)) (ledger (w_store w)) =
        val (p_Amount p) - val (p_CapturedAmount p)"
    if "p_Status p \<in> {PaymentAuthorized, PaymentCaptured, PaymentRefunded}" using that by auto
  from q show "payment_balance val i (acct_pending (p_MerchantID p)) (ledger (w_store w)) = 0"
    if "p_Status p = PaymentCreated" using that by simp
  from q show "payment_balance val i (acct_pending (p_MerchantID p)) (ledger (w_store w))
      \<in> {0, val (p_Amount p)}"
    if "p_Status p = PaymentFailed" using that by simp
qed

text \<open>One step of the platform is at most one move of the book.\<close>

lemma reach_step:
  assumes "reach w ts" "platform_step env (memoryStore D) (\<lambda>_. True) (w, ts) (w', ts')"
  shows "absM val (w_store w') = absM val (w_store w) \<or>
     book_step (upper_currency (env_U env)) (absM val (w_store w)) (absM val (w_store w'))"
  using mp.platform_step_moves [OF assms(2) mp.platform_reachable_inv [OF assms(1)]]
    memory_inv_New absM_New [of val] by (simp add: NewMemory_def)

end

end
