(* ===== verification/Platform_Run.thy ===== *)
theory Platform_Run
  imports Ledger_Totals
begin

text \<open>
  Runs of the platform over the memory store from one reachable state to a later one: what a
  record, a key, an event or a webhook identifier may become. These are the facts about the
  concrete store that the book does not see.
\<close>

section \<open>What a store keeps\<close>

text \<open>Every row of a table is kept and related to its later version.\<close>

definition rows_le :: "('a \<Rightarrow> 'a \<Rightarrow> bool) \<Rightarrow> ('k \<rightharpoonup> 'a) \<Rightarrow> ('k \<rightharpoonup> 'a) \<Rightarrow> bool" where
  "rows_le R m m' \<longleftrightarrow> (\<forall>i x. m i = Some x \<longrightarrow> (\<exists>y. m' i = Some y \<and> R x y))"

text \<open>
  What may change in a record: the status, the captured and refunded amounts and the provider reference of
  a payment, once the status and the provider reference of a payout and the status of a dispute,
  and whether an event is published.
\<close>

definition payment_same :: "'d Payment \<Rightarrow> 'd Payment \<Rightarrow> bool" where
  "payment_same p q \<longleftrightarrow> p_ID q = p_ID p \<and> p_MerchantID q = p_MerchantID p \<and>
     p_CustomerID q = p_CustomerID p \<and> p_Currency q = p_Currency p \<and> p_Amount q = p_Amount p"

definition payout_le :: "'d Payout \<Rightarrow> 'd Payout \<Rightarrow> bool" where
  "payout_le p q \<longleftrightarrow> q = p \<or> po_Status p = PayoutPending \<and> po_Status q \<noteq> PayoutPending \<and>
     q = p\<lparr>po_Status := po_Status q, po_ProviderReference := po_ProviderReference q\<rparr>"

definition dispute_le :: "'d Dispute \<Rightarrow> 'd Dispute \<Rightarrow> bool" where
  "dispute_le d e \<longleftrightarrow> e = d \<or> di_Status d = DisputeOpen \<and> di_Status e \<noteq> DisputeOpen \<and>
     e = d\<lparr>di_Status := di_Status e\<rparr>"

definition event_le :: "OutboxEvent \<Rightarrow> OutboxEvent \<Rightarrow> bool" where
  "event_le e f \<longleftrightarrow> ev_ID f = ev_ID e \<and> ev_AggregateID f = ev_AggregateID e \<and>
     ev_EventType f = ev_EventType e \<and> ev_Payload f = ev_Payload e \<and>
     (ev_Published e \<longrightarrow> ev_Published f)"

lemmas record_le_defs = payment_same_def payout_le_def dispute_le_def event_le_def

definition store_le :: "'d MemoryStore \<Rightarrow> 'd MemoryStore \<Rightarrow> bool" where
  "store_le s s' \<longleftrightarrow>
     rows_le (=) (keys s) (keys s') \<and> rows_le payment_same (payments s) (payments s') \<and>
     rows_le payout_le (payouts s) (payouts s') \<and> rows_le dispute_le (disputes s) (disputes s') \<and>
     rows_le event_le (outbox s) (outbox s') \<and>
     (\<exists>es. ledger s' = ledger s @ es) \<and> webhooks s \<subseteq> webhooks s'"

lemma rowsD: "rows_le R m m' \<Longrightarrow> m i = Some x \<Longrightarrow> \<exists>y. m' i = Some y \<and> R x y"
  by (simp add: rows_le_def)

lemma rows_le_refl [simp]: "reflp R \<Longrightarrow> rows_le R m m"
  by (auto simp: rows_le_def dest: reflpD)

lemma rows_le_trans: "transp R \<Longrightarrow> rows_le R m m' \<Longrightarrow> rows_le R m' m'' \<Longrightarrow> rows_le R m m''"
  unfolding rows_le_def by (meson transpD)

lemma rows_le_upd [simp]:
  "reflp R \<Longrightarrow> rows_le R m (m(i \<mapsto> y)) \<longleftrightarrow> (case m i of None \<Rightarrow> True | Some x \<Rightarrow> R x y)"
  by (auto simp: rows_le_def dest: reflpD split: option.splits)

lemma record_le_order [simp]:
  "reflp payment_same" "reflp payout_le" "reflp dispute_le" "reflp event_le" "reflp ((=) :: 'a \<Rightarrow> _)"
  "transp payment_same" "transp payout_le" "transp dispute_le" "transp event_le"
  "transp ((=) :: 'a \<Rightarrow> _)"
proof -
  show "transp payout_le" "transp dispute_le"
    by (auto simp: transp_def payout_le_def dispute_le_def)
qed (auto simp: reflp_def transp_def record_le_defs)

lemma store_le_refl [simp]: "store_le s s"
  by (simp add: store_le_def)

lemma store_le_trans: "store_le s s' \<Longrightarrow> store_le s' s'' \<Longrightarrow> store_le s s''"
  by (auto simp: store_le_def intro: rows_le_trans)

text \<open>The methods. A write under a new identifier overwrites nothing.\<close>

lemma Memory_CreatePayment_le:
  "Memory_CreatePayment D c p key s = (r, s') \<Longrightarrow> payments s (p_ID p) = None \<Longrightarrow> store_le s s'"
  by (auto simp: Memory_CreatePayment_def store_le_def split: option.splits)

lemma Memory_Transition_le: "Memory_Transition c i to reference s = (r, s') \<Longrightarrow> store_le s s'"
  by (auto simp: Memory_Transition_def store_le_def payment_same_def Let_def
      split: option.splits if_splits)

lemma Memory_outbox_le:
  "Memory_ClaimOutbox c n s = (rc, s') \<Longrightarrow> store_le s s'"
  "Memory_MarkPublished c i s = (u, s') \<Longrightarrow> store_le s s'"
  "Memory_RegisterWebhook c i s = (v, s') \<Longrightarrow> store_le s s'"
  by (auto simp: Memory_ClaimOutbox_def Memory_MarkPublished_def Memory_RegisterWebhook_def
      store_le_def event_le_def split: option.splits if_splits)

lemma Memory_writers_le:
  "Memory_CreatePayout D c po es ev s = (r, s') \<Longrightarrow> outbox s (ev_ID ev) = None \<Longrightarrow>
     payouts s (po_ID po) = None \<Longrightarrow> store_le s s'"
  "Memory_TransitionPayout D c i pst reference es ev s = (r, s') \<Longrightarrow> outbox s (ev_ID ev) = None \<Longrightarrow>
     store_le s s'"
  "Memory_CreateDispute D c d es ev s = (rd, s') \<Longrightarrow> outbox s (ev_ID ev) = None \<Longrightarrow> store_le s s'"
  "Memory_ResolveDispute D c i dst es ev s = (rd, s') \<Longrightarrow> outbox s (ev_ID ev) = None \<Longrightarrow> store_le s s'"
  by (auto simp: Memory_CreatePayout_def Memory_TransitionPayout_def Memory_CreateDispute_def
      Memory_ResolveDispute_def store_le_def payout_le_def dispute_le_def Let_def
      split: option.splits if_splits sum.splits)

lemma Memory_Commit_le:
  assumes "Memory_CommitPaymentCommand D c cmd s = (r, s')" "memory_inv s"
    and "outbox s (ev_ID (cmd_Event cmd)) = None"
  shows "store_le s s'"
  using assms
  by (auto simp: Memory_CommitPaymentCommand_def memory_inv_def store_le_def payment_same_def Let_def
      split: option.splits if_splits sum.splits)

section \<open>The services\<close>

lemma service_commit_le:
  assumes "PaymentService_commit env svc c p status amount reference entries et w = (r, w')"
    and "svc_Store svc = memoryStore D" "memory_inv (w_store w)"
    and "outbox (w_store w) (env_uuid env (w_next w)) = None"
  shows "store_le (w_store w) (w_store w')"
  using assms(1)
proof (cases rule: PaymentService_commit_cases)
  case (store payload s')
  with assms(2-4) Memory_Commit_le show ?thesis by fastforce
qed simp

lemma create_le:
  assumes "PaymentService_Create env svc ctx inp key w = (r, w')"
    and "svc_Store svc = memoryStore D" "payments (w_store w) (env_uuid env (w_next w)) = None"
  shows "store_le (w_store w) (w_store w')"
  using assms(1)
proof (cases rule: PaymentService_Create_cases)
  case (store p s')
  then have "p_ID p = env_uuid env (w_next w)" by (auto simp: NewPayment_def split: if_splits)
  with store assms(2,3) Memory_CreatePayment_le show ?thesis by fastforce
qed auto

lemma authorize_le:
  assumes "Authorize_read env svc ctx i p w = (r, w')"
    and svc: "svc_Store svc = memoryStore D" and "memory_inv (w_store w)"
    and "outbox (w_store w) (env_uuid env (w_next w + 2)) = None"
  shows "store_le (w_store w) (w_store w')"
  using assms(1)
proof (cases rule: Authorize_read_cases)
  case (commit reference)
  with service_commit_le [OF commit(3) svc] assms show ?thesis by simp
qed (auto simp: svc snd_on_store intro: Memory_Transition_le [OF surjective_pairing])

lemma capture_le:
  assumes "Capture_read env svc ctx i a p w = (r, w')"
    and svc: "svc_Store svc = memoryStore D" and "memory_inv (w_store w)"
    and "outbox (w_store w) (env_uuid env (w_next w + 2)) = None"
  shows "store_le (w_store w) (w_store w')"
  using assms(1)
proof (cases rule: Capture_read_cases)
  case commit
  with service_commit_le [OF commit(3) svc] assms show ?thesis by simp
qed auto

lemma refund_le:
  assumes "Refund_read env svc ctx i a p w = (r, w')"
    and svc: "svc_Store svc = memoryStore D" and "memory_inv (w_store w)"
    and "outbox (w_store w) (env_uuid env (w_next w + 2)) = None"
  shows "store_le (w_store w) (w_store w')"
  using assms(1)
proof (cases rule: Refund_read_cases)
  case commit
  with service_commit_le [OF commit(3) svc] assms show ?thesis by simp
qed auto

lemma payout_dispute_le:
  assumes "\<And>k. w_next w \<le> k \<Longrightarrow> outbox (w_store w) (env_uuid env k) = None"
    and "\<And>k. w_next w \<le> k \<Longrightarrow> payouts (w_store w) (env_uuid env k) = None"
  shows "PayoutService_Create env (memoryStore D) ctx m c a w = (r, w') \<Longrightarrow> store_le (w_store w) (w_store w')"
    and "Complete_read env (memoryStore D) ctx i reference success po w = (r, w') \<Longrightarrow>
      store_le (w_store w) (w_store w')"
    and "Open_read env (memoryStore D) ctx i reason a p w = (r', w') \<Longrightarrow> store_le (w_store w) (w_store w')"
    and "Resolve_read env (memoryStore D) ctx i win d w = (r', w') \<Longrightarrow> store_le (w_store w) (w_store w')"
  using assms
  by (auto simp: PayoutService_Create_def Complete_read_def Open_read_def Resolve_read_def Let_def
      on_store_iff NewPayout_def elim!: Memory_writers_le split: sum.splits if_splits)

section \<open>Runs\<close>

context ledger_env
begin

abbreviation step :: "('d MemoryStore, 'd) Sys \<Rightarrow> ('d MemoryStore, 'd) Sys \<Rightarrow> bool" where
  "step \<equiv> platform_step env (memoryStore D) (\<lambda>_. True)"

lemma reach_fresh:
  assumes "reach w ts" "w_next w \<le> k"
  shows "outbox (w_store w) (env_uuid env k) = None" "payments (w_store w) (env_uuid env k) = None"
    "payouts (w_store w) (env_uuid env k) = None"
proof -
  have "mp.known w"
    using mp.platform_reachable_inv [OF assms(1)] memory_inv_New absM_New [of val]
    by (auto simp: NewMemory_def platform_ok_def Let_def)
  from mp.not_known [OF this assms(2)]
  show "outbox (w_store w) (env_uuid env k) = None" "payments (w_store w) (env_uuid env k) = None"
    "payouts (w_store w) (env_uuid env k) = None"
    by auto
qed

lemma step_le:
  assumes "step (w, ts) (w', ts')" and w: "reach w ts"
  shows "store_le (w_store w) (w_store w')"
proof -
  note fresh = reach_fresh [OF w] and inv = reach_book(1) [OF w]
  from assms(1) show ?thesis
  proof (cases rule: platform_step.cases)
  qed (auto intro: create_le authorize_le capture_le refund_le Memory_outbox_le
      payout_dispute_le [OF fresh(1,3)] simp: fresh inv)
qed

lemma forward_le:
  assumes "step\<^sup>*\<^sup>* x y" "reach (fst x) (snd x)"
  shows "reach (fst y) (snd y) \<and> store_le (w_store (fst x)) (w_store (fst y))"
  using assms
proof (induction rule: rtranclp_induct)
  case (step y z)
  then have "reach (fst y) (snd y)" by blast
  with step step_le [of "fst y" "snd y" "fst z" "snd z"] show ?case
    by (auto intro: store_le_trans platform_next)
qed simp

text \<open>The book's payments only move forward along a run.\<close>

lemma forward_payment:
  assumes "step\<^sup>*\<^sup>* x y" "reach (fst x) (snd x)" "payments (w_store (fst x)) i = Some p"
  shows "\<exists>q. payments (w_store (fst y)) i = Some q \<and> payment_le (abs_payment val p) (abs_payment val q)"
  using assms
proof (induction rule: rtranclp_induct)
  case (step y z)
  then obtain q where q: "payments (w_store (fst y)) i = Some q"
    "payment_le (abs_payment val p) (abs_payment val q)" by blast
  have "reach (fst y) (snd y)" using forward_le [OF step.hyps(1) step.prems(1)] by blast
  from reach_step [OF this, of "fst z" "snd z"] step.hyps(2)
  have "absM val (w_store (fst z)) = absM val (w_store (fst y)) \<or>
      book_step (upper_currency (env_U env)) (absM val (w_store (fst y))) (absM val (w_store (fst z)))"
    by simp
  then have "\<exists>q'. b_payments (absM val (w_store (fst z))) i = Some q' \<and> payment_le (abs_payment val q) q'"
    using q(1) book_step_payment by (metis absM_fields(1) option.simps(9) payment_le_refl)
  with q(2) show ?case by (auto intro: payment_le_trans)
qed auto

section \<open>Idempotency keys\<close>

lemma create_new:
  assumes "PaymentService_Create env svc ctx inp key w = (Inr (p, False), w')"
    and "svc_Store svc = memoryStore D"
  shows "keys (w_store w') key = Some (p_ID p)" "payments (w_store w') (p_ID p) = Some p" "key \<noteq> []"
    "NewPayment D (env_U env) (env_uuid env (w_next w)) inp = Inr p"
proof -
  have "keys (w_store w') key = Some (p_ID p) \<and> payments (w_store w') (p_ID p) = Some p \<and> key \<noteq> [] \<and>
      NewPayment D (env_U env) (env_uuid env (w_next w)) inp = Inr p"
    using assms(1)
  proof (cases rule: PaymentService_Create_cases)
    case (store p' s')
    from store(1-3) assms(2) show ?thesis
      by (auto simp: store(4) Memory_CreatePayment_def split: option.splits)
  qed simp_all
  then show "keys (w_store w') key = Some (p_ID p)" "payments (w_store w') (p_ID p) = Some p" "key \<noteq> []"
    "NewPayment D (env_U env) (env_uuid env (w_next w)) inp = Inr p" by simp_all
qed

lemma create_known_key:
  assumes "keys (w_store w) key = Some i" "payments (w_store w) i = Some q" "key \<noteq> []"
    and "svc_Store svc = memoryStore D"
  shows "\<exists>w'. PaymentService_Create env svc ctx inp key w =
     (case NewPayment D (env_U env) (env_uuid env (w_next w)) inp of
        Inl e \<Rightarrow> Inl e | Inr _ \<Rightarrow> Inr (q, True), w') \<and> w_store w' = w_store w"
  using assms
  by (auto simp: PaymentService_Create_def on_store_def Memory_CreatePayment_def split: sum.splits)

lemma create_replay:
  assumes w: "reach w ts" and svc: "svc_Store svc = memoryStore D" "svc_Store svc' = memoryStore D"
    and new: "PaymentService_Create env svc ctx inp key w = (Inr (p, False), w1)"
    and run: "step\<^sup>*\<^sup>* (w1, ts) (w2, ts2)"
  shows "\<exists>q w3. PaymentService_Create env svc' ctx' inp' key w2 =
       (case NewPayment D (env_U env) (env_uuid env (w_next w2)) inp' of
          Inl e \<Rightarrow> Inl e | Inr _ \<Rightarrow> Inr (q, True), w3) \<and>
     w_store w3 = w_store w2 \<and> payments (w_store w2) (p_ID p) = Some q \<and>
     p_CustomerID q = p_CustomerID p \<and> payment_le (abs_payment val p) (abs_payment val q)"
proof -
  note p = create_new [OF new svc(1)]
  have w1: "reach w1 ts" by (rule platform_next [OF w step_create [OF svc(1) TrueI new]])
  from forward_le [OF run] w1 have le: "store_le (w_store w1) (w_store w2)" by simp
  from forward_payment [OF run] w1 p(2) obtain q where q: "payments (w_store w2) (p_ID p) = Some q"
    "payment_le (abs_payment val p) (abs_payment val q)" by auto
  moreover have "p_CustomerID q = p_CustomerID p" "keys (w_store w2) key = Some (p_ID p)"
    using le p(1,2) q(1) by (auto simp: store_le_def payment_same_def dest!: rowsD)
  ultimately show ?thesis
    using create_known_key [OF _ q(1) p(3) svc(2)] by metis
qed

end

section \<open>Properties\<close>

text \<open>
  C7: An idempotency key creates at most one payment. Once a call of \<open>Create\<close> with a key has
  created a payment, every later call with that key, after any interleaving of other requests and
  whatever its own input, creates nothing and leaves the store as it was: it returns the payment
  first created, in its current version, marked as a replay, or the error of its own malformed
  input. The returned version has the merchant, customer, currency and amount of the first.
\<close>

theorem create_idempotent:
  assumes "ledger_env D val env"
    and "platform_reachable env (memoryStore D) (\<lambda>_. True) NewMemory (w, ts)"
    and "svc_Store svc = memoryStore D" "svc_Store svc' = memoryStore D"
    and "PaymentService_Create env svc ctx inp key w = (Inr (p, False), w1)"
    and "(platform_step env (memoryStore D) (\<lambda>_. True))\<^sup>*\<^sup>* (w1, ts) (w2, ts2)"
  shows "\<exists>q w3. PaymentService_Create env svc' ctx' inp' key w2 =
       (case NewPayment D (env_U env) (env_uuid env (w_next w2)) inp' of
          Inl e \<Rightarrow> Inl e | Inr _ \<Rightarrow> Inr (q, True), w3) \<and>
     w_store w3 = w_store w2 \<and> payments (w_store w2) (p_ID p) = Some q \<and>
     p_MerchantID q = p_MerchantID p \<and> p_CustomerID q = p_CustomerID p \<and>
     p_Currency q = p_Currency p \<and> val (p_Amount q) = val (p_Amount p)"
  using ledger_env.create_replay [OF assms, of ctx' inp'] by (auto simp: payment_le_def)

lemma demo_start:
  "platform_reachable demo_env (memoryStore ce_pkg) (\<lambda>_. True) NewMemory (demo_w0, {#})"
  unfolding demo_w0_def by (rule platform_start)

theorem create_idempotent_witness:
  "\<exists>w3. PaymentService_Create demo_env demo_svc (\<lambda>_. []) demo_input ''order'' demo_w1 =
     (Inr (demo_payment, True), w3) \<and> w_store w3 = w_store demo_w1"
proof -
  have p: "payments (w_store demo_w1) demo_id = Some demo_payment" by code_simp
  have n: "NewPayment ce_pkg (env_U demo_env) (env_uuid demo_env (w_next demo_w1)) demo_input =
      Inr (demo_payment\<lparr>p_ID := ''00000000-0''\<rparr>)"
    by code_simp
  have "p_ID demo_payment = demo_id" by (simp add: demo_payment_def)
  with create_idempotent [OF demo.ledger_env_axioms demo_start _ _ demo_calls(1) rtranclp.rtrancl_refl,
      of demo_svc "\<lambda>_. []" demo_input] p n
  show ?thesis by auto
qed

text \<open>
  C11: Along any run of the platform a payment keeps its identifier, merchant, customer, currency and
  amount, its captured and refunded amounts never decrease and its status only follows the transition
  table. A payout and a dispute change at most once, from pending or open to resolved, and only in
  the status and, for a payout, the provider reference; a resolved one never changes again in any
  field. The ledger only grows at its end; and an outbox event never disappears, keeps its content and
  stays published once it is.
\<close>

theorem records_forward:
  assumes "ledger_env D val env"
    and "platform_reachable env (memoryStore D) (\<lambda>_. True) NewMemory (w, ts)"
    and "(platform_step env (memoryStore D) (\<lambda>_. True))\<^sup>*\<^sup>* (w, ts) (w', ts')"
  shows "(\<forall>i p. payments (w_store w) i = Some p \<longrightarrow> (\<exists>q. payments (w_store w') i = Some q \<and>
        p_ID q = p_ID p \<and> p_MerchantID q = p_MerchantID p \<and> p_CustomerID q = p_CustomerID p \<and>
        p_Currency q = p_Currency p \<and> p_Amount q = p_Amount p \<and>
        val (p_CapturedAmount p) \<le> val (p_CapturedAmount q) \<and>
        val (p_RefundedAmount p) \<le> val (p_RefundedAmount q) \<and>
        transition_table\<^sup>*\<^sup>* (p_Status p) (p_Status q))) \<and>
     (\<forall>i p. payouts (w_store w) i = Some p \<longrightarrow> (\<exists>q. payouts (w_store w') i = Some q \<and> payout_le p q) \<and>
        (po_Status p \<noteq> PayoutPending \<longrightarrow> payouts (w_store w') i = Some p)) \<and>
     (\<forall>i d. disputes (w_store w) i = Some d \<longrightarrow> (\<exists>e. disputes (w_store w') i = Some e \<and> dispute_le d e) \<and>
        (di_Status d \<noteq> DisputeOpen \<longrightarrow> disputes (w_store w') i = Some d)) \<and>
     (\<exists>es. ledger (w_store w') = ledger (w_store w) @ es) \<and>
     (\<forall>i e. outbox (w_store w) i = Some e \<longrightarrow> (\<exists>f. outbox (w_store w') i = Some f \<and> event_le e f))"
proof (intro conjI allI impI)
  have le: "store_le (w_store w) (w_store w')"
    using ledger_env.forward_le [OF assms(1,3)] assms(2) by simp
  fix i
  show "\<exists>q. payments (w_store w') i = Some q \<and>
        p_ID q = p_ID p \<and> p_MerchantID q = p_MerchantID p \<and> p_CustomerID q = p_CustomerID p \<and>
        p_Currency q = p_Currency p \<and> p_Amount q = p_Amount p \<and>
        val (p_CapturedAmount p) \<le> val (p_CapturedAmount q) \<and>
        val (p_RefundedAmount p) \<le> val (p_RefundedAmount q) \<and>
        transition_table\<^sup>*\<^sup>* (p_Status p) (p_Status q)" if p: "payments (w_store w) i = Some p" for p
  proof -
    obtain q where q: "payments (w_store w') i = Some q" "payment_le (abs_payment val p) (abs_payment val q)"
      using ledger_env.forward_payment [OF assms(1,3)] p assms(2) by fastforce
    moreover have "payment_same p q" using le p q(1) by (auto simp: store_le_def dest!: rowsD)
    ultimately show ?thesis by (simp add: payment_le_def payment_same_def)
  qed
  show "\<exists>q. payouts (w_store w') i = Some q \<and> payout_le p q" if "payouts (w_store w) i = Some p" for p
    using le that by (auto simp: store_le_def dest!: rowsD)
  show "payouts (w_store w') i = Some p"
    if "payouts (w_store w) i = Some p" "po_Status p \<noteq> PayoutPending" for p
    using le that by (auto simp: store_le_def payout_le_def dest!: rowsD)
  show "\<exists>e. disputes (w_store w') i = Some e \<and> dispute_le d e" if "disputes (w_store w) i = Some d" for d
    using le that by (auto simp: store_le_def dest!: rowsD)
  show "disputes (w_store w') i = Some d"
    if "disputes (w_store w) i = Some d" "di_Status d \<noteq> DisputeOpen" for d
    using le that by (auto simp: store_le_def dispute_le_def dest!: rowsD)
  show "\<exists>es. ledger (w_store w') = ledger (w_store w) @ es" using le by (simp add: store_le_def)
  show "\<exists>f. outbox (w_store w') i = Some f \<and> event_le e f" if "outbox (w_store w) i = Some e" for e
    using le that by (auto simp: store_le_def dest!: rowsD)
qed

text \<open>
  Two runs: the demo payment is captured, and its paid payout is completed a second time, as a failure and
  with another reference.
\<close>

definition demo_paid :: "(coef_exp MemoryStore, coef_exp) World" where
  "demo_paid = snd (PayoutService_Complete demo_env (memoryStore ce_pkg) (\<lambda>_. []) ''00000000-0000000'' ''r'' True demo_w4)"

definition demo_again :: "(coef_exp MemoryStore, coef_exp) World" where
  "demo_again = snd (PayoutService_Complete demo_env (memoryStore ce_pkg) (\<lambda>_. []) ''00000000-0000000'' ''x'' False demo_paid)"

lemma demo_paid_payout:
  "payouts (w_store demo_paid) ''00000000-0000000'' =
     Some (demo_payout\<lparr>po_Status := PayoutPaid, po_ProviderReference := ''r''\<rparr>)"
  by code_simp

lemma demo_runs:
  "(platform_step demo_env (memoryStore ce_pkg) (\<lambda>_. True))\<^sup>*\<^sup>* (demo_w2, {#}) (demo_w3, {#})"
  "(platform_step demo_env (memoryStore ce_pkg) (\<lambda>_. True))\<^sup>*\<^sup>* (demo_paid, {#}) (demo_again, {#})"
proof -
  let ?step = "platform_step demo_env (memoryStore ce_pkg) (\<lambda>_. True)"
  have p: "S_GetPayment (memoryStore ce_pkg) [] demo_id (w_store demo_w2) = Inr demo_authorized" by code_simp
  have "Capture_read demo_env demo_svc (\<lambda>_. []) demo_id (Dec 30 0) demo_authorized demo_w2 =
      (Inr demo_captured, demo_w3)"
    using demo_calls(3) p by (simp add: PaymentService_Capture_def)
  from step_capture [OF demo_svc_simps(1) this, of "\<lambda>_. True" "{#}"]
    read_capture [OF p, of "\<lambda>_. True" "Dec 30 0" demo_env "{#}"]
  show "?step\<^sup>*\<^sup>* (demo_w2, {#}) (demo_w3, {#})" by (blast intro: rtranclp.rtrancl_into_rtrancl)
  let ?p = "demo_payout\<lparr>po_Status := PayoutPaid, po_ProviderReference := ''r''\<rparr>"
  have q: "S_GetPayout (memoryStore ce_pkg) [] ''00000000-0000000'' (w_store demo_paid) = Inr ?p"
    by (simp add: Memory_GetPayout_def demo_paid_payout)
  let ?call = "Complete_read demo_env (memoryStore ce_pkg) (\<lambda>_. []) ''00000000-0000000'' ''x'' False ?p demo_paid"
  from q have "?call = (fst ?call, demo_again)"
    by (simp add: demo_again_def PayoutService_Complete_def)
  from step_complete [OF this, of "\<lambda>_. True" "{#}"]
    read_complete [OF q, of demo_env "\<lambda>_. True" "{#}" "''x''" False]
  show "?step\<^sup>*\<^sup>* (demo_paid, {#}) (demo_again, {#})" by (blast intro: rtranclp.rtrancl_into_rtrancl)
qed

theorem records_forward_witness:
  "(\<exists>q. payments (w_store demo_w3) demo_id = Some q \<and> p_CustomerID q = ''c'' \<and> 0 \<le> ce_val (p_CapturedAmount q) \<and>
      transition_table\<^sup>*\<^sup>* PaymentAuthorized (p_Status q)) \<and>
   payouts (w_store demo_again) ''00000000-0000000'' =
     Some (demo_payout\<lparr>po_Status := PayoutPaid, po_ProviderReference := ''r''\<rparr>)"
proof -
  have p: "payments (w_store demo_w2) demo_id = Some demo_authorized" by code_simp
  have paid: "platform_reachable demo_env (memoryStore ce_pkg) (\<lambda>_. True) NewMemory (demo_paid, {#})"
    unfolding demo_paid_def by (rule run_complete [OF demo_reachable(4)])
  note run1 = records_forward [OF demo.ledger_env_axioms demo_reachable(2) demo_runs(1),
      THEN conjunct1, rule_format, OF p]
  note run2 = records_forward [OF demo.ledger_env_axioms paid demo_runs(2),
      THEN conjunct2, THEN conjunct1, rule_format, OF demo_paid_payout, THEN conjunct2]
  from run1 run2 show ?thesis by (auto simp: demo_authorized_def demo_payment_def)
qed

end
