(* ===== verification/Service_Effects.thy ===== *)
theory Service_Effects
  imports Ledger_Totals
begin

text \<open>
  The services over the memory store, operation by operation: what a successful call writes, what
  an error leaves untouched, and how balances change. The lemmas are proved in the locale of the
  decimal laws; the properties below them restate them over the definitions.
\<close>

section \<open>Common lemmas\<close>

text \<open>What a successful money movement of a payment leaves behind.\<close>

definition payment_written ::
  "'d Env \<Rightarrow> string \<Rightarrow> 'd Payment \<Rightarrow> 'd LedgerEntry list \<Rightarrow> string
    \<Rightarrow> ('d MemoryStore, 'd) World \<Rightarrow> ('d MemoryStore, 'd) World \<Rightarrow> bool" where
  "payment_written env i q entries eventType w w' \<longleftrightarrow>
     payments (w_store w') = (payments (w_store w))(i \<mapsto> q) \<and>
     ledger (w_store w') = ledger (w_store w) @ entries \<and>
     (\<exists>e. outbox (w_store w') = (outbox (w_store w))(env_uuid env (w_next w + 2) \<mapsto> e) \<and>
        ev_EventType e = eventType \<and> ev_AggregateID e = i \<and> \<not> ev_Published e) \<and>
     keys (w_store w') = keys (w_store w) \<and> payouts (w_store w') = payouts (w_store w) \<and>
     disputes (w_store w') = disputes (w_store w) \<and> webhooks (w_store w') = webhooks (w_store w)"

text \<open>A failed transition attempt of \<open>Authorize\<close>: the payment is marked, or nothing happens.\<close>

definition marked_failed ::
  "string \<Rightarrow> string \<Rightarrow> 'd MemoryStore \<Rightarrow> 'd MemoryStore \<Rightarrow> bool" where
  "marked_failed i reference s s' \<longleftrightarrow>
     (\<exists>p. payments s i = Some p \<and> p_Status p \<in> {PaymentCreated, PaymentAuthorized} \<and>
        s' = s\<lparr>payments := (payments s)(i \<mapsto>
          p\<lparr>p_Status := PaymentFailed, p_ProviderReference := reference\<rparr>)\<rparr>)"

lemma GetPayment_Inr: "Memory_GetPayment c i s = Inr p \<longleftrightarrow> payments s i = Some p"
  by (simp add: Memory_GetPayment_def split: option.splits)

lemma GetPayment_Inl: "Memory_GetPayment c i s = Inl e \<longleftrightarrow> payments s i = None \<and> e = ErrNotFound"
  by (auto simp: Memory_GetPayment_def split: option.splits)

context decimal_laws
begin

text \<open>The status and the reference a commit writes.\<close>

lemma Memory_Commit_result:
  assumes "Memory_CommitPaymentCommand D c cmd s = (Inr q, s')"
    and "payments s (cmd_PaymentID cmd) = Some p"
  shows "q = p\<lparr>p_Status := cmd_Status cmd,
     p_CapturedAmount := (if cmd_Status cmd = PaymentCaptured
       then decAdd D (p_CapturedAmount p) (cmd_Amount cmd) else p_CapturedAmount p),
     p_RefundedAmount := (if cmd_Status cmd = PaymentRefunded
       then decAdd D (p_RefundedAmount p) (cmd_Amount cmd) else p_RefundedAmount p),
     p_ProviderReference := (if cmd_ProviderReference cmd \<noteq> [] then cmd_ProviderReference cmd
       else p_ProviderReference p)\<rparr>"
  using assms
  by (auto simp: Memory_CommitPaymentCommand_def Let_def split: if_splits sum.splits)

lemma service_commit_ok:
  assumes call: "PaymentService_commit env svc c p status amount reference entries et w = (Inr q, w')"
    and svc: "svc_Store svc = memoryStore D" and p: "payments (w_store w) (p_ID p) = Some p'"
    and inv: "memory_inv (w_store w)"
  shows "commit_guard status (val amount) (abs_payment val p')"
    and "q = p'\<lparr>p_Status := status,
     p_CapturedAmount := (if status = PaymentCaptured
       then decAdd D (p_CapturedAmount p') amount else p_CapturedAmount p'),
     p_RefundedAmount := (if status = PaymentRefunded
       then decAdd D (p_RefundedAmount p') amount else p_RefundedAmount p'),
     p_ProviderReference := (if reference \<noteq> [] then reference else p_ProviderReference p')\<rparr>"
    and "\<exists>e. w_store w' = (w_store w)\<lparr>payments := (payments (w_store w))(p_ID p \<mapsto> q),
        ledger := ledger (w_store w) @ entries,
        outbox := (outbox (w_store w))(env_uuid env (w_next w) \<mapsto> e)\<rparr> \<and>
       ev_EventType e = et \<and> ev_AggregateID e = p_ID p \<and> \<not> ev_Published e"
    and "w_calls w' = w_calls w"
proof -
  from call obtain payload s' where store: "Memory_CommitPaymentCommand D c
      \<lparr>cmd_PaymentID = p_ID p, cmd_ProviderReference = reference, cmd_EventType = [],
       cmd_Status = status, cmd_Amount = amount, cmd_Ledger = entries,
       cmd_Event = \<lparr>ev_ID = env_uuid env (w_next w), ev_AggregateID = p_ID p, ev_EventType = et,
         ev_Payload = payload, ev_Published = False\<rparr>\<rparr> (w_store w) = (Inr q, s')"
    "w' = w\<lparr>w_next := Suc (w_next w), w_store := s'\<rparr>"
    by (cases rule: PaymentService_commit_cases) (simp_all add: svc)
  have pid: "p_ID p' = p_ID p" using inv p by (simp add: memory_inv_def)
  from store(1) obtain p'' where "payments (w_store w) (p_ID p) = Some p''"
    and guard: "commit_guard status (val amount) (abs_payment val p'')"
    and s': "s' = (w_store w)\<lparr>payments := (payments (w_store w))(p_ID p'' \<mapsto> q),
        ledger := ledger (w_store w) @ entries,
        outbox := (outbox (w_store w))(env_uuid env (w_next w) \<mapsto>
          \<lparr>ev_ID = env_uuid env (w_next w), ev_AggregateID = p_ID p'', ev_EventType = et,
           ev_Payload = payload, ev_Published = False\<rparr>)\<rparr>"
    by (rule Memory_Commit_ok) simp
  with p have p'': "p'' = p'" by simp
  show "commit_guard status (val amount) (abs_payment val p')" using guard p'' by simp
  show "w_calls w' = w_calls w" using store(2) by simp
  show "\<exists>e. w_store w' = (w_store w)\<lparr>payments := (payments (w_store w))(p_ID p \<mapsto> q),
        ledger := ledger (w_store w) @ entries,
        outbox := (outbox (w_store w))(env_uuid env (w_next w) \<mapsto> e)\<rparr> \<and>
       ev_EventType e = et \<and> ev_AggregateID e = p_ID p \<and> \<not> ev_Published e"
    by (rule exI [of _ "\<lparr>ev_ID = env_uuid env (w_next w), ev_AggregateID = p_ID p,
        ev_EventType = et, ev_Payload = payload, ev_Published = False\<rparr>"])
      (simp add: store(2) s' p'' pid)
  show "q = p'\<lparr>p_Status := status,
     p_CapturedAmount := (if status = PaymentCaptured
       then decAdd D (p_CapturedAmount p') amount else p_CapturedAmount p'),
     p_RefundedAmount := (if status = PaymentRefunded
       then decAdd D (p_RefundedAmount p') amount else p_RefundedAmount p'),
     p_ProviderReference := (if reference \<noteq> [] then reference else p_ProviderReference p')\<rparr>"
    using Memory_Commit_result [OF store(1)] p by simp
qed

lemma service_commit_error:
  assumes "PaymentService_commit env svc c p status amount reference entries et w = (Inl e, w')"
    and "svc_Store svc = memoryStore D"
  shows "w_store w' = w_store w \<and> w_calls w' = w_calls w"
  using assms(1)
proof (cases rule: PaymentService_commit_cases)
  case (store payload s')
  with assms(2) Memory_Commit_error show ?thesis by fastforce
qed simp

section \<open>Capture and refund\<close>

lemma capture_ok:
  assumes svc: "env_D env = D" "svc_Store svc = memoryStore D" and inv: "memory_inv (w_store w)"
    and call: "PaymentService_Capture env svc ctx i a w = (Inr q, w')"
  shows "\<exists>p. payments (w_store w) i = Some p \<and> p_Status p \<in> {PaymentAuthorized, PaymentCaptured} \<and>
     0 < val a \<and> val (p_CapturedAmount p) + val a \<le> val (p_Amount p) \<and>
     q = p\<lparr>p_Status := PaymentCaptured, p_CapturedAmount := decAdd D (p_CapturedAmount p) a\<rparr> \<and>
     payment_written env i q (entry_pair env (w_next w) i (acct_pending (p_MerchantID p))
       (acct_available (p_MerchantID p)) (p_Currency p) a) ''payment.captured'' w w' \<and>
     w_calls w' = w_calls w @ [CallCapture p a]"
proof -
  from call svc obtain p where p: "payments (w_store w) i = Some p"
    and read: "Capture_read env svc ctx i a p w = (Inr q, w')"
    by (auto simp: PaymentService_Capture_def GetPayment_Inr split: sum.splits)
  have pid: "p_ID p = i" using inv p by (simp add: memory_inv_def)
  from read show ?thesis
  proof (cases rule: Capture_read_cases)
    case commit
    note ok = service_commit_ok [OF commit(3) svc(2), of p]
    show ?thesis
      using ok p pid inv commit(1) svc
      by (auto simp: payment_written_def commit_guard_def ValidateCapture_iff)
  qed simp_all
qed

lemma refund_ok:
  assumes svc: "env_D env = D" "svc_Store svc = memoryStore D" and inv: "memory_inv (w_store w)"
    and call: "PaymentService_Refund env svc ctx i a w = (Inr q, w')"
  shows "\<exists>p. payments (w_store w) i = Some p \<and> p_Status p \<in> {PaymentCaptured, PaymentRefunded} \<and>
     0 < val a \<and> val (p_RefundedAmount p) + val a \<le> val (p_CapturedAmount p) \<and>
     q = p\<lparr>p_Status := PaymentRefunded, p_RefundedAmount := decAdd D (p_RefundedAmount p) a\<rparr> \<and>
     payment_written env i q (entry_pair env (w_next w) i (acct_available (p_MerchantID p))
       ''customer:refunded'' (p_Currency p) a) ''payment.refunded'' w w' \<and>
     w_calls w' = w_calls w @ [CallRefund p a]"
proof -
  from call svc obtain p where p: "payments (w_store w) i = Some p"
    and read: "Refund_read env svc ctx i a p w = (Inr q, w')"
    by (auto simp: PaymentService_Refund_def GetPayment_Inr split: sum.splits)
  have pid: "p_ID p = i" using inv p by (simp add: memory_inv_def)
  from read show ?thesis
  proof (cases rule: Refund_read_cases)
    case commit
    note ok = service_commit_ok [OF commit(3) svc(2), of p]
    show ?thesis
      using ok p pid inv commit(1) svc
      by (auto simp: payment_written_def commit_guard_def ValidateRefund_iff)
  qed simp_all
qed

lemma authorize_ok:
  assumes svc: "env_D env = D" "svc_Store svc = memoryStore D" and inv: "memory_inv (w_store w)"
    and call: "PaymentService_Authorize env svc ctx i w = (Inr q, w')"
  shows "\<exists>p reference. payments (w_store w) i = Some p \<and> p_Status p = PaymentCreated \<and>
     risk_answer svc p = Inr True \<and> prov_Authorize (svc_Provider svc) p = Inr reference \<and>
     q = p\<lparr>p_Status := PaymentAuthorized, p_ProviderReference :=
           (if reference \<noteq> [] then reference else p_ProviderReference p)\<rparr> \<and>
     payment_written env i q (entry_pair env (w_next w) i ''customer:pending''
       (acct_pending (p_MerchantID p)) (p_Currency p) (p_Amount p)) ''payment.authorized'' w w' \<and>
     w_calls w' = w_calls w @ [CallAuthorize p]"
proof -
  from call svc obtain p where p: "payments (w_store w) i = Some p"
    and read: "Authorize_read env svc ctx i p w = (Inr q, w')"
    by (auto simp: PaymentService_Authorize_def GetPayment_Inr split: sum.splits)
  have pid: "p_ID p = i" using inv p by (simp add: memory_inv_def)
  from read show ?thesis
  proof (cases rule: Authorize_read_cases)
    case (commit reference)
    note ok = service_commit_ok [OF commit(3) svc(2), of p]
    show ?thesis
      using ok p pid inv commit(1,2) svc
      by (auto simp: payment_written_def commit_guard_def)
  qed simp_all
qed

text \<open>An error of \<open>Capture\<close> or \<open>Refund\<close> leaves the store as it was.\<close>

lemma capture_error:
  assumes svc: "svc_Store svc = memoryStore D"
    and call: "PaymentService_Capture env svc ctx i a w = (Inl e, w')"
  shows "w_store w' = w_store w"
proof (cases "payments (w_store w) i")
  case None
  with call svc show ?thesis by (simp add: PaymentService_Capture_def Memory_GetPayment_def)
next
  case (Some p)
  with call svc have "Capture_read env svc ctx i a p w = (Inl e, w')"
    by (simp add: PaymentService_Capture_def Memory_GetPayment_def)
  then show ?thesis
    by (cases rule: Capture_read_cases) (auto dest: service_commit_error [OF _ svc])
qed

lemma refund_error:
  assumes svc: "svc_Store svc = memoryStore D"
    and call: "PaymentService_Refund env svc ctx i a w = (Inl e, w')"
  shows "w_store w' = w_store w"
proof (cases "payments (w_store w) i")
  case None
  with call svc show ?thesis by (simp add: PaymentService_Refund_def Memory_GetPayment_def)
next
  case (Some p)
  with call svc have "Refund_read env svc ctx i a p w = (Inl e, w')"
    by (simp add: PaymentService_Refund_def Memory_GetPayment_def)
  then show ?thesis
    by (cases rule: Refund_read_cases) (auto dest: service_commit_error [OF _ svc])
qed

lemma mark_failed:
  "snd (Memory_Transition c i PaymentFailed reference s) = s \<or>
   marked_failed i reference s (snd (Memory_Transition c i PaymentFailed reference s))"
  by (auto simp: Memory_Transition_def marked_failed_def CanTransition_def Let_def
      split: option.splits)

lemma authorize_error:
  assumes svc: "svc_Store svc = memoryStore D"
    and call: "PaymentService_Authorize env svc ctx i w = (Inl e, w')"
  shows "w_store w' = w_store w \<or>
     marked_failed i ''risk_blocked'' (w_store w) (w_store w') \<or>
     marked_failed i ''provider_error'' (w_store w) (w_store w')"
proof (cases "payments (w_store w) i")
  case None
  with call svc show ?thesis by (simp add: PaymentService_Authorize_def Memory_GetPayment_def)
next
  case (Some p)
  with call svc have "Authorize_read env svc ctx i p w = (Inl e, w')"
    by (simp add: PaymentService_Authorize_def Memory_GetPayment_def)
  then show ?thesis
  proof (cases rule: Authorize_read_cases)
    case blocked
    then show ?thesis
      using mark_failed [of "ctx 1" i "''risk_blocked''" "w_store w"] svc
      by (auto simp: on_store_def split: prod.splits)
  next
    case (refused e')
    then show ?thesis
      using mark_failed [of "ctx 1" i "''provider_error''" "w_store w"] svc
      by (auto simp: on_store_def split: prod.splits)
  next
    case (commit reference)
    then show ?thesis by (auto dest: service_commit_error [OF _ svc])
  qed auto
qed

section \<open>Acceptance\<close>

text \<open>
  With a provider that accepts and decimals that have a JSON text, a capture or a refund is
  accepted exactly when the state machine and the amount check allow it.
\<close>

lemma marshalPayment_defined:
  "(\<And>x. \<exists>t. decMarshalJSON D x = Inr t) \<Longrightarrow> \<exists>t. marshalPayment D p = Inr t"
  by (auto simp: marshalPayment_def split: sum.splits) (metis Inl_Inr_False)+

lemma capture_accepts:
  assumes svc: "env_D env = D" "svc_Store svc = memoryStore D" and inv: "memory_inv (w_store w)"
    and json: "\<And>x. \<exists>t. decMarshalJSON D x = Inr t"
    and p: "payments (w_store w) i = Some p" "prov_Capture (svc_Provider svc) p a = Inr ()"
    and guard: "p_Status p \<in> {PaymentAuthorized, PaymentCaptured}" "0 < val a"
      "val (p_CapturedAmount p) + val a \<le> val (p_Amount p)"
  shows "\<exists>q w'. PaymentService_Capture env svc ctx i a w = (Inr q, w')"
proof -
  have "p_ID p = i" using inv p by (simp add: memory_inv_def)
  moreover obtain t where "marshalPayment D (commit_expected D p PaymentCaptured a (p_ProviderReference p)) = Inr t"
    using marshalPayment_defined [OF json] by blast
  moreover have "ValidateCapture D p a = Inr ()" using guard by (simp add: ValidateCapture_iff)
  ultimately show ?thesis
    using svc p guard
    by (auto simp: PaymentService_Capture_def Memory_GetPayment_def Capture_read_def Let_def
        PaymentService_commit_def on_store_def Memory_CommitPaymentCommand_def CanTransition_def
        pair_balanced)
qed

lemma refund_accepts:
  assumes svc: "env_D env = D" "svc_Store svc = memoryStore D" and inv: "memory_inv (w_store w)"
    and json: "\<And>x. \<exists>t. decMarshalJSON D x = Inr t"
    and p: "payments (w_store w) i = Some p" "prov_Refund (svc_Provider svc) p a = Inr ()"
    and guard: "p_Status p \<in> {PaymentCaptured, PaymentRefunded}" "0 < val a"
      "val (p_RefundedAmount p) + val a \<le> val (p_CapturedAmount p)"
  shows "\<exists>q w'. PaymentService_Refund env svc ctx i a w = (Inr q, w')"
proof -
  have "p_ID p = i" using inv p by (simp add: memory_inv_def)
  moreover obtain t where "marshalPayment D (commit_expected D p PaymentRefunded a (p_ProviderReference p)) = Inr t"
    using marshalPayment_defined [OF json] by blast
  moreover have "ValidateRefund D p a = Inr ()" using guard by (simp add: ValidateRefund_iff)
  ultimately show ?thesis
    using svc p guard
    by (auto simp: PaymentService_Refund_def Memory_GetPayment_def Refund_read_def Let_def
        PaymentService_commit_def on_store_def Memory_CommitPaymentCommand_def CanTransition_def
        pair_balanced)
qed

end

section \<open>Properties\<close>

lemma demo_memory_inv:
  "memory_inv (w_store demo_w1)" "memory_inv (w_store demo_w2)" "memory_inv (w_store demo_w3)"
  "memory_inv (w_store demo_w4)" "memory_inv (w_store demo_w5)"
  using demo.reach_book(1) demo_reachable by blast+

lemma ce_json: "\<exists>t. decMarshalJSON ce_pkg x = Inr t"
  by (simp add: ce_pkg_def)

text \<open>
  C21: A capture that returns a payment found it authorized or captured, for a positive amount
  within what is left of the authorized amount. It adds the amount to the captured amount, moves
  the amount from the merchant's pending to the available account by one pair of ledger entries,
  writes one unpublished event \<open>payment.captured\<close>, changes nothing else in the store, and called
  the provider exactly once with that amount.
\<close>

theorem capture_effect:
  assumes "decimal_laws D val" "env_D env = D" "svc_Store svc = memoryStore D" "memory_inv (w_store w)"
    and "PaymentService_Capture env svc ctx i a w = (Inr q, w')"
  shows "\<exists>p. payments (w_store w) i = Some p \<and> p_Status p \<in> {PaymentAuthorized, PaymentCaptured} \<and>
     0 < val a \<and> val (p_CapturedAmount p) + val a \<le> val (p_Amount p) \<and>
     q = p\<lparr>p_Status := PaymentCaptured, p_CapturedAmount := decAdd D (p_CapturedAmount p) a\<rparr> \<and>
     payment_written env i q (entry_pair env (w_next w) i (acct_pending (p_MerchantID p))
       (acct_available (p_MerchantID p)) (p_Currency p) a) ''payment.captured'' w w' \<and>
     w_calls w' = w_calls w @ [CallCapture p a]"
  using assms by (rule decimal_laws.capture_ok)

theorem capture_effect_witness:
  "payments (w_store demo_w3) demo_id = Some demo_captured \<and>
   length (ledger (w_store demo_w3)) = length (ledger (w_store demo_w2)) + 2"
  using capture_effect [OF ce.decimal_laws_axioms _ _ demo_memory_inv(2) demo_calls(3)]
  by (auto simp: payment_written_def entry_pair_def)

text \<open>
  C22: A refund that returns a payment found it captured or refunded, for a positive amount that
  keeps the refunded total within the captured amount. It adds the amount to the refunded amount,
  moves it from the merchant's available account to \<open>customer:refunded\<close>, writes one event
  \<open>payment.refunded\<close> and changes nothing else in the store.
\<close>

theorem refund_effect:
  assumes "decimal_laws D val" "env_D env = D" "svc_Store svc = memoryStore D" "memory_inv (w_store w)"
    and "PaymentService_Refund env svc ctx i a w = (Inr q, w')"
  shows "\<exists>p. payments (w_store w) i = Some p \<and> p_Status p \<in> {PaymentCaptured, PaymentRefunded} \<and>
     0 < val a \<and> val (p_RefundedAmount p) + val a \<le> val (p_CapturedAmount p) \<and>
     q = p\<lparr>p_Status := PaymentRefunded, p_RefundedAmount := decAdd D (p_RefundedAmount p) a\<rparr> \<and>
     payment_written env i q (entry_pair env (w_next w) i (acct_available (p_MerchantID p))
       ''customer:refunded'' (p_Currency p) a) ''payment.refunded'' w w' \<and>
     w_calls w' = w_calls w @ [CallRefund p a]"
  using assms by (rule decimal_laws.refund_ok)

theorem refund_effect_witness:
  "\<exists>q w'. PaymentService_Refund demo_env demo_svc (\<lambda>_. []) demo_id (Dec 5 0) demo_w3 = (Inr q, w') \<and>
     payments (w_store w') demo_id = Some q \<and> p_Status q = PaymentRefunded"
proof -
  have "fst (PaymentService_Refund demo_env demo_svc (\<lambda>_. []) demo_id (Dec 5 0) demo_w3) =
      Inr (demo_captured\<lparr>p_Status := PaymentRefunded, p_RefundedAmount := Dec 5 0\<rparr>)"
    by code_simp
  then obtain q w' where "PaymentService_Refund demo_env demo_svc (\<lambda>_. []) demo_id (Dec 5 0) demo_w3 =
      (Inr q, w')"
    by (cases "PaymentService_Refund demo_env demo_svc (\<lambda>_. []) demo_id (Dec 5 0) demo_w3") simp
  with refund_effect [OF ce.decimal_laws_axioms _ _ demo_memory_inv(3) this] show ?thesis
    by (auto simp: payment_written_def)
qed

text \<open>
  C23: An authorization that returns a payment found it freshly created, allowed by the risk
  engine and accepted by the provider. It sets the status and the provider's reference, books the
  full amount from \<open>customer:pending\<close> to the merchant's pending account and writes one event
  \<open>payment.authorized\<close>; the captured and refunded amounts stay.
\<close>

theorem authorize_effect:
  assumes "decimal_laws D val" "env_D env = D" "svc_Store svc = memoryStore D" "memory_inv (w_store w)"
    and "PaymentService_Authorize env svc ctx i w = (Inr q, w')"
  shows "\<exists>p reference. payments (w_store w) i = Some p \<and> p_Status p = PaymentCreated \<and>
     risk_answer svc p = Inr True \<and> prov_Authorize (svc_Provider svc) p = Inr reference \<and>
     q = p\<lparr>p_Status := PaymentAuthorized, p_ProviderReference :=
           (if reference \<noteq> [] then reference else p_ProviderReference p)\<rparr> \<and>
     payment_written env i q (entry_pair env (w_next w) i ''customer:pending''
       (acct_pending (p_MerchantID p)) (p_Currency p) (p_Amount p)) ''payment.authorized'' w w' \<and>
     w_calls w' = w_calls w @ [CallAuthorize p]"
  using assms by (rule decimal_laws.authorize_ok)

theorem authorize_effect_witness:
  "payments (w_store demo_w2) demo_id = Some demo_authorized \<and>
   w_calls demo_w2 = w_calls demo_w1 @ [CallAuthorize demo_payment]"
proof -
  have "payments (w_store demo_w1) demo_id = Some demo_payment"
    by code_simp
  with authorize_effect [OF ce.decimal_laws_axioms _ _ demo_memory_inv(1) demo_calls(2)] show ?thesis
    by (auto simp: payment_written_def)
qed

text \<open>
  C24: When the provider accepts, a capture of an existing payment succeeds exactly when the
  payment is authorized or captured and the amount is positive and within the remaining authorized
  amount; and a refund exactly when the payment is captured or refunded and the amount is positive
  and within what is captured and not yet refunded. No valid request is refused, no invalid one
  accepted. (That every decimal has a JSON text is a fact of the decimal package.)
\<close>

theorem capture_accepted_iff:
  assumes "decimal_laws D val" "env_D env = D" "svc_Store svc = memoryStore D" "memory_inv (w_store w)"
    and "\<And>x. \<exists>t. decMarshalJSON D x = Inr t"
    and "payments (w_store w) i = Some p" "prov_Capture (svc_Provider svc) p a = Inr ()"
      "prov_Refund (svc_Provider svc) p a = Inr ()"
  shows "((\<exists>q w'. PaymentService_Capture env svc ctx i a w = (Inr q, w')) \<longleftrightarrow>
       p_Status p \<in> {PaymentAuthorized, PaymentCaptured} \<and> 0 < val a \<and>
       val (p_CapturedAmount p) + val a \<le> val (p_Amount p)) \<and>
     ((\<exists>q w'. PaymentService_Refund env svc ctx i a w = (Inr q, w')) \<longleftrightarrow>
       p_Status p \<in> {PaymentCaptured, PaymentRefunded} \<and> 0 < val a \<and>
       val (p_RefundedAmount p) + val a \<le> val (p_CapturedAmount p))"
proof (rule conjI)
  note acc = decimal_laws.capture_accepts [OF assms(1-7)] decimal_laws.refund_accepts [OF assms(1-6,8)]
  show "(\<exists>q w'. PaymentService_Capture env svc ctx i a w = (Inr q, w')) \<longleftrightarrow>
       p_Status p \<in> {PaymentAuthorized, PaymentCaptured} \<and> 0 < val a \<and>
       val (p_CapturedAmount p) + val a \<le> val (p_Amount p)"
    using acc(1) decimal_laws.capture_ok [OF assms(1-4)] assms(6) by (metis option.inject)
  show "(\<exists>q w'. PaymentService_Refund env svc ctx i a w = (Inr q, w')) \<longleftrightarrow>
       p_Status p \<in> {PaymentCaptured, PaymentRefunded} \<and> 0 < val a \<and>
       val (p_RefundedAmount p) + val a \<le> val (p_CapturedAmount p)"
    using acc(2) decimal_laws.refund_ok [OF assms(1-4)] assms(6) by (metis option.inject)
qed

theorem capture_accepted_iff_witness:
  "(\<exists>q w'. PaymentService_Capture demo_env demo_svc (\<lambda>_. []) demo_id (Dec 19 0) demo_w3 = (Inr q, w')) \<and>
   \<not> (\<exists>q w'. PaymentService_Capture demo_env demo_svc (\<lambda>_. []) demo_id (Dec 20 0) demo_w3 = (Inr q, w'))"
proof -
  have p: "payments (w_store demo_w3) demo_id = Some demo_captured"
    by code_simp
  note iff = capture_accepted_iff [OF ce.decimal_laws_axioms _ _ demo_memory_inv(3) ce_json p, THEN conjunct1]
  have "prov_Capture (svc_Provider demo_svc) demo_captured a = Inr ()"
    "prov_Refund (svc_Provider demo_svc) demo_captured a = Inr ()" for a
    by (simp_all add: DeterministicProvider_def)
  then show ?thesis
    by (simp add: iff demo_captured_def demo_authorized_def demo_payment_def power_int_def power2_eq_square)
qed

text \<open>
  C25: A capture or a refund that returns an error leaves the store as it was: no status, no
  amount, no ledger entry and no event changes. An authorization that returns an error leaves it as
  it was too, or marks the payment, which was created or authorized, as failed, with the reference
  \<open>risk_blocked\<close> or \<open>provider_error\<close>; it never writes a ledger entry or an event.
\<close>

theorem service_errors:
  assumes "decimal_laws D val" "svc_Store svc = memoryStore D"
  shows "(PaymentService_Capture env svc ctx i a w = (Inl e, w') \<longrightarrow> w_store w' = w_store w) \<and>
     (PaymentService_Refund env svc ctx i a w = (Inl e, w') \<longrightarrow> w_store w' = w_store w) \<and>
     (PaymentService_Authorize env svc ctx i w = (Inl e, w') \<longrightarrow>
        w_store w' = w_store w \<or>
        marked_failed i ''risk_blocked'' (w_store w) (w_store w') \<or>
        marked_failed i ''provider_error'' (w_store w) (w_store w'))"
  using decimal_laws.capture_error [OF assms] decimal_laws.refund_error [OF assms]
    decimal_laws.authorize_error [OF assms]
  by blast

theorem service_errors_witness:
  "w_store (snd (PaymentService_Capture demo_env demo_svc (\<lambda>_. []) demo_id (Dec 20 0) demo_w3)) =
     w_store demo_w3"
proof -
  have "fst (PaymentService_Capture demo_env demo_svc (\<lambda>_. []) demo_id (Dec 20 0) demo_w3) =
      Inl (Err ''capture amount exceeds remaining authorized amount'')"
    by code_simp
  with service_errors [OF ce.decimal_laws_axioms demo_svc_simps(1)] show ?thesis
    by (metis prod.collapse)
qed

end
