(* ===== verification/Payout_Effects.thy ===== *)
theory Payout_Effects
  imports Service_Effects
begin

text \<open>
  Payouts and disputes over the memory store: when a call succeeds, and what it does to the
  three balances of the merchant that it can touch.
\<close>

lemma entry_balance_pair [balance_simps]:
  assumes "decimal_laws (env_D env) val"
  shows "entry_balance val account c (entry_pair env n pid dacct cacct c' a) =
     (if c' = c then (if cacct = account then val a else 0) - (if dacct = account then val a else 0)
      else 0)"
proof -
  have "val (decNil (env_D env)) = 0" using assms by (rule decimal_laws.val_Nil)
  then show ?thesis by (simp add: entry_pair_def)
qed

context decimal_laws
begin

section \<open>Payouts\<close>

lemma payout_create_run:
  assumes env: "env_D env = D"
  shows "PayoutService_Create env (memoryStore D) ctx m c a w =
     (let n = w_next w; s = w_store w; C = ToUpper (env_U env) c;
          po = \<lparr>po_ID = env_uuid env n, po_MerchantID = m, po_Currency = C, po_Amount = a,
                po_ProviderReference = [], po_Status = PayoutPending\<rparr>
      in if m = [] \<or> length c \<noteq> 3 \<or> \<not> 0 < val a then (Inl (Err ''invalid payout''), w)
         else if entry_balance val (acct_available m) C (ledger s) < val a
         then (Inl (Err ''insufficient available balance''), w\<lparr>w_next := n + 4\<rparr>)
         else (Inr po, w\<lparr>w_next := n + 4,
           w_store := s\<lparr>payouts := (payouts s)(env_uuid env n \<mapsto> po),
             ledger := ledger s @ entry_pair env (n + 1) [] (acct_available m)
               (acct_payout_pending m) C a,
             outbox := (outbox s)(env_uuid env (n + 3) \<mapsto>
               \<lparr>ev_ID = env_uuid env (n + 3), ev_AggregateID = env_uuid env n,
                ev_EventType = ''payout.created'',
                ev_Payload = payload_of (marshalPayout D po), ev_Published = False\<rparr>)\<rparr>\<rparr>))"
  using pair_balanced [OF env]
  by (simp add: PayoutService_Create_def NewPayout_def env on_store_def Memory_CreatePayout_def Let_def)

lemma payout_complete_run:
  assumes env: "env_D env = D" and po: "payouts (w_store w) i = Some po"
    and pos: "0 < val (po_Amount po)"
  shows "PayoutService_Complete env (memoryStore D) ctx i reference success w =
     (let n = w_next w; s = w_store w; m = po_MerchantID po;
          po' = po\<lparr>po_Status := (if success then PayoutPaid else PayoutFailed),
                  po_ProviderReference := reference\<rparr>
      in if po_Status po \<noteq> PayoutPending
         then (Inl (Err ''payout is already resolved''), w\<lparr>w_next := n + 3\<rparr>)
         else (Inr po', w\<lparr>w_next := n + 3,
           w_store := s\<lparr>payouts := (payouts s)(i \<mapsto> po'),
             ledger := ledger s @ entry_pair env n [] (acct_payout_pending m)
               (if success then ''provider:payout_settled'' else acct_available m)
               (po_Currency po) (po_Amount po),
             outbox := (outbox s)(env_uuid env (n + 2) \<mapsto>
               \<lparr>ev_ID = env_uuid env (n + 2), ev_AggregateID = i,
                ev_EventType = (if success then ''payout.paid'' else ''payout.failed''),
                ev_Payload = payload_of (marshalPayout D po'), ev_Published = False\<rparr>)\<rparr>\<rparr>))"
  using pair_balanced [OF env] pos po
  by (cases success) (simp_all add: PayoutService_Complete_def Complete_read_def env on_store_def
      Memory_GetPayout_def Memory_TransitionPayout_def Let_def)

lemma payout_complete_missing:
  "payouts (w_store w) i = None \<Longrightarrow>
   PayoutService_Complete env (memoryStore D) ctx i reference success w = (Inl ErrNotFound, w)"
  by (simp add: PayoutService_Complete_def Memory_GetPayout_def)

section \<open>Disputes\<close>

lemma dispute_open_run:
  assumes env: "env_D env = D" and p: "payments (w_store w) i = Some p"
    and ok: "i \<noteq> []" "p_MerchantID p \<noteq> []" "length (p_Currency p) = 3"
  shows "DisputeService_Open env (memoryStore D) ctx i reason a w =
     (let n = w_next w; s = w_store w; m = p_MerchantID p;
          d = \<lparr>di_ID = env_uuid env n, di_PaymentID = i, di_MerchantID = m,
               di_Currency = ToUpper (env_U env) (p_Currency p), di_Reason = reason,
               di_Amount = a, di_Status = DisputeOpen\<rparr>
      in if \<not> 0 < val a \<or> val (p_CapturedAmount p) - val (p_RefundedAmount p) < val a
         then (Inl (Err ''dispute amount exceeds settled payment amount''), w)
         else if reason = [] then (Inl (Err ''invalid dispute''), w)
         else if disputes s (env_uuid env n) \<noteq> None
         then (Inl (Err ''dispute already exists''), w\<lparr>w_next := n + 4\<rparr>)
         else (Inr d, w\<lparr>w_next := n + 4,
           w_store := s\<lparr>disputes := (disputes s)(env_uuid env n \<mapsto> d),
             ledger := ledger s @ entry_pair env (n + 1) i (acct_available m)
               (acct_dispute_frozen m) (p_Currency p) a,
             outbox := (outbox s)(env_uuid env (n + 3) \<mapsto>
               \<lparr>ev_ID = env_uuid env (n + 3), ev_AggregateID = env_uuid env n,
                ev_EventType = ''dispute.opened'',
                ev_Payload = payload_of (marshalDispute D d), ev_Published = False\<rparr>)\<rparr>\<rparr>))"
  using pair_balanced [OF env] p ok
  by (simp add: DisputeService_Open_def Open_read_def Memory_GetPayment_def NewDispute_def env
      on_store_def Memory_CreateDispute_def Let_def)

lemma dispute_resolve_run:
  assumes env: "env_D env = D" and d: "disputes (w_store w) i = Some d"
    and pos: "0 < val (di_Amount d)"
  shows "DisputeService_Resolve env (memoryStore D) ctx i wins w =
     (let n = (if wins then w_next w + 2 else w_next w); s = w_store w; m = di_MerchantID d;
          d' = d\<lparr>di_Status := (if wins then DisputeWon else DisputeLost)\<rparr>
      in if di_Status d \<noteq> DisputeOpen
         then (Inl (Err ''dispute is already resolved''), w\<lparr>w_next := n + 3\<rparr>)
         else (Inr d', w\<lparr>w_next := n + 3,
           w_store := s\<lparr>disputes := (disputes s)(i \<mapsto> d'),
             ledger := ledger s @ entry_pair env n (di_PaymentID d) (acct_dispute_frozen m)
               (if wins then acct_available m else ''customer:chargeback'')
               (di_Currency d) (di_Amount d),
             outbox := (outbox s)(env_uuid env (n + 2) \<mapsto>
               \<lparr>ev_ID = env_uuid env (n + 2), ev_AggregateID = i,
                ev_EventType = (if wins then ''dispute.won'' else ''dispute.lost''),
                ev_Payload = payload_of (marshalDispute D d'), ev_Published = False\<rparr>)\<rparr>\<rparr>))"
  using pair_balanced [OF env] pos d
  by (cases wins) (simp_all add: DisputeService_Resolve_def Resolve_read_def Memory_GetDispute_def env
      on_store_def Memory_ResolveDispute_def Let_def eval_nat_numeral)

end

section \<open>Properties\<close>

text \<open>The three balances of a merchant in a currency that payouts and disputes move.\<close>

definition available_of :: "('d \<Rightarrow> rat) \<Rightarrow> string \<Rightarrow> string \<Rightarrow> 'd MemoryStore \<Rightarrow> rat" where
  "available_of val m c s = entry_balance val (acct_available m) c (ledger s)"

definition reserved_of :: "('d \<Rightarrow> rat) \<Rightarrow> string \<Rightarrow> string \<Rightarrow> 'd MemoryStore \<Rightarrow> rat" where
  "reserved_of val m c s = entry_balance val (acct_payout_pending m) c (ledger s)"

definition frozen_of :: "('d \<Rightarrow> rat) \<Rightarrow> string \<Rightarrow> string \<Rightarrow> 'd MemoryStore \<Rightarrow> rat" where
  "frozen_of val m c s = entry_balance val (acct_dispute_frozen m) c (ledger s)"

text \<open>The two accounts outside the merchants that settled payouts and lost disputes go to.\<close>

definition settled_of :: "('d \<Rightarrow> rat) \<Rightarrow> string \<Rightarrow> 'd MemoryStore \<Rightarrow> rat" where
  "settled_of val c s = entry_balance val ''provider:payout_settled'' c (ledger s)"

definition chargeback_of :: "('d \<Rightarrow> rat) \<Rightarrow> string \<Rightarrow> 'd MemoryStore \<Rightarrow> rat" where
  "chargeback_of val c s = entry_balance val ''customer:chargeback'' c (ledger s)"

lemmas balance_defs = available_of_def reserved_of_def frozen_of_def settled_of_def chargeback_of_def

text \<open>
  C17: A payout is created exactly when the request is well formed and its amount is covered
  by the merchant's available balance in the upper-cased currency. It then moves the amount from
  the available to the reserved balance, so the available balance stays non-negative; the
  balances of every other merchant and currency stay. A refused payout leaves the store as it was.
\<close>

theorem payout_create_sound:
  assumes "decimal_laws D val" "env_D env = D"
    and "PayoutService_Create env (memoryStore D) ctx m c a w = (r, w')"
    and "C = ToUpper (env_U env) c" "s = w_store w" "s' = w_store w'"
  shows "if m \<noteq> [] \<and> length c = 3 \<and> 0 < val a \<and> val a \<le> available_of val m C s
     then (\<exists>po. r = Inr po \<and> payouts s' = (payouts s)(po_ID po \<mapsto> po) \<and>
             po_MerchantID po = m \<and> po_Currency po = C \<and> po_Amount po = a \<and> po_Status po = PayoutPending) \<and>
       available_of val m C s' = available_of val m C s - val a \<and> 0 \<le> available_of val m C s' \<and>
       reserved_of val m C s' = reserved_of val m C s + val a \<and>
       (\<forall>m' c'. frozen_of val m' c' s' = frozen_of val m' c' s \<and>
          (m' \<noteq> m \<or> c' \<noteq> C \<longrightarrow> available_of val m' c' s' = available_of val m' c' s \<and>
                              reserved_of val m' c' s' = reserved_of val m' c' s))
     else (\<exists>e. r = Inl e) \<and> s' = s"
proof -
  note run = assms(3) [unfolded decimal_laws.payout_create_run [OF assms(1,2)] Let_def, symmetric]
  have D: "decimal_laws (env_D env) val" using assms(1,2) by simp
  show ?thesis
    using run unfolding assms(4-6)
    by (auto simp: balance_defs entry_balance_pair [OF D] split: if_splits)
qed

theorem payout_create_sound_witness:
  "available_of ce_val ''m'' ''USD'' (w_store demo_w4) = 20"
proof -
  have val_available: "Memory_AvailableBalance ce_pkg [] ''m'' ''USD'' (w_store demo_w3) = Inr (Dec 30 0)"
    by code_simp
  have upper: "ToUpper (env_U demo_env) ''USD'' = ''USD''" by code_simp
  have "available_of ce_val ''m'' ''USD'' (w_store demo_w3) = 30"
    using arg_cong [OF val_available, of "\<lambda>x. ce_val (projr x)"]
    by (simp add: Memory_AvailableBalance_def available_of_def)
  with payout_create_sound [where env = demo_env and ctx = "\<lambda>_. []" and m = "''m''" and
      c = "''USD''" and a = "Dec 10 0" and w = demo_w3,
      OF ce.decimal_laws_axioms _ surjective_pairing refl refl refl]
  show ?thesis by (simp add: upper demo_w4_def)
qed

text \<open>
  C18: Completing a pending payout releases its amount from the reserved balance: to the
  provider's account \<open>provider:payout_settled\<close> when it was paid, back to the available balance when it
  failed, and the balance of no other account moves in any currency. Afterwards every further completion of that payout, whatever its outcome, is refused and
  leaves the store as it was; so a payout is settled or returned at most once.
\<close>

theorem payout_complete_once:
  assumes "decimal_laws D val" "env_D env = D"
    and "payouts (w_store w) i = Some po" "0 < val (po_Amount po)" "po_Status po = PayoutPending"
    and "PayoutService_Complete env (memoryStore D) ctx i reference success w = (r, w')"
    and "s = w_store w" "s' = w_store w'" "m = po_MerchantID po" "c = po_Currency po"
  shows "payouts s' i = Some (po\<lparr>po_Status := (if success then PayoutPaid else PayoutFailed),
                                po_ProviderReference := reference\<rparr>) \<and>
     reserved_of val m c s' = reserved_of val m c s - val (po_Amount po) \<and>
     available_of val m c s' = available_of val m c s + (if success then 0 else val (po_Amount po)) \<and>
     settled_of val c s' = settled_of val c s + (if success then val (po_Amount po) else 0) \<and>
     (\<forall>account c'. c' \<noteq> c \<or> account \<notin> {acct_payout_pending m,
          if success then ''provider:payout_settled'' else acct_available m} \<longrightarrow>
        entry_balance val account c' (ledger s') = entry_balance val account c' (ledger s)) \<and>
     (\<forall>m' c'. frozen_of val m' c' s' = frozen_of val m' c' s \<and>
        (m' \<noteq> m \<or> c' \<noteq> c \<longrightarrow> available_of val m' c' s' = available_of val m' c' s \<and>
                            reserved_of val m' c' s' = reserved_of val m' c' s)) \<and>
     (\<forall>ctx' reference' success'. \<exists>w''.
        PayoutService_Complete env (memoryStore D) ctx' i reference' success' w' =
          (Inl (Err ''payout is already resolved''), w'') \<and> w_store w'' = w_store w')"
proof -
  note run = assms(6) [unfolded decimal_laws.payout_complete_run [OF assms(1-4)] Let_def, symmetric]
  have D: "decimal_laws (env_D env) val" using assms(1,2) by simp
  define po' where "po' = po\<lparr>po_Status := (if success then PayoutPaid else PayoutFailed),
                              po_ProviderReference := reference\<rparr>"
  have po': "payouts (w_store w') i = Some po'" "0 < val (po_Amount po')" "po_Status po' \<noteq> PayoutPending"
    using run assms(4,5) by (auto simp: po'_def)
  have "\<exists>w''. PayoutService_Complete env (memoryStore D) ctx' i reference' success' w' =
      (Inl (Err ''payout is already resolved''), w'') \<and> w_store w'' = w_store w'" for ctx' reference' success'
    using decimal_laws.payout_complete_run [OF assms(1,2) po'(1,2)] po'(3) by (simp add: Let_def)
  then show ?thesis
    using run assms(5) po'(1) unfolding assms(7-10)
    by (auto simp: balance_defs po'_def entry_balance_pair [OF D] split: if_splits)
qed

theorem payout_complete_once_witness:
  "available_of ce_val ''m'' ''USD'' (w_store (snd (PayoutService_Complete demo_env
       (memoryStore ce_pkg) (\<lambda>_. []) ''00000000-0000000'' ''r'' False demo_w4))) =
     available_of ce_val ''m'' ''USD'' (w_store demo_w4) + 10 \<and>
   settled_of ce_val ''USD'' (w_store (snd (PayoutService_Complete demo_env
       (memoryStore ce_pkg) (\<lambda>_. []) ''00000000-0000000'' ''r'' True demo_w4))) =
     settled_of ce_val ''USD'' (w_store demo_w4) + 10"
proof -
  define po where "po = \<lparr>po_ID = ''00000000-0000000'', po_MerchantID = ''m'', po_Currency = ''USD'',
    po_Amount = Dec 10 0, po_ProviderReference = [], po_Status = PayoutPending\<rparr>"
  have po: "payouts (w_store demo_w4) ''00000000-0000000'' = Some po"
    unfolding po_def by code_simp
  show ?thesis
    using payout_complete_once [where env = demo_env and ctx = "\<lambda>_. []" and reference = "''r''" and
      success = False and w = demo_w4, OF ce.decimal_laws_axioms _ po _ _ surjective_pairing refl refl refl refl]
      payout_complete_once [where env = demo_env and ctx = "\<lambda>_. []" and reference = "''r''" and
      success = True and w = demo_w4, OF ce.decimal_laws_axioms _ po _ _ surjective_pairing refl refl refl refl]
    by (simp add: po_def)
qed

text \<open>
  C19: A dispute on an existing payment is opened exactly when its amount is positive and at
  most the captured amount not yet refunded and a reason is given. It then moves the amount from
  the available to the frozen balance of the payment's merchant and no other balance moves; a
  refused dispute leaves the store as it was. The hypotheses on the payment are those under which
  \<open>NewDispute\<close> accepts it: \<open>NewPayment\<close> guarantees the merchant and three bytes of the currency before
  upper-casing, which keeps the length of every ASCII code. The fresh identifier is one no dispute has.
\<close>

theorem dispute_open_sound:
  assumes "decimal_laws D val" "env_D env = D"
    and "payments (w_store w) i = Some p" "i \<noteq> []" "p_MerchantID p \<noteq> []" "length (p_Currency p) = 3"
    and "disputes (w_store w) (env_uuid env (w_next w)) = None"
    and "DisputeService_Open env (memoryStore D) ctx i reason a w = (r, w')"
    and "s = w_store w" "s' = w_store w'" "m = p_MerchantID p" "c = p_Currency p"
  shows "if 0 < val a \<and> val a \<le> val (p_CapturedAmount p) - val (p_RefundedAmount p) \<and> reason \<noteq> []
     then (\<exists>d. r = Inr d \<and> disputes s' = (disputes s)(di_ID d \<mapsto> d) \<and> di_PaymentID d = i \<and>
             di_MerchantID d = m \<and> di_Amount d = a \<and> di_Status d = DisputeOpen) \<and>
       available_of val m c s' = available_of val m c s - val a \<and>
       frozen_of val m c s' = frozen_of val m c s + val a \<and>
       (\<forall>m' c'. reserved_of val m' c' s' = reserved_of val m' c' s \<and>
          (m' \<noteq> m \<or> c' \<noteq> c \<longrightarrow> available_of val m' c' s' = available_of val m' c' s \<and>
                              frozen_of val m' c' s' = frozen_of val m' c' s))
     else (\<exists>e. r = Inl e) \<and> s' = s"
proof -
  note run = assms(8) [unfolded decimal_laws.dispute_open_run [OF assms(1-6)] Let_def, symmetric]
  have D: "decimal_laws (env_D env) val" using assms(1,2) by simp
  show ?thesis
    using run assms(7) unfolding assms(9-12)
    by (auto simp: balance_defs entry_balance_pair [OF D] split: if_splits)
qed

theorem dispute_open_sound_witness:
  "frozen_of ce_val ''m'' ''USD'' (w_store demo_w5) = frozen_of ce_val ''m'' ''USD'' (w_store demo_w4) + 5"
proof -
  have p: "payments (w_store demo_w4) demo_id = Some demo_captured" by code_simp
  have "disputes (w_store demo_w4) (env_uuid demo_env (w_next demo_w4)) = None" by code_simp
  then show ?thesis
    using dispute_open_sound [where env = demo_env and ctx = "\<lambda>_. []" and reason = "''fraud''" and
      a = "Dec 5 0" and w = demo_w4, OF ce.decimal_laws_axioms _ p _ _ _ _ surjective_pairing refl refl refl refl]
    by (simp add: demo_w5_def demo_captured_def demo_authorized_def demo_payment_def)
qed

text \<open>
  C20: Resolving an open dispute releases the frozen amount: back to the available balance
  when the merchant wins, to \<open>customer:chargeback\<close> when it loses, and the balance of no other account
  moves in any currency.
  Afterwards every further resolution of that dispute is refused and leaves the store as it was.
\<close>

theorem dispute_resolve_once:
  assumes "decimal_laws D val" "env_D env = D"
    and "disputes (w_store w) i = Some d" "0 < val (di_Amount d)" "di_Status d = DisputeOpen"
    and "DisputeService_Resolve env (memoryStore D) ctx i wins w = (r, w')"
    and "s = w_store w" "s' = w_store w'" "m = di_MerchantID d" "c = di_Currency d"
  shows "disputes s' i = Some (d\<lparr>di_Status := (if wins then DisputeWon else DisputeLost)\<rparr>) \<and>
     frozen_of val m c s' = frozen_of val m c s - val (di_Amount d) \<and>
     available_of val m c s' = available_of val m c s + (if wins then val (di_Amount d) else 0) \<and>
     chargeback_of val c s' = chargeback_of val c s + (if wins then 0 else val (di_Amount d)) \<and>
     (\<forall>account c'. c' \<noteq> c \<or> account \<notin> {acct_dispute_frozen m,
          if wins then acct_available m else ''customer:chargeback''} \<longrightarrow>
        entry_balance val account c' (ledger s') = entry_balance val account c' (ledger s)) \<and>
     (\<forall>m' c'. reserved_of val m' c' s' = reserved_of val m' c' s \<and>
        (m' \<noteq> m \<or> c' \<noteq> c \<longrightarrow> available_of val m' c' s' = available_of val m' c' s \<and>
                            frozen_of val m' c' s' = frozen_of val m' c' s)) \<and>
     (\<forall>ctx' wins'. \<exists>w''.
        DisputeService_Resolve env (memoryStore D) ctx' i wins' w' =
          (Inl (Err ''dispute is already resolved''), w'') \<and> w_store w'' = w_store w')"
proof -
  note run = assms(6) [unfolded decimal_laws.dispute_resolve_run [OF assms(1-4)] Let_def, symmetric]
  have D: "decimal_laws (env_D env) val" using assms(1,2) by simp
  define d' where "d' = d\<lparr>di_Status := (if wins then DisputeWon else DisputeLost)\<rparr>"
  have d': "disputes (w_store w') i = Some d'" "0 < val (di_Amount d')" "di_Status d' \<noteq> DisputeOpen"
    using run assms(4,5) by (auto simp: d'_def)
  have "\<exists>w''. DisputeService_Resolve env (memoryStore D) ctx' i wins' w' =
      (Inl (Err ''dispute is already resolved''), w'') \<and> w_store w'' = w_store w'" for ctx' wins'
    using decimal_laws.dispute_resolve_run [OF assms(1,2) d'(1,2)] d'(3) by (simp add: Let_def)
  then show ?thesis
    using run assms(5) d'(1) unfolding assms(7-10)
    by (auto simp: balance_defs d'_def entry_balance_pair [OF D] split: if_splits)
qed

theorem dispute_resolve_once_witness:
  "available_of ce_val ''m'' ''USD'' (w_store (snd (DisputeService_Resolve demo_env
       (memoryStore ce_pkg) (\<lambda>_. []) ''00000000-00000000000'' True demo_w5))) =
     available_of ce_val ''m'' ''USD'' (w_store demo_w5) + 5 \<and>
   chargeback_of ce_val ''USD'' (w_store (snd (DisputeService_Resolve demo_env
       (memoryStore ce_pkg) (\<lambda>_. []) ''00000000-00000000000'' False demo_w5))) =
     chargeback_of ce_val ''USD'' (w_store demo_w5) + 5"
proof -
  define d where "d = \<lparr>di_ID = ''00000000-00000000000'', di_PaymentID = demo_id,
    di_MerchantID = ''m'', di_Currency = ''USD'', di_Reason = ''fraud'', di_Amount = Dec 5 0,
    di_Status = DisputeOpen\<rparr>"
  have d: "disputes (w_store demo_w5) ''00000000-00000000000'' = Some d"
    unfolding d_def by code_simp
  show ?thesis
    using dispute_resolve_once [where env = demo_env and ctx = "\<lambda>_. []" and wins = True and
      w = demo_w5, OF ce.decimal_laws_axioms _ d _ _ surjective_pairing refl refl refl refl]
      dispute_resolve_once [where env = demo_env and ctx = "\<lambda>_. []" and wins = False and
      w = demo_w5, OF ce.decimal_laws_axioms _ d _ _ surjective_pairing refl refl refl refl]
    by (simp add: d_def)
qed

end
