(* ===== verification/Go_Crypto.thy ===== *)
theory Go_Crypto
  imports Go_Strings "HOL-Library.Word"
begin

unbundle bit_operations_syntax

text \<open>
  The functions of the packages crypto/sha256, crypto/hmac and crypto/subtle of Go's standard
  library that the code calls: SHA-256 (FIPS 180-4) and HMAC (RFC 2104) on byte strings, and the
  comparison of byte strings. A byte is a \<open>char\<close>.
\<close>

section \<open>SHA-256\<close>

text \<open>
  The constants of the standard are the first 32 bits of the fractional parts of the cube roots of
  the first 64 primes and of the square roots of the first 8. \<open>root_bits k n x b\<close> adds to \<open>x\<close> the
  bits below \<open>b\<close> that keep its \<open>k\<close>-th power at most \<open>n\<close>.
\<close>

fun root_bits :: "nat \<Rightarrow> nat \<Rightarrow> nat \<Rightarrow> nat \<Rightarrow> nat" where
  "root_bits k n x 0 = x"
| "root_bits k n x (Suc b) = root_bits k n (if (x + 2 ^ b) ^ k \<le> n then x + 2 ^ b else x) b"

definition fraction_bits :: "nat \<Rightarrow> nat \<Rightarrow> 32 word" where
  "fraction_bits k p = word_of_nat (root_bits k (p * 2 ^ (32 * k)) 0 40)"

definition small_primes :: "nat list" where
  "small_primes = filter (\<lambda>n. list_all (\<lambda>d. \<not> d dvd n) [2..<n]) [2..<312]"

definition sha256_K :: "32 word list" where
  "sha256_K = map (fraction_bits 3) small_primes"

definition sha256_H0 :: "32 word list" where
  "sha256_H0 = map (fraction_bits 2) [2, 3, 5, 7, 11, 13, 17, 19]"

definition be32_word :: "char \<Rightarrow> char \<Rightarrow> char \<Rightarrow> char \<Rightarrow> 32 word" where
  "be32_word a b c d =
     word_of_nat (((of_char a * 256 + of_char b) * 256 + of_char c) * 256 + of_char d)"

definition be_bytes :: "nat \<Rightarrow> nat \<Rightarrow> string" where
  "be_bytes k n = map (\<lambda>i. char_of (n div 256 ^ (k - 1 - i))) [0..<k]"

fun be32_words :: "string \<Rightarrow> 32 word list" where
  "be32_words (a # b # c # d # bs) = be32_word a b c d # be32_words bs"
| "be32_words _ = []"

definition sha256_pad :: "string \<Rightarrow> string" where
  "sha256_pad m = m @ char_of (128 :: nat) # replicate ((119 - length m mod 64) mod 64) (char_of (0 :: nat))
     @ be_bytes 8 (8 * length m)"

fun sha256_schedule :: "nat \<Rightarrow> 32 word list \<Rightarrow> 32 word list" where
  "sha256_schedule 0 ws = ws"
| "sha256_schedule (Suc n) ws =
     (let t = length ws; x = ws ! (t - 15); y = ws ! (t - 2);
          s0 = word_rotr 7 x XOR word_rotr 18 x XOR drop_bit 3 x;
          s1 = word_rotr 17 y XOR word_rotr 19 y XOR drop_bit 10 y
      in sha256_schedule n (ws @ [ws ! (t - 16) + s0 + ws ! (t - 7) + s1]))"

fun sha256_round :: "32 word \<times> 32 word \<Rightarrow> 32 word list \<Rightarrow> 32 word list" where
  "sha256_round (k, w) [a, b, c, d, e, f, g, h] =
     (let s1 = word_rotr 6 e XOR word_rotr 11 e XOR word_rotr 25 e;
          ch = (e AND f) XOR (NOT e AND g);
          t1 = h + s1 + ch + k + w;
          s0 = word_rotr 2 a XOR word_rotr 13 a XOR word_rotr 22 a;
          maj = (a AND b) XOR (a AND c) XOR (b AND c)
      in [t1 + s0 + maj, a, b, c, d + t1, e, f, g])"
| "sha256_round _ hs = hs"

definition sha256_block :: "32 word list \<Rightarrow> string \<Rightarrow> 32 word list" where
  "sha256_block hs block =
     map2 (+) hs (fold sha256_round (zip sha256_K (sha256_schedule 48 (be32_words block))) hs)"

fun sha256_blocks :: "nat \<Rightarrow> 32 word list \<Rightarrow> string \<Rightarrow> 32 word list" where
  "sha256_blocks 0 hs bs = hs"
| "sha256_blocks (Suc n) hs bs = sha256_blocks n (sha256_block hs (take 64 bs)) (drop 64 bs)"

definition sha256 :: "string \<Rightarrow> string" where
  "sha256 m = (let p = sha256_pad m
     in concat (map (\<lambda>w. be_bytes 4 (unat w)) (sha256_blocks (length p div 64) sha256_H0 p)))"

section \<open>HMAC\<close>

definition xor_pad :: "nat \<Rightarrow> string \<Rightarrow> string" where
  "xor_pad v k = map (\<lambda>c. char_of (of_char c XOR v)) k"

definition hmac_key :: "string \<Rightarrow> string" where
  "hmac_key key = (let k = (if length key > 64 then sha256 key else key)
     in k @ replicate (64 - length k) (char_of (0 :: nat)))"

definition hmac_sha256 :: "string \<Rightarrow> string \<Rightarrow> string" where
  "hmac_sha256 key m =
     sha256 (xor_pad 0x5c (hmac_key key) @ sha256 (xor_pad 0x36 (hmac_key key) @ m))"

text \<open>\<open>hmac.Equal\<close> and \<open>subtle.ConstantTimeCompare(x, y) == 1\<close>: the same length and bytes.\<close>

definition ConstantTimeCompare :: "string \<Rightarrow> string \<Rightarrow> int" where
  "ConstantTimeCompare x y = (if length x = length y \<and> list_all2 (=) x y then 1 else 0)"

lemma ConstantTimeCompare_iff: "ConstantTimeCompare x y = 1 \<longleftrightarrow> x = y"
  by (auto simp: ConstantTimeCompare_def list.rel_eq)

lemma length_be_bytes [simp]: "length (be_bytes k n) = k"
  by (simp add: be_bytes_def)

lemma length_sha256_round [simp]: "length (sha256_round kw hs) = length hs"
  by (cases "(kw, hs)" rule: sha256_round.cases) (auto simp: Let_def)

lemma length_fold_round [simp]: "length (fold sha256_round kws hs) = length hs"
  by (induction kws arbitrary: hs) simp_all

lemma length_sha256_blocks: "length (sha256_blocks n hs bs) = length hs"
  by (induction n arbitrary: hs bs) (simp_all add: sha256_block_def)

lemma length_sha256 [simp]: "length (sha256 m) = 32"
proof -
  have "length (concat (map (\<lambda>w. be_bytes 4 (unat w)) (ws :: 32 word list))) = 4 * length ws" for ws
    by (induction ws) simp_all
  then show ?thesis by (simp add: sha256_def Let_def length_sha256_blocks sha256_H0_def)
qed

lemma length_hmac_sha256 [simp]: "length (hmac_sha256 key m) = 32"
  by (simp add: hmac_sha256_def)

end
