(* ===== verification/Outbox.thy ===== *)
theory Outbox
  imports Store_Interface Go_Crypto
begin

text \<open>
  The outbox worker and the publishers (src/internal/service/outbox.go), and the publisher and the
  loop of the worker process (src/cmd/worker/main.go). What leaves the process is a history of
  messages; the outside world, the broker and the merchant's endpoint, answers according to that
  history, so it may answer differently every time.
\<close>

section \<open>The outside world\<close>

record HttpRequest =
  hr_Method :: string
  hr_URL :: string
  hr_Body :: string
  hr_Header :: "(string \<times> string) list"

datatype Sent = SentLog string | SentNats string string string | SentHttp HttpRequest

type_synonym history = "Sent list"

text \<open>
  \<open>net_Publish h subject data id\<close> is the answer of \<open>js.Publish\<close>, \<open>net_Do h r\<close> the status code or the
  error of \<open>client.Do\<close>, \<open>net_ParseURL u\<close> tells whether \<open>http.NewRequestWithContext\<close> accepts the
  URL, and \<open>net_Done h\<close> is the error of the context when the wait after a failed attempt ends by
  \<open>ctx.Done()\<close>.
\<close>

record Net =
  net_Publish :: "history \<Rightarrow> string \<Rightarrow> string \<Rightarrow> string \<Rightarrow> error option"
  net_Do :: "history \<Rightarrow> HttpRequest \<Rightarrow> nat result"
  net_ParseURL :: "string \<Rightarrow> unit result"
  net_Done :: "history \<Rightarrow> error option"

type_synonym EventPublisher = "OutboxEvent \<Rightarrow> (history, unit) op"

section \<open>Publishers\<close>

text \<open>Publishes to each in turn and stops at the first error.\<close>

fun CompositePublisher_Publish :: "EventPublisher list \<Rightarrow> EventPublisher" where
  "CompositePublisher_Publish [] event h = (Inr (), h)"
| "CompositePublisher_Publish (publisher # publishers) event h =
     (case publisher event h of
        (Inl e, h') \<Rightarrow> (Inl e, h')
      | (Inr _, h') \<Rightarrow> CompositePublisher_Publish publishers event h')"

definition LogPublisher_Publish :: EventPublisher where
  "LogPublisher_Publish event h =
     (Inr (), h @ [SentLog (''published event id='' @ ev_ID event @ '' type='' @ ev_EventType event
        @ '' aggregate='' @ ev_AggregateID event)])"

definition js_Publish :: "Net \<Rightarrow> string \<Rightarrow> EventPublisher" where
  "js_Publish net subject event h =
     (case net_Publish net h subject (ev_Payload event) (ev_ID event) of
        None \<Rightarrow> Inr () | Some e \<Rightarrow> Inl e,
      h @ [SentNats subject (ev_Payload event) (ev_ID event)])"

definition NATSPublisher_Publish :: "Net \<Rightarrow> EventPublisher" where
  "NATSPublisher_Publish net = js_Publish net ''payments.events''"

definition NATSDeadLetterPublisher_Publish :: "Net \<Rightarrow> EventPublisher" where
  "NATSDeadLetterPublisher_Publish net = js_Publish net ''payments.webhooks.dlq''"

section \<open>Connecting to the broker\<close>

text \<open>
  The calls \<open>NewNATSPublisher\<close> makes on the client library, with their answers as parameters:
  \<open>None\<close> is success.
\<close>

datatype NatsCall =
  NConnect string | NJetStream | NStreamInfo string | NAddStream string "string list" | NClose

record NatsClient =
  nc_Connect :: "string \<Rightarrow> error option"
  nc_JetStream :: "error option"
  nc_StreamInfo :: "string \<Rightarrow> error option"
  nc_AddStream :: "string \<Rightarrow> string list \<Rightarrow> error option"
  nc_ErrStreamNotFound :: error

definition NewNATSPublisher :: "NatsClient \<Rightarrow> string \<Rightarrow> unit result \<times> NatsCall list" where
  "NewNATSPublisher nc url =
     (case nc_Connect nc url of
        Some e \<Rightarrow> (Inl e, [NConnect url])
      | None \<Rightarrow>
     (case nc_JetStream nc of
        Some e \<Rightarrow> (Inl e, [NConnect url, NJetStream, NClose])
      | None \<Rightarrow>
          (let stream = ''PAYMENT_EVENTS'';
               subjects = [''payments.events'', ''payments.webhooks.dlq''];
               err = nc_StreamInfo nc stream;
               calls = [NConnect url, NJetStream, NStreamInfo stream];
               missing = (err = Some (nc_ErrStreamNotFound nc));
               err' = (if missing then nc_AddStream nc stream subjects else err);
               calls' = (if missing then calls @ [NAddStream stream subjects] else calls)
           in case err' of
                Some e \<Rightarrow> (Inl e, calls' @ [NClose])
              | None \<Rightarrow> (Inr (), calls'))))"

section \<open>Merchant webhooks\<close>

record MerchantWebhookPublisher =
  mw_URL :: string
  mw_Secret :: string
  mw_Attempts :: int
  mw_DeadLetter :: "EventPublisher option"

definition webhook_request :: "MerchantWebhookPublisher \<Rightarrow> OutboxEvent \<Rightarrow> HttpRequest" where
  "webhook_request p event = \<lparr>hr_Method = ''POST'', hr_URL = mw_URL p, hr_Body = ev_Payload event,
     hr_Header = [(''content-type'', ''application/json''), (''x-payment-event-id'', ev_ID event),
       (''x-payment-event-type'', ev_EventType event),
       (''x-payment-signature'', hexEncode (hmac_sha256 (mw_Secret p) (ev_Payload event)))]\<rparr>"

definition webhook_attempts :: "MerchantWebhookPublisher \<Rightarrow> nat" where
  "webhook_attempts p = nat (if mw_Attempts p < 1 then 3 else mw_Attempts p)"

text \<open>
  The retry loop with \<open>n\<close> attempts left and the last error so far. \<open>Some r\<close> is a return from inside
  the loop, \<open>None\<close> its end.
\<close>

fun webhook_loop ::
  "Net \<Rightarrow> MerchantWebhookPublisher \<Rightarrow> OutboxEvent \<Rightarrow> nat \<Rightarrow> error option \<Rightarrow> history
    \<Rightarrow> (unit result option \<times> error option) \<times> history" where
  "webhook_loop net p event 0 lastErr h = ((None, lastErr), h)"
| "webhook_loop net p event (Suc n) lastErr h =
     (case net_ParseURL net (mw_URL p) of
        Inl e \<Rightarrow> ((Some (Inl e), lastErr), h)
      | Inr _ \<Rightarrow>
          (let request = webhook_request p event;
               answer = net_Do net h request;
               h' = h @ [SentHttp request]
           in if (case answer of Inl e \<Rightarrow> False | Inr code \<Rightarrow> 200 \<le> code \<and> code < 300)
              then ((Some (Inr ()), lastErr), h')
              else let last' = (case answer of Inl e \<Rightarrow> e
                                | Inr code \<Rightarrow> Err (''merchant webhook status '' @ nat_digits code))
                   in case net_Done net h' of
                        Some e \<Rightarrow> ((Some (Inl e), Some last'), h')
                      | None \<Rightarrow> webhook_loop net p event n (Some last') h'))"

definition dead_event :: "OutboxEvent \<Rightarrow> OutboxEvent" where
  "dead_event event = \<lparr>ev_ID = ev_ID event, ev_AggregateID = ev_AggregateID event,
     ev_EventType = ''merchant_webhook.failed'', ev_Payload = ev_Payload event, ev_Published = False\<rparr>"

definition MerchantWebhookPublisher_Publish ::
  "Net \<Rightarrow> MerchantWebhookPublisher \<Rightarrow> EventPublisher" where
  "MerchantWebhookPublisher_Publish net p event h =
     (if mw_URL p = [] then (Inr (), h)
      else case webhook_loop net p event (webhook_attempts p) None h of
        ((Some r, _), h') \<Rightarrow> (r, h')
      | ((None, lastErr), h') \<Rightarrow>
          (case (case mw_DeadLetter p of None \<Rightarrow> (Inr (), h') | Some dl \<Rightarrow> dl (dead_event event) h') of
             (Inl e, h'') \<Rightarrow> (Inl e, h'')
           | (Inr _, h'') \<Rightarrow> (case lastErr of None \<Rightarrow> Inr () | Some e \<Rightarrow> Inl e, h'')))"

section \<open>The worker\<close>

fun deliver_loop ::
  "('c, 's, 'd) Store \<Rightarrow> (nat \<Rightarrow> 'c) \<Rightarrow> EventPublisher \<Rightarrow> OutboxEvent list \<Rightarrow> ('s \<times> history, unit) op" where
  "deliver_loop S ctx publisher [] (s, h) = (Inr (), (s, h))"
| "deliver_loop S ctx publisher (event # events) (s, h) =
     (case publisher event h of
        (Inl e, h') \<Rightarrow> (Inl e, (s, h'))
      | (Inr _, h') \<Rightarrow>
          (case S_MarkPublished S (ctx 0) (ev_ID event) s of
             (Inl e, s') \<Rightarrow> (Inl e, (s', h'))
           | (Inr _, s') \<Rightarrow> deliver_loop S (\<lambda>k. ctx (Suc k)) publisher events (s', h')))"

definition OutboxWorker_Deliver ::
  "('c, 's, 'd) Store \<Rightarrow> (nat \<Rightarrow> 'c) \<Rightarrow> EventPublisher \<Rightarrow> int \<Rightarrow> ('s \<times> history, unit) op" where
  "OutboxWorker_Deliver S ctx publisher batchSize sh =
     (case S_ClaimOutbox S (ctx 0) batchSize (fst sh) of
        (Inl e, s') \<Rightarrow> (Inl e, (s', snd sh))
      | (Inr events, s') \<Rightarrow>
          deliver_loop S (\<lambda>k. ctx (Suc k)) publisher events (s', snd sh))"

text \<open>
  The publisher the worker process builds from its environment (\<open>NATS_URL\<close>,
  \<open>MERCHANT_WEBHOOK_URL\<close>, \<open>MERCHANT_WEBHOOK_SECRET\<close>; unset is the empty string), and its endless
  loop, cut after a number of rounds. The error of a round is logged and ignored.
\<close>

definition worker_publisher :: "Net \<Rightarrow> string \<Rightarrow> string \<Rightarrow> string \<Rightarrow> EventPublisher" where
  "worker_publisher net natsURL webhookURL secret =
     (if natsURL = [] then LogPublisher_Publish
      else if webhookURL = [] then NATSPublisher_Publish net
      else CompositePublisher_Publish
        [NATSPublisher_Publish net,
         MerchantWebhookPublisher_Publish net
           \<lparr>mw_URL = webhookURL, mw_Secret = secret, mw_Attempts = 0,
            mw_DeadLetter = Some (NATSDeadLetterPublisher_Publish net)\<rparr>])"

fun worker_rounds ::
  "('c, 's, 'd) Store \<Rightarrow> (nat \<Rightarrow> nat \<Rightarrow> 'c) \<Rightarrow> EventPublisher \<Rightarrow> int \<Rightarrow> nat \<Rightarrow> 's \<times> history \<Rightarrow> 's \<times> history" where
  "worker_rounds S ctx publisher n 0 sh = sh"
| "worker_rounds S ctx publisher n (Suc k) sh =
     worker_rounds S (\<lambda>j. ctx (Suc j)) publisher n k
       (snd (OutboxWorker_Deliver S (ctx 0) publisher n sh))"

end
