(* ===== verification/Outbox_Laws.thy ===== *)
theory Outbox_Laws
  imports Outbox Demo_Run
begin

text \<open>
  What the worker needs of a store, as the locale \<open>outbox_store\<close>, and what it guarantees in return:
  events are marked in the order they were claimed, each only after its publication, and a worker
  whose publisher works drains the outbox. The locale is interpreted on the memory store.
\<close>

section \<open>Marking a list of events\<close>

definition mark_all :: "OutboxEvent list \<Rightarrow> (string \<rightharpoonup> OutboxEvent) \<Rightarrow> (string \<rightharpoonup> OutboxEvent)" where
  "mark_all es m = fold (\<lambda>e m. m(ev_ID e \<mapsto> e\<lparr>ev_Published := True\<rparr>)) es m"

definition pending :: "(string \<rightharpoonup> OutboxEvent) \<Rightarrow> string set" where
  "pending m = {i. \<exists>e. m i = Some e \<and> \<not> ev_Published e}"

definition claimable :: "(string \<rightharpoonup> OutboxEvent) \<Rightarrow> OutboxEvent list \<Rightarrow> bool" where
  "claimable m es \<longleftrightarrow> distinct (map ev_ID es) \<and> (\<forall>e \<in> set es. m (ev_ID e) = Some e \<and> \<not> ev_Published e)"

lemma mark_all_simps [simp]:
  "mark_all [] m = m"
  "mark_all (e # es) m = mark_all es (m(ev_ID e \<mapsto> e\<lparr>ev_Published := True\<rparr>))"
  by (simp_all add: mark_all_def)

lemma claimable_Cons [simp]:
  "claimable m (e # es) \<longleftrightarrow> m (ev_ID e) = Some e \<and> \<not> ev_Published e \<and> ev_ID e \<notin> ev_ID ` set es \<and>
     claimable m es"
  by (auto simp: claimable_def)

lemma claimable_upd: "claimable m es \<Longrightarrow> i \<notin> ev_ID ` set es \<Longrightarrow> claimable (m(i \<mapsto> e)) es"
  by (auto simp: claimable_def)

lemma claimable_pending: "claimable m es \<Longrightarrow> ev_ID ` set es \<subseteq> pending m"
  by (auto simp: claimable_def pending_def)

lemma pending_mark_all: "pending (mark_all es m) = pending m - ev_ID ` set es"
proof (induction es arbitrary: m)
  case (Cons e es)
  have upd: "pending (m(ev_ID e \<mapsto> e\<lparr>ev_Published := True\<rparr>)) = pending m - {ev_ID e}"
    by (auto simp: pending_def)
  show ?case unfolding mark_all_simps Cons.IH upd by auto
qed simp

lemma dom_mark_all: "claimable m es \<Longrightarrow> dom (mark_all es m) = dom m"
proof (induction es arbitrary: m)
  case (Cons e es)
  then have "claimable (m(ev_ID e \<mapsto> e\<lparr>ev_Published := True\<rparr>)) es" by (simp add: claimable_upd)
  then have "dom (mark_all (e # es) m) = dom (m(ev_ID e \<mapsto> e\<lparr>ev_Published := True\<rparr>))"
    unfolding mark_all_simps by (rule Cons.IH)
  also have "\<dots> = dom m" using Cons.prems by (auto simp: insert_absorb)
  finally show ?case .
qed simp

section \<open>The contract and the worker over it\<close>

text \<open>
  A property of an event and a history that a successful publication of the event establishes and
  that every later publication keeps.
\<close>

definition establishes :: "EventPublisher \<Rightarrow> (OutboxEvent \<Rightarrow> history \<Rightarrow> bool) \<Rightarrow> bool" where
  "establishes publisher P \<longleftrightarrow>
     (\<forall>e h h'. publisher e h = (Inr (), h') \<longrightarrow> P e h') \<and>
     (\<forall>e e' h r h'. P e h \<longrightarrow> publisher e' h = (r, h') \<longrightarrow> P e h')"

definition works :: "EventPublisher \<Rightarrow> bool" where
  "works publisher \<longleftrightarrow> (\<forall>e h. \<exists>h'. publisher e h = (Inr (), h'))"

text \<open>
  \<open>events\<close> is the outbox of a store and \<open>okc s c\<close> says that \<open>c\<close> is a choice the run-time can make in
  state \<open>s\<close> when the outbox is read.
\<close>

locale outbox_store =
  fixes S :: "('c, 's, 'd) Store" and events :: "'s \<Rightarrow> (string \<rightharpoonup> OutboxEvent)"
    and inv :: "'s \<Rightarrow> bool" and okc :: "'s \<Rightarrow> 'c \<Rightarrow> bool"
  assumes claim: "inv s \<Longrightarrow> okc s c \<Longrightarrow> S_ClaimOutbox S c n s = (r, s') \<Longrightarrow>
      inv s' \<and> events s' = events s \<and> (case r of Inl _ \<Rightarrow> True | Inr es \<Rightarrow> claimable (events s) es)"
    and mark: "inv s \<Longrightarrow> events s i = Some e \<Longrightarrow> S_MarkPublished S c i s = (u, s') \<Longrightarrow>
      inv s' \<and> outcome u (events s' = events s) (events s' = (events s)(i \<mapsto> e\<lparr>ev_Published := True\<rparr>))"
begin

text \<open>
  For any property \<open>P\<close> that the publisher establishes: exactly a prefix of the events is marked, all of it has \<open>P\<close>, and all
  of the list when the loop ends without an error.
\<close>

lemma deliver_loop_prefix:
  assumes "establishes publisher P"
    and "inv s" "claimable (events s) es" "deliver_loop S ctx publisher es (s, h) = (r, (s', h'))"
  shows "inv s' \<and> (\<forall>e. P e h \<longrightarrow> P e h') \<and>
     (\<exists>k \<le> length es. events s' = mark_all (take k es) (events s) \<and>
        (\<forall>e \<in> set (take k es). P e h') \<and> (r = Inr () \<longrightarrow> k = length es))"
  using assms(2-4)
proof (induction es arbitrary: s h ctx)
  case (Cons e es)
  have keep: "P e' h \<Longrightarrow> publisher e'' h = (r, h') \<Longrightarrow> P e' h'" for e' e'' h r h'
    using assms(1) by (simp add: establishes_def)
  obtain r1 h1 where pub: "publisher e h = (r1, h1)" by fastforce
  show ?case
  proof (cases r1)
    case (Inl x)
    with pub Cons.prems keep show ?thesis by (auto intro!: exI [of _ 0])
  next
    case (Inr u1)
    obtain u s1 where mk: "S_MarkPublished S (ctx 0) (ev_ID e) s = (u, s1)" by fastforce
    have ev: "events s (ev_ID e) = Some e" using Cons.prems by simp
    note law = mark [OF Cons.prems(1) ev mk]
    show ?thesis
    proof (cases u)
      case (Inl x)
      have "P e h1" using assms(1) pub \<open>r1 = Inr u1\<close> by (simp add: establishes_def)
      moreover have "r = Inl x" "s' = s1" "h' = h1" using pub Inr mk Inl Cons.prems by simp_all
      moreover from law Inl have "events s1 = mark_all (take 1 (e # es)) (events s) \<or>
        events s1 = mark_all (take 0 (e # es)) (events s)" by simp
      ultimately show ?thesis using law keep pub by (auto intro: exI [of _ 1] exI [of _ 0])
    next
      case (Inr v)
      with law have s1: "inv s1" "events s1 = (events s)(ev_ID e \<mapsto> e\<lparr>ev_Published := True\<rparr>)" by auto
      have "claimable (events s1) es" using Cons.prems by (auto simp: s1(2) claimable_upd)
      moreover have "deliver_loop S (\<lambda>k. ctx (Suc k)) publisher es (s1, h1) = (r, (s', h'))"
        using Cons.prems pub \<open>r1 = Inr u1\<close> mk Inr by simp
      ultimately obtain k where k: "inv s'" "k \<le> length es" "\<forall>e. P e h1 \<longrightarrow> P e h'"
        "events s' = mark_all (take k es) (events s1)" "\<forall>e \<in> set (take k es). P e h'"
        "r = Inr () \<longrightarrow> k = length es"
        using Cons.IH [OF s1(1)] by blast
      have "P e h1" using assms(1) pub \<open>r1 = Inr u1\<close> by (simp add: establishes_def)
      with k s1 keep pub show ?thesis by (auto intro!: exI [of _ "Suc k"])
    qed
  qed
qed auto

lemma deliver_prefix:
  assumes est: "establishes publisher P"
    and inv: "inv s" "okc s (ctx 0)"
    and call: "OutboxWorker_Deliver S ctx publisher n (s, h) = (r, (s', h'))"
  shows "inv s' \<and> (\<exists>es. claimable (events s) es \<and> events s' = mark_all es (events s) \<and>
     (\<forall>e \<in> set es. P e h') \<and>
     (r = Inr () \<longrightarrow> (\<exists>s1. S_ClaimOutbox S (ctx 0) n s = (Inr es, s1))))"
proof -
  obtain r1 s1 where cl: "S_ClaimOutbox S (ctx 0) n s = (r1, s1)" by fastforce
  note law = claim [OF inv cl]
  show ?thesis
  proof (cases r1)
    case (Inl e)
    with call cl law show ?thesis
      by (auto simp: OutboxWorker_Deliver_def claimable_def intro!: exI [of _ "[]"])
  next
    case (Inr es)
    with call cl have loop: "deliver_loop S (\<lambda>k. ctx (Suc k)) publisher es (s1, h) = (r, (s', h'))"
      by (simp add: OutboxWorker_Deliver_def)
    from law Inr have s1: "inv s1" "events s1 = events s" "claimable (events s) es" by auto
    obtain k where k: "inv s'" "k \<le> length es" "events s' = mark_all (take k es) (events s)"
      "\<forall>e \<in> set (take k es). P e h'" "r = Inr () \<longrightarrow> k = length es"
      using deliver_loop_prefix [OF est s1(1) s1(3) [folded s1(2)] loop] s1(2)
      by auto
    have "claimable (events s) (take k es)"
      using s1(3) by (auto simp: claimable_def take_map [symmetric] dest: in_set_takeD)
    with k cl Inr show ?thesis by auto
  qed
qed

lemma deliver_loop_total:
  assumes ok: "works publisher"
    and mk: "\<And>s i e c. inv s \<Longrightarrow> events s i = Some e \<Longrightarrow> \<exists>s'. S_MarkPublished S c i s = (Inr (), s')"
    and "inv s" "claimable (events s) es"
  shows "\<exists>s' h'. deliver_loop S ctx publisher es (s, h) = (Inr (), (s', h'))"
  using assms(3,4)
proof (induction es arbitrary: s h ctx)
  case (Cons e es)
  obtain h1 where h1: "publisher e h = (Inr (), h1)" using ok by (auto simp: works_def)
  have ev: "events s (ev_ID e) = Some e" using Cons.prems by simp
  then obtain s1 where s1: "S_MarkPublished S (ctx 0) (ev_ID e) s = (Inr (), s1)"
    using mk [OF Cons.prems(1)] by blast
  from mark [OF Cons.prems(1) ev s1] have "inv s1" "claimable (events s1) es"
    using Cons.prems by (auto simp: claimable_upd)
  from Cons.IH [OF this] h1 s1 show ?case by simp
qed simp

end

section \<open>The memory store's outbox\<close>

definition unpublished :: "(string \<rightharpoonup> OutboxEvent) \<Rightarrow> string list \<Rightarrow> OutboxEvent list" where
  "unpublished m ks = filter (\<lambda>e. \<not> ev_Published e) (map (\<lambda>k. the (m k)) (filter (\<lambda>k. m k \<noteq> None) ks))"

lemma unpublished_simps [simp]:
  "unpublished m [] = []"
  "unpublished m (k # ks) = (case m k of None \<Rightarrow> unpublished m ks
     | Some e \<Rightarrow> if ev_Published e then unpublished m ks else e # unpublished m ks)"
  by (simp_all add: unpublished_def split: option.splits)

lemma claim_loop_take:
  "int (length result) < n \<Longrightarrow>
   claim_loop m n result ks = result @ take (nat n - length result) (unpublished m ks)"
proof (induction ks arbitrary: result)
  case (Cons k ks)
  show ?case
  proof (cases "m k")
    case None
    with Cons show ?thesis by simp
  next
    case (Some e)
    have "nat n - length result = Suc (nat n - Suc (length result))" using Cons.prems by linarith
    with Cons Some show ?thesis by (cases "int (length result) + 1 = n") (auto simp: Let_def)
  qed
qed simp

lemma claim_loop_zero: "claim_loop m 0 result ks = result @ unpublished m ks"
  by (induction ks arbitrary: result) (simp_all add: Let_def split: option.splits)

lemma claimable_unpublished:
  assumes "visits m ks" "\<And>i e. m i = Some e \<Longrightarrow> ev_ID e = i"
  shows "claimable m (unpublished m ks)" "ev_ID ` set (unpublished m ks) = pending m"
proof -
  have "claimable m (unpublished m js)" if "distinct js" for js
    using that
  proof (induction js)
    case (Cons k ks)
    have "ev_ID ` set (unpublished m ks) \<subseteq> set ks"
      using assms(2) by (force simp: unpublished_def)
    with Cons show ?case by (auto simp: assms(2) split: option.splits)
  qed (simp add: claimable_def)
  with assms(1) show "claimable m (unpublished m ks)" by (simp add: visits_def)
  show "ev_ID ` set (unpublished m ks) = pending m"
  proof
    show "ev_ID ` set (unpublished m ks) \<subseteq> pending m"
      using \<open>claimable m (unpublished m ks)\<close> by (rule claimable_pending)
    show "pending m \<subseteq> ev_ID ` set (unpublished m ks)"
    proof
      fix i assume "i \<in> pending m"
      then obtain e where e: "m i = Some e" "\<not> ev_Published e" by (auto simp: pending_def)
      with assms(1) have "i \<in> set ks" by (auto simp: visits_def)
      with e have "e \<in> set (unpublished m ks)" by (force simp: unpublished_def)
      with assms(2) [OF e(1)] show "i \<in> ev_ID ` set (unpublished m ks)" by blast
    qed
  qed
qed

lemma claimable_take: "claimable m es \<Longrightarrow> claimable m (take k es)"
  by (auto simp: claimable_def take_map [symmetric] dest: in_set_takeD)

abbreviation memory_choice :: "'d MemoryStore \<Rightarrow> string list \<Rightarrow> bool" where
  "memory_choice s c \<equiv> visits (outbox s) c"

interpretation mo: outbox_store "memoryStore D" outbox memory_inv memory_choice
proof
  fix s c n r s'
  assume inv: "memory_inv s" and c: "visits (outbox s) c"
    and call: "S_ClaimOutbox (memoryStore D) c n s = (r, s')"
  have ids: "outbox s i = Some e \<Longrightarrow> ev_ID e = i" for i e using inv by (simp add: memory_inv_def)
  have "n > 0 \<Longrightarrow> claim_loop (outbox s) n [] c = take (nat n) (unpublished (outbox s) c)"
    using claim_loop_take [of "[]" n] by simp
  moreover have "n = 0 \<Longrightarrow> claim_loop (outbox s) n [] c = unpublished (outbox s) c"
    by (simp add: claim_loop_zero)
  ultimately have "n \<ge> 0 \<Longrightarrow> claimable (outbox s) (claim_loop (outbox s) n [] c)"
    using claimable_unpublished(1) [OF c ids] claimable_take by (metis less_eq_int_code(1) order_le_less)
  with call inv show "memory_inv s' \<and> outbox s' = outbox s \<and>
      (case r of Inl _ \<Rightarrow> True | Inr es \<Rightarrow> claimable (outbox s) es)"
    by (auto simp: Memory_ClaimOutbox_def split: if_splits)
next
  fix s i e c u s'
  assume "memory_inv s" "outbox s i = Some e" "S_MarkPublished (memoryStore D) c i s = (u, s')"
  then show "memory_inv s' \<and>
      outcome u (outbox s' = outbox s) (outbox s' = (outbox s)(i \<mapsto> e\<lparr>ev_Published := True\<rparr>))"
    by (auto simp: Memory_MarkPublished_def memory_inv_def split: if_splits)
qed

end
