(* ===== verification/Outbox_Delivery.thy ===== *)
theory Outbox_Delivery
  imports Outbox_Laws
begin

text \<open>
  What the worker process guarantees over the memory store: an event is marked only after its
  publication was acknowledged, a worker whose publisher works drains the outbox, and what the
  merchant webhook publisher does with its attempts.
\<close>

section \<open>Publishers only add to the history\<close>

definition appends :: "EventPublisher \<Rightarrow> bool" where
  "appends publisher \<longleftrightarrow> (\<forall>e h r h'. publisher e h = (r, h') \<longrightarrow> (\<exists>xs. h' = h @ xs))"

lemma appendsD: "appends publisher \<Longrightarrow> publisher e h = (r, h') \<Longrightarrow> \<exists>xs. h' = h @ xs"
  by (simp add: appends_def)

lemma appends_simple [intro]:
  "appends LogPublisher_Publish" "appends (NATSPublisher_Publish net)"
  "appends (NATSDeadLetterPublisher_Publish net)"
  by (auto simp: appends_def LogPublisher_Publish_def NATSPublisher_Publish_def
      NATSDeadLetterPublisher_Publish_def js_Publish_def)

lemma webhook_loop_appends:
  "webhook_loop net p event n lastErr h = (rl, h') \<Longrightarrow> \<exists>xs. h' = h @ xs"
proof (induction n arbitrary: lastErr h)
  case (Suc n)
  then show ?case
    by (simp add: Let_def split: sum.splits if_splits option.splits) (metis append.assoc)+
qed simp

lemma appends_webhook [intro]:
  assumes "\<And>dl. mw_DeadLetter p = Some dl \<Longrightarrow> appends dl"
  shows "appends (MerchantWebhookPublisher_Publish net p)"
  unfolding appends_def
proof (intro allI impI)
  fix e h r h' assume call: "MerchantWebhookPublisher_Publish net p e h = (r, h')"
  obtain q lst h1 where loop: "webhook_loop net p e (webhook_attempts p) None h = ((q, lst), h1)"
    by (metis prod.exhaust_sel)
  obtain xs where xs: "h1 = h @ xs" using webhook_loop_appends [OF loop] by blast
  show "\<exists>xs. h' = h @ xs"
    using call loop xs assms
    by (auto simp: MerchantWebhookPublisher_Publish_def split: if_splits option.splits prod.splits sum.splits
        dest!: appendsD)
qed

lemma appends_composite:
  "(\<And>q. q \<in> set ps \<Longrightarrow> appends q) \<Longrightarrow> appends (CompositePublisher_Publish ps)"
proof (induction ps)
  case (Cons q ps)
  have "appends q" "appends (CompositePublisher_Publish ps)" using Cons by auto
  then show ?case
    unfolding appends_def by (fastforce split: prod.splits sum.splits)
qed (simp add: appends_def)

section \<open>Acknowledged deliveries\<close>

text \<open>The broker accepted the event, or the merchant's endpoint answered with a 2xx status.\<close>

definition acknowledged :: "Net \<Rightarrow> string \<Rightarrow> OutboxEvent \<Rightarrow> history \<Rightarrow> bool" where
  "acknowledged net subject e h \<longleftrightarrow> (\<exists>h1 h2.
     h = h1 @ SentNats subject (ev_Payload e) (ev_ID e) # h2 \<and>
     net_Publish net h1 subject (ev_Payload e) (ev_ID e) = None)"

definition accepted :: "Net \<Rightarrow> HttpRequest \<Rightarrow> history \<Rightarrow> bool" where
  "accepted net request h \<longleftrightarrow> (\<exists>h1 h2 code.
     h = h1 @ SentHttp request # h2 \<and> net_Do net h1 request = Inr code \<and> 200 \<le> code \<and> code < 300)"

lemma acknowledged_append [intro]: "acknowledged net s e h \<Longrightarrow> acknowledged net s e (h @ xs)"
  unfolding acknowledged_def by (metis append.assoc append_Cons)

lemma accepted_append [intro]: "accepted net q h \<Longrightarrow> accepted net q (h @ xs)"
  unfolding accepted_def by (metis append.assoc append_Cons)

lemma js_Publish_acknowledged:
  "js_Publish net subject e h = (Inr (), h') \<Longrightarrow> acknowledged net subject e h'"
  by (auto simp: js_Publish_def acknowledged_def split: option.splits)

lemma webhook_loop_accepted:
  "webhook_loop net p event n lastErr h = ((Some (Inr ()), l), h') \<Longrightarrow>
     accepted net (webhook_request p event) h'"
proof (induction n arbitrary: lastErr h)
  case (Suc n)
  then show ?case
    by (auto simp: Let_def accepted_def split: sum.splits if_splits option.splits)
qed simp

lemma webhook_loop_last:
  "webhook_loop net p event n lastErr h = ((None, l), h') \<Longrightarrow> n = 0 \<and> l = lastErr \<or> l \<noteq> None"
proof (induction n arbitrary: lastErr h)
  case (Suc n)
  then show ?case by (fastforce simp: Let_def split: sum.splits if_splits option.splits)
qed simp

lemma webhook_attempts_pos: "0 < webhook_attempts p"
  by (simp add: webhook_attempts_def)

lemma webhook_Publish_accepted:
  assumes "MerchantWebhookPublisher_Publish net p e h = (Inr (), h')" "mw_URL p \<noteq> []"
  shows "accepted net (webhook_request p e) h'"
proof -
  obtain q lst h1 where loop: "webhook_loop net p e (webhook_attempts p) None h = ((q, lst), h1)"
    by (metis prod.exhaust_sel)
  show ?thesis
  proof (cases q)
    case None
    then have "lst \<noteq> None" using webhook_loop_last [of net p e "webhook_attempts p" None h lst h1] loop
        webhook_attempts_pos [of p] by auto
    with None loop assms show ?thesis
      by (auto simp: MerchantWebhookPublisher_Publish_def split: option.splits prod.splits sum.splits)
  next
    case (Some r)
    with loop assms webhook_loop_accepted show ?thesis
      by (auto simp: MerchantWebhookPublisher_Publish_def)
  qed
qed

text \<open>What the publisher of the worker process establishes.\<close>

definition delivered :: "Net \<Rightarrow> string \<Rightarrow> string \<Rightarrow> OutboxEvent \<Rightarrow> history \<Rightarrow> bool" where
  "delivered net webhookURL secret e h \<longleftrightarrow>
     acknowledged net ''payments.events'' e h \<and>
     (webhookURL \<noteq> [] \<longrightarrow> accepted net (webhook_request \<lparr>mw_URL = webhookURL, mw_Secret = secret,
        mw_Attempts = 0, mw_DeadLetter = Some (NATSDeadLetterPublisher_Publish net)\<rparr> e) h)"

lemma appends_worker: "appends (worker_publisher net natsURL webhookURL secret)"
proof -
  have "appends (MerchantWebhookPublisher_Publish net \<lparr>mw_URL = webhookURL, mw_Secret = secret,
      mw_Attempts = 0, mw_DeadLetter = Some (NATSDeadLetterPublisher_Publish net)\<rparr>)"
    by (rule appends_webhook) (auto intro: appends_simple)
  then show ?thesis
    unfolding worker_publisher_def by (auto intro: appends_simple intro!: appends_composite)
qed

lemma worker_establishes:
  assumes "natsURL \<noteq> []"
  shows "establishes (worker_publisher net natsURL webhookURL secret) (delivered net webhookURL secret)"
  unfolding establishes_def
proof (intro conjI allI impI)
  fix e h h'
  assume call: "worker_publisher net natsURL webhookURL secret e h = (Inr (), h')"
  let ?p = "\<lparr>mw_URL = webhookURL, mw_Secret = secret, mw_Attempts = 0,
    mw_DeadLetter = Some (NATSDeadLetterPublisher_Publish net)\<rparr>"
  show "delivered net webhookURL secret e h'"
  proof (cases "webhookURL = []")
    case True
    with call assms show ?thesis
      by (auto simp: worker_publisher_def delivered_def NATSPublisher_Publish_def
          dest: js_Publish_acknowledged)
  next
    case False
    with call assms obtain h1 where h1: "NATSPublisher_Publish net e h = (Inr (), h1)"
      "MerchantWebhookPublisher_Publish net ?p e h1 = (Inr (), h')"
      by (auto simp: worker_publisher_def split: prod.splits sum.splits)
    have "appends (MerchantWebhookPublisher_Publish net ?p)"
      by (rule appends_webhook) (auto intro: appends_simple)
    from appendsD [OF this h1(2)] js_Publish_acknowledged h1(1)
    have "acknowledged net ''payments.events'' e h'" by (auto simp: NATSPublisher_Publish_def)
    with webhook_Publish_accepted [OF h1(2)] False show ?thesis by (simp add: delivered_def)
  qed
next
  fix e e' h r h'
  assume "delivered net webhookURL secret e h"
    "worker_publisher net natsURL webhookURL secret e' h = (r, h')"
  then show "delivered net webhookURL secret e h'"
    using appendsD [OF appends_worker] by (fastforce simp: delivered_def)
qed

section \<open>Rounds of the worker\<close>

lemma deliver_loop_frame:
  "deliver_loop (memoryStore D) ctx publisher es (s, h) = (r, (s', h')) \<Longrightarrow> \<exists>m. s' = s\<lparr>outbox := m\<rparr>"
proof (induction es arbitrary: s h ctx)
  case Nil
  then show ?case by (auto intro: exI [of _ "outbox s"])
next
  case (Cons e es)
  obtain r1 h1 where pub: "publisher e h = (r1, h1)" by fastforce
  obtain u s1 where mk: "Memory_MarkPublished (ctx 0) (ev_ID e) s = (u, s1)" by fastforce
  then have "\<exists>m1. s1 = s\<lparr>outbox := m1\<rparr>"
    by (auto simp: Memory_MarkPublished_def split: option.splits intro: exI [of _ "outbox s"])
  then obtain m1 where m1: "s1 = s\<lparr>outbox := m1\<rparr>" by blast
  show ?case
  proof (cases "\<exists>v w. r1 = Inr v \<and> u = Inr w")
    case True
    with Cons.prems pub mk
    have "deliver_loop (memoryStore D) (\<lambda>k. ctx (Suc k)) publisher es (s1, h1) = (r, (s', h'))" by auto
    from Cons.IH [OF this] show ?thesis by (auto simp: m1)
  next
    case False
    with Cons.prems pub mk m1 show ?thesis
      by (auto split: sum.splits intro: exI [of _ "outbox s"])
  qed
qed

lemma deliver_frame:
  assumes "OutboxWorker_Deliver (memoryStore D) ctx publisher n (s, h) = (r, (s', h'))"
  shows "s' = s\<lparr>outbox := outbox s'\<rparr>"
proof -
  have "\<exists>m. s' = s\<lparr>outbox := m\<rparr>"
    using assms by (auto simp: OutboxWorker_Deliver_def Memory_ClaimOutbox_def split: if_splits
        dest: deliver_loop_frame intro: exI [of _ "outbox s"])
  then show ?thesis by auto
qed

lemma card_pending_claimed:
  assumes "visits m c" "\<And>i e. m i = Some e \<Longrightarrow> ev_ID e = i"
  shows "card (pending m - ev_ID ` set (take k (unpublished m c))) = card (pending m) - k"
proof -
  note cl = claimable_unpublished [OF assms]
  have dist: "distinct (map ev_ID (unpublished m c))" using cl(1) by (simp add: claimable_def)
  have "card (pending m) = length (unpublished m c)"
    using dist distinct_card cl(2) by (metis length_map set_map)
  moreover have "card (ev_ID ` set (take k (unpublished m c))) = min (length (unpublished m c)) k"
  proof -
    have "ev_ID ` set (take k (unpublished m c)) = set (take k (map ev_ID (unpublished m c)))"
      by (simp add: take_map)
    then show ?thesis using distinct_card [OF distinct_take [OF dist, of k]] by simp
  qed
  moreover have "ev_ID ` set (take k (unpublished m c)) \<subseteq> pending m"
    using cl(2) by (auto dest: in_set_takeD)
  ultimately show ?thesis by (simp add: card_Diff_subset)
qed

lemma deliver_round:
  assumes inv: "memory_inv s" and order: "visits (outbox s) (ctx 0)" and n: "0 < n"
    and ok: "works publisher"
  shows "\<exists>s' h'. OutboxWorker_Deliver (memoryStore D) ctx publisher n (s, h) = (Inr (), (s', h')) \<and>
     memory_inv s' \<and> dom (outbox s') = dom (outbox s) \<and>
     card (pending (outbox s')) = card (pending (outbox s)) - nat n"
proof -
  have ids: "\<And>i e. outbox s i = Some e \<Longrightarrow> ev_ID e = i" using inv by (simp add: memory_inv_def)
  let ?es = "take (nat n) (unpublished (outbox s) (ctx 0))"
  have claim: "S_ClaimOutbox (memoryStore D) (ctx 0) n s = (Inr ?es, s)"
    using n claim_loop_take [of "[]" n] by (simp add: Memory_ClaimOutbox_def)
  have cl: "claimable (outbox s) ?es"
    by (rule claimable_take [OF claimable_unpublished(1) [OF order ids]])
  have "Memory_MarkPublished c i s = (Inr (), s\<lparr>outbox := (outbox s)(i \<mapsto> e\<lparr>ev_Published := True\<rparr>)\<rparr>)"
    if "outbox s i = Some e" for c i e and s :: "'a MemoryStore"
    using that by (simp add: Memory_MarkPublished_def)
  then obtain s' h' where loop: "deliver_loop (memoryStore D) (\<lambda>k. ctx (Suc k)) publisher ?es (s, h) =
      (Inr (), (s', h'))"
    using mo.deliver_loop_total [OF ok _ inv cl] by fastforce
  then have call: "OutboxWorker_Deliver (memoryStore D) ctx publisher n (s, h) = (Inr (), (s', h'))"
    using claim by (simp add: OutboxWorker_Deliver_def)
  have "establishes publisher (\<lambda>_ _. True)" by (simp add: establishes_def)
  from mo.deliver_prefix [OF this inv order call] claim
  have s': "memory_inv s'" "outbox s' = mark_all ?es (outbox s)" by auto
  have "card (pending (outbox s')) = card (pending (outbox s)) - nat n"
    unfolding s'(2) pending_mark_all by (rule card_pending_claimed [OF order ids])
  with call s' dom_mark_all [OF cl] show ?thesis by auto
qed

lemma rounds_drain:
  assumes "memory_inv s" "\<And>j. visits (outbox s) (ctx j 0)" "0 < n"
    and "works publisher"
  shows "card (pending (outbox (fst (worker_rounds (memoryStore D) ctx publisher n k (s, h))))) =
       card (pending (outbox s)) - k * nat n \<and>
     dom (outbox (fst (worker_rounds (memoryStore D) ctx publisher n k (s, h)))) = dom (outbox s)"
  using assms(1,2)
proof (induction k arbitrary: s h ctx)
  case (Suc k)
  obtain s' h' where one: "OutboxWorker_Deliver (memoryStore D) (ctx 0) publisher n (s, h) = (Inr (), (s', h'))"
    "memory_inv s'" "dom (outbox s') = dom (outbox s)"
    "card (pending (outbox s')) = card (pending (outbox s)) - nat n"
    using deliver_round [where ctx = "ctx 0", OF Suc.prems(1) Suc.prems(2) assms(3,4)] by blast
  have "visits (outbox s') (ctx (Suc j) 0)" for j
    using Suc.prems(2) [of "Suc j"] one(3) by (simp add: visits_def)
  with Suc.IH [of s' "\<lambda>j. ctx (Suc j)" h'] one show ?case by simp
qed simp

section \<open>The attempts of a merchant webhook\<close>

text \<open>The history after \<open>k\<close> attempts, and whether the attempt that follows is answered with 2xx.\<close>

definition tried :: "MerchantWebhookPublisher \<Rightarrow> OutboxEvent \<Rightarrow> history \<Rightarrow> nat \<Rightarrow> history" where
  "tried p e h k = h @ replicate k (SentHttp (webhook_request p e))"

definition answered :: "Net \<Rightarrow> MerchantWebhookPublisher \<Rightarrow> OutboxEvent \<Rightarrow> history \<Rightarrow> bool" where
  "answered net p e h \<longleftrightarrow> (\<exists>code. net_Do net h (webhook_request p e) = Inr code \<and> 200 \<le> code \<and> code < 300)"

lemma tried_Suc: "tried p e (tried p e h (Suc 0)) k = tried p e h (Suc k)"
  by (simp add: tried_def)

lemma tried_0 [simp]: "tried p e h 0 = h"
  by (simp add: tried_def)

lemma webhook_loop_step:
  assumes "net_ParseURL net (mw_URL p) = Inr ()" "\<And>h. net_Done net h = None"
  shows "webhook_loop net p e (Suc n) l h =
     (if answered net p e h then ((Some (Inr ()), l), tried p e h (Suc 0))
      else webhook_loop net p e n (Some (case net_Do net h (webhook_request p e) of Inl x \<Rightarrow> x
             | Inr code \<Rightarrow> Err (''merchant webhook status '' @ nat_digits code))) (tried p e h (Suc 0)))"
  using assms by (cases "net_Do net h (webhook_request p e)") (auto simp: answered_def tried_def Let_def)

declare webhook_loop.simps(2) [simp del]

lemma webhook_loop_success:
  assumes "net_ParseURL net (mw_URL p) = Inr ()" "\<And>h. net_Done net h = None"
    and "k < n" "answered net p e (tried p e h k)" "\<forall>j < k. \<not> answered net p e (tried p e h j)"
  shows "\<exists>l'. webhook_loop net p e n l h = ((Some (Inr ()), l'), tried p e h (Suc k))"
  using assms(3-5)
proof (induction n arbitrary: k l h)
  case (Suc n)
  show ?case
  proof (cases k)
    case 0
    with Suc.prems show ?thesis by (simp add: webhook_loop_step [OF assms(1,2)])
  next
    case (Suc k')
    have "\<not> answered net p e h" using Suc.prems(3) Suc by fastforce
    moreover have "k' < n" "answered net p e (tried p e (tried p e h (Suc 0)) k')"
      "\<forall>j < k'. \<not> answered net p e (tried p e (tried p e h (Suc 0)) j)"
      using Suc.prems Suc by (auto simp: tried_Suc)
    note Suc.IH [OF this]
    ultimately show ?thesis by (simp add: webhook_loop_step [OF assms(1,2)] tried_Suc Suc)
  qed
qed simp

lemma webhook_loop_failure:
  assumes "net_ParseURL net (mw_URL p) = Inr ()" "\<And>h. net_Done net h = None"
    and "\<forall>j < n. \<not> answered net p e (tried p e h j)"
  shows "\<exists>l'. webhook_loop net p e n l h = ((None, l'), tried p e h n)"
  using assms(3)
proof (induction n arbitrary: l h)
  case (Suc n)
  have "\<not> answered net p e h" using Suc.prems by fastforce
  moreover have "\<forall>j < n. \<not> answered net p e (tried p e (tried p e h (Suc 0)) j)"
    using Suc.prems by (auto simp: tried_Suc)
  note Suc.IH [OF this]
  ultimately show ?case by (simp add: webhook_loop_step [OF assms(1,2)] tried_Suc)
qed simp

section \<open>Properties\<close>

text \<open>
  A round of the worker process, connected to the broker, changes nothing in the store but the
  published flags of events it claimed. Every event it marks was unpublished and was acknowledged
  by the broker during the round and, when a webhook URL is configured, accepted by the merchant's
  endpoint with a 2xx answer; an event is never marked before that. When the round reports no error,
  all claimed events are marked.
\<close>

theorem deliver_acknowledged:
  assumes "natsURL \<noteq> []" "memory_inv s" "visits (outbox s) (ctx 0)"
    and "OutboxWorker_Deliver (memoryStore D) ctx (worker_publisher net natsURL webhookURL secret) n (s, h)
           = (r, (s', h'))"
  shows "\<exists>es. claimable (outbox s) es \<and> s' = s\<lparr>outbox := mark_all es (outbox s)\<rparr> \<and>
     pending (outbox s') = pending (outbox s) - ev_ID ` set es \<and>
     (\<forall>e \<in> set es. delivered net webhookURL secret e h') \<and>
     (r = Inr () \<longrightarrow> Memory_ClaimOutbox (ctx 0) n s = (Inr es, s))"
proof -
  from mo.deliver_prefix [OF worker_establishes [OF assms(1)] assms(2-4)]
  obtain es where es: "claimable (outbox s) es" "outbox s' = mark_all es (outbox s)"
    "\<forall>e \<in> set es. delivered net webhookURL secret e h'"
    "r = Inr () \<longrightarrow> (\<exists>s1. Memory_ClaimOutbox (ctx 0) n s = (Inr es, s1))" by auto
  moreover have "s' = s\<lparr>outbox := mark_all es (outbox s)\<rparr>"
    using deliver_frame [OF assms(4)] es(2) by simp
  moreover have "r = Inr () \<longrightarrow> Memory_ClaimOutbox (ctx 0) n s = (Inr es, s)"
    using es(4) by (auto simp: Memory_ClaimOutbox_def split: if_splits)
  ultimately show ?thesis using pending_mark_all by metis
qed

text \<open>A broker and an endpoint that always accept.\<close>

definition demo_net :: Net where
  "demo_net = \<lparr>net_Publish = (\<lambda>_ _ _ _. None), net_Do = (\<lambda>_ _. Inr 200), net_ParseURL = (\<lambda>_. Inr ()),
     net_Done = (\<lambda>_. None)\<rparr>"

lemma demo_w2_outbox:
  "memory_inv (w_store demo_w2)" "visits (outbox (w_store demo_w2)) [env_uuid demo_env 3]"
  "pending (outbox (w_store demo_w2)) = {env_uuid demo_env 3}"
  using demo.mp.platform_book_inv(1) [OF demo_reachable(2)] memory_inv_New absM_New [of ce_val]
  by (auto simp: NewMemory_def demo_w2_eq visits_def pending_def demo_event_def split: if_splits)

theorem deliver_acknowledged_witness:
  "\<exists>es s' h'. OutboxWorker_Deliver (memoryStore ce_pkg) (\<lambda>_. [env_uuid demo_env 3])
       (worker_publisher demo_net ''nats'' [] []) 100 (w_store demo_w2, []) = (Inr (), (s', h')) \<and>
     (\<forall>e \<in> set es. delivered demo_net [] [] e h') \<and> pending (outbox s') = {}"
proof -
  have "works (worker_publisher demo_net ''nats'' [] [])"
    by (simp add: works_def worker_publisher_def NATSPublisher_Publish_def js_Publish_def demo_net_def)
  from deliver_round [where ctx = "\<lambda>_. [env_uuid demo_env 3]", OF demo_w2_outbox(1,2) _ this, of 100 ce_pkg "[]"]
  obtain s' h' where call: "OutboxWorker_Deliver (memoryStore ce_pkg) (\<lambda>_. [env_uuid demo_env 3])
       (worker_publisher demo_net ''nats'' [] []) 100 (w_store demo_w2, []) = (Inr (), (s', h'))"
    and card: "card (pending (outbox s')) = 0" and fin: "memory_inv s'"
    by (auto simp: demo_w2_outbox(3))
  have "finite (pending (outbox s'))"
    by (rule finite_subset [of _ "dom (outbox s')"]) (use fin in \<open>auto simp: pending_def memory_inv_def\<close>)
  with card have "pending (outbox s') = {}" by simp
  with call deliver_acknowledged [OF _ demo_w2_outbox(1,2) call] show ?thesis by auto
qed

text \<open>
  A worker whose publisher never fails drains the outbox: every round marks as many events as
  its batch allows, so after \<open>k\<close> rounds of batch size \<open>n\<close> with \<open>k * n\<close> at least the number of
  unpublished events none is left, whatever the order in which the map is read, and no event is lost.
\<close>

theorem worker_drains:
  assumes "memory_inv s" "\<And>j. visits (outbox s) (ctx j 0)" "0 < n" "works publisher"
    and "card (pending (outbox s)) \<le> k * nat n"
  shows "pending (outbox (fst (worker_rounds (memoryStore D) ctx publisher n k (s, h)))) = {} \<and>
     dom (outbox (fst (worker_rounds (memoryStore D) ctx publisher n k (s, h)))) = dom (outbox s)"
proof -
  let ?m = "outbox (fst (worker_rounds (memoryStore D) ctx publisher n k (s, h)))"
  have "card (pending ?m) = 0" and dom: "dom ?m = dom (outbox s)"
    using rounds_drain [where ctx = ctx, OF assms(1-4)] assms(5) by auto
  moreover have "pending ?m \<subseteq> dom ?m" by (auto simp: pending_def)
  then have "finite (pending ?m)" using assms(1) dom by (auto simp: memory_inv_def intro: finite_subset)
  ultimately show ?thesis by simp
qed

theorem worker_drains_witness:
  "pending (outbox (fst (worker_rounds (memoryStore ce_pkg) (\<lambda>_ _. [env_uuid demo_env 3])
     LogPublisher_Publish 1 1 (w_store demo_w2, [])))) = {}"
proof -
  have "works LogPublisher_Publish" by (simp add: works_def LogPublisher_Publish_def)
  from worker_drains [OF demo_w2_outbox(1) _ _ this, of "\<lambda>_ _. [env_uuid demo_env 3]" 1 1] demo_w2_outbox
  show ?thesis by simp
qed

text \<open>
  C34: With a URL that parses and a context that is not cancelled, the merchant webhook publisher
  sends the signed request until the first 2xx answer and then succeeds, having sent nothing
  more. When none of its attempts (three unless configured) is answered with 2xx, it has sent
  exactly that many requests, hands the event to the dead-letter publisher, and returns an error in
  every case; so the worker does not mark the event.
\<close>

theorem webhook_retries:
  assumes "mw_URL p \<noteq> []" "net_ParseURL net (mw_URL p) = Inr ()" "\<And>h. net_Done net h = None"
    and "n = (if mw_Attempts p < 1 then 3 else nat (mw_Attempts p))"
  shows "(\<forall>k < n. answered net p e (tried p e h k) \<and> (\<forall>j < k. \<not> answered net p e (tried p e h j)) \<longrightarrow>
        MerchantWebhookPublisher_Publish net p e h = (Inr (), tried p e h (Suc k))) \<and>
     ((\<forall>j < n. \<not> answered net p e (tried p e h j)) \<longrightarrow>
        (\<exists>x. MerchantWebhookPublisher_Publish net p e h =
           (Inl x, case mw_DeadLetter p of None \<Rightarrow> tried p e h n
                   | Some dl \<Rightarrow> snd (dl (dead_event e) (tried p e h n)))))"
proof (intro conjI allI impI)
  have n: "webhook_attempts p = n" by (simp add: webhook_attempts_def assms(4))
  fix k assume "k < n" "answered net p e (tried p e h k) \<and> (\<forall>j < k. \<not> answered net p e (tried p e h j))"
  then show "MerchantWebhookPublisher_Publish net p e h = (Inr (), tried p e h (Suc k))"
    using webhook_loop_success [OF assms(2,3), of k n e h None] assms(1)
    by (auto simp: MerchantWebhookPublisher_Publish_def n)
next
  have n: "webhook_attempts p = n" by (simp add: webhook_attempts_def assms(4))
  assume "\<forall>j < n. \<not> answered net p e (tried p e h j)"
  then obtain l where loop: "webhook_loop net p e n None h = ((None, l), tried p e h n)"
    using webhook_loop_failure [OF assms(2,3)] by blast
  then have "l \<noteq> None" using webhook_loop_last [OF loop] webhook_attempts_pos [of p] by (simp add: n)
  with loop assms(1) show "\<exists>x. MerchantWebhookPublisher_Publish net p e h =
      (Inl x, case mw_DeadLetter p of None \<Rightarrow> tried p e h n
              | Some dl \<Rightarrow> snd (dl (dead_event e) (tried p e h n)))"
    by (auto simp: MerchantWebhookPublisher_Publish_def n split: option.splits prod.splits sum.splits)
qed

theorem webhook_retries_witness:
  "\<exists>x. MerchantWebhookPublisher_Publish (demo_net\<lparr>net_Do := \<lambda>_ _. Inr 500\<rparr>)
     \<lparr>mw_URL = ''u'', mw_Secret = ''s'', mw_Attempts = 0, mw_DeadLetter = None\<rparr>
     (demo_event 3 demo_id ''payment.captured'' ''x'') [] =
   (Inl x, tried \<lparr>mw_URL = ''u'', mw_Secret = ''s'', mw_Attempts = 0, mw_DeadLetter = None\<rparr>
     (demo_event 3 demo_id ''payment.captured'' ''x'') [] 3)"
  using webhook_retries [of "\<lparr>mw_URL = ''u'', mw_Secret = ''s'', mw_Attempts = 0, mw_DeadLetter = None\<rparr>"
      "demo_net\<lparr>net_Do := \<lambda>_ _. Inr 500\<rparr>" 3 "demo_event 3 demo_id ''payment.captured'' ''x''" "[]"]
  by (simp add: demo_net_def answered_def)

text \<open>
  Connecting to the broker succeeds exactly when the connection and the JetStream context come
  up and the stream exists or, when the broker reports it missing, can be created; the stream is
  created in that case only, and every failure after the connection was opened closes it.
\<close>

theorem nats_connect:
  "let (r, calls) = NewNATSPublisher nc url;
       missing = nc_StreamInfo nc ''PAYMENT_EVENTS'' = Some (nc_ErrStreamNotFound nc);
       created = nc_AddStream nc ''PAYMENT_EVENTS'' [''payments.events'', ''payments.webhooks.dlq'']
   in (r = Inr () \<longleftrightarrow> nc_Connect nc url = None \<and> nc_JetStream nc = None \<and>
         (nc_StreamInfo nc ''PAYMENT_EVENTS'' = None \<or> missing \<and> created = None)) \<and>
      ((\<exists>subjects. NAddStream ''PAYMENT_EVENTS'' subjects \<in> set calls) \<longleftrightarrow>
         nc_Connect nc url = None \<and> nc_JetStream nc = None \<and> missing) \<and>
      (NClose \<in> set calls \<longleftrightarrow> nc_Connect nc url = None \<and> r \<noteq> Inr ())"
  by (auto simp: NewNATSPublisher_def Let_def split: option.splits)

end
