(* ===== verification/Reconciliation.thy ===== *)
theory Reconciliation
  imports Demo_Run
begin

text \<open>
  The reconciliation service (src/internal/service/reconciliation.go): provider settlement rows are
  compared with the payments of the store, and the rows that disagree are returned sorted by
  provider reference. Other requests may run between two lookups: \<open>ss k\<close> is the store as the \<open>k\<close>-th lookup
  finds it. \<open>sort.Slice\<close> is not stable: \<open>srt\<close> is the order it chose, a permutation of its argument
  sorted by the key.
\<close>

section \<open>Definitions\<close>

record 'd SettlementLine =
  sl_ProviderReference :: string
  sl_CapturedAmount :: 'd

record 'd ReconciliationMismatch =
  rm_ProviderReference :: string
  rm_Reason :: string
  rm_Expected :: 'd
  rm_Reported :: 'd

fun reconcile_loop ::
  "'d decimal_pkg \<Rightarrow> ('c, 's, 'd) Store \<Rightarrow> (nat \<Rightarrow> 'c) \<Rightarrow> (nat \<Rightarrow> 's) \<Rightarrow> 'd ReconciliationMismatch list
    \<Rightarrow> 'd SettlementLine list \<Rightarrow> 'd ReconciliationMismatch list result" where
  "reconcile_loop D S ctx ss mismatches [] = Inr mismatches"
| "reconcile_loop D S ctx ss mismatches (line # lines) =
     (case S_GetPaymentByProviderReference S (ctx 0) (sl_ProviderReference line) (ss 0) of
        Inl e \<Rightarrow>
          if e = ErrNotFound
          then reconcile_loop D S (\<lambda>k. ctx (Suc k)) (\<lambda>k. ss (Suc k))
                 (mismatches @ [\<lparr>rm_ProviderReference = sl_ProviderReference line,
                    rm_Reason = ''unknown_provider_payment'', rm_Expected = decNil D,
                    rm_Reported = sl_CapturedAmount line\<rparr>]) lines
          else Inl e
      | Inr payment \<Rightarrow>
          reconcile_loop D S (\<lambda>k. ctx (Suc k)) (\<lambda>k. ss (Suc k))
            (if \<not> decEqual D (p_CapturedAmount payment) (sl_CapturedAmount line)
             then mismatches @ [\<lparr>rm_ProviderReference = sl_ProviderReference line,
                    rm_Reason = ''captured_amount_mismatch'', rm_Expected = p_CapturedAmount payment,
                    rm_Reported = sl_CapturedAmount line\<rparr>]
             else mismatches) lines)"

definition Reconcile ::
  "'d decimal_pkg \<Rightarrow> ('d ReconciliationMismatch list \<Rightarrow> 'd ReconciliationMismatch list)
    \<Rightarrow> ('c, 's, 'd) Store \<Rightarrow> (nat \<Rightarrow> 'c) \<Rightarrow> 'd SettlementLine list \<Rightarrow> (nat \<Rightarrow> 's)
    \<Rightarrow> 'd ReconciliationMismatch list result" where
  "Reconcile D srt S ctx lines ss =
     (case reconcile_loop D S ctx ss [] lines of
        Inl e \<Rightarrow> Inl e
      | Inr mismatches \<Rightarrow> Inr (srt mismatches))"

text \<open>What \<open>sort.Slice\<close> with this comparison is documented to do.\<close>

definition sorts_by_reference ::
  "('d ReconciliationMismatch list \<Rightarrow> 'd ReconciliationMismatch list) \<Rightarrow> bool" where
  "sorts_by_reference srt \<longleftrightarrow>
     (\<forall>xs. mset (srt xs) = mset xs \<and> sorted (map rm_ProviderReference (srt xs)))"

section \<open>The lookup by reference\<close>

lemma find_reference_Some:
  "find_reference m r ks = Some p \<Longrightarrow> \<exists>k \<in> set ks. m k = Some p \<and> p_ProviderReference p = r"
  by (induction ks) (auto split: option.splits if_splits)

lemma find_reference_None:
  "find_reference m r ks = None \<longleftrightarrow> (\<forall>k \<in> set ks. \<forall>p. m k = Some p \<longrightarrow> p_ProviderReference p \<noteq> r)"
  by (induction ks) (auto split: option.splits)

text \<open>
  What a lookup may find: a payment with the reference, or nothing when there is none. When several
  payments share the reference it is one of them.
\<close>

definition lookup_ok :: "(string \<rightharpoonup> 'd Payment) \<Rightarrow> string \<Rightarrow> 'd Payment option \<Rightarrow> bool" where
  "lookup_ok m reference found \<longleftrightarrow>
     (case found of
        None \<Rightarrow> \<forall>i p. m i = Some p \<longrightarrow> p_ProviderReference p \<noteq> reference
      | Some p \<Rightarrow> p_ProviderReference p = reference \<and> p \<in> ran m)"

lemma lookup_ok_single:
  "lookup_ok [i \<mapsto> p] reference found \<longleftrightarrow> found = (if p_ProviderReference p = reference then Some p else None)"
  by (auto simp: lookup_ok_def split: option.splits if_splits)

lemma find_reference_ok: "visits m ks \<Longrightarrow> lookup_ok m reference (find_reference m reference ks)"
  using find_reference_Some [of m reference ks]
  by (auto simp: lookup_ok_def visits_def find_reference_None ran_def split: option.splits)

text \<open>The line agrees with the payment found: it was captured for the reported amount.\<close>

definition agrees :: "('d \<Rightarrow> rat) \<Rightarrow> 'd SettlementLine \<times> 'd Payment option \<Rightarrow> bool" where
  "agrees val x \<longleftrightarrow> (case snd x of
     None \<Rightarrow> False | Some p \<Rightarrow> val (p_CapturedAmount p) = val (sl_CapturedAmount (fst x)))"

text \<open>The mismatch that reports a line and the payment found for it.\<close>

definition reports :: "'d decimal_pkg \<Rightarrow> 'd SettlementLine \<times> 'd Payment option \<Rightarrow> 'd ReconciliationMismatch" where
  "reports D x = \<lparr>rm_ProviderReference = sl_ProviderReference (fst x),
     rm_Reason = (case snd x of None \<Rightarrow> ''unknown_provider_payment'' | Some _ \<Rightarrow> ''captured_amount_mismatch''),
     rm_Expected = (case snd x of None \<Rightarrow> decNil D | Some p \<Rightarrow> p_CapturedAmount p),
     rm_Reported = sl_CapturedAmount (fst x)\<rparr>"

context decimal_laws
begin

text \<open>One line: the payment found agrees with it, or one mismatch is added.\<close>

lemma reconcile_line:
  assumes "f = find_reference (payments (ss 0)) (sl_ProviderReference line) (ctx 0)"
  shows "reconcile_loop D (memoryStore D) ctx ss acc (line # lines) =
    reconcile_loop D (memoryStore D) (\<lambda>k. ctx (Suc k)) (\<lambda>k. ss (Suc k))
      (acc @ (if agrees val (line, f) then [] else [reports D (line, f)])) lines"
  by (cases f)
    (simp_all add: assms [symmetric] Memory_GetPaymentByProviderReference_def agrees_def reports_def)

lemma reconcile_loop_spec:
  assumes "\<And>k. visits (payments (ss k)) (ctx k)"
  shows "\<exists>found. length found = length lines \<and>
     (\<forall>k < length lines. lookup_ok (payments (ss k)) (sl_ProviderReference (lines ! k)) (found ! k)) \<and>
     reconcile_loop D (memoryStore D) ctx ss acc lines =
       Inr (acc @ map (reports D) (filter (\<lambda>x. \<not> agrees val x) (zip lines found)))"
  using assms
proof (induction lines arbitrary: ctx ss acc)
  case (Cons line lines)
  define f where "f = find_reference (payments (ss 0)) (sl_ProviderReference line) (ctx 0)"
  let ?acc = "acc @ (if agrees val (line, f) then [] else [reports D (line, f)])"
  have ok: "lookup_ok (payments (ss 0)) (sl_ProviderReference line) f"
    unfolding f_def by (rule find_reference_ok) (rule Cons.prems)
  obtain found where found: "length found = length lines"
    "\<forall>k < length lines. lookup_ok (payments (ss (Suc k))) (sl_ProviderReference (lines ! k)) (found ! k)"
    "reconcile_loop D (memoryStore D) (\<lambda>k. ctx (Suc k)) (\<lambda>k. ss (Suc k)) ?acc lines =
       Inr (?acc @ map (reports D) (filter (\<lambda>x. \<not> agrees val x) (zip lines found)))"
    using Cons.IH [of "\<lambda>k. ss (Suc k)" "\<lambda>k. ctx (Suc k)" ?acc] Cons.prems by blast
  have "reconcile_loop D (memoryStore D) ctx ss acc (line # lines) =
      Inr (acc @ map (reports D) (filter (\<lambda>x. \<not> agrees val x) (zip (line # lines) (f # found))))"
    unfolding reconcile_line [where ss = ss and ctx = ctx, OF f_def] found(3) by simp
  with found(1,2) ok show ?case by (intro exI [of _ "f # found"]) (auto simp: All_less_Suc2)
qed simp

end

section \<open>Properties\<close>

text \<open>
  C33: Over the memory store, with other requests running between the lookups, reconciliation finds for
  each line a payment that has its reference at that time, or none exactly when no payment has
  it; and it returns, sorted by reference, exactly one mismatch for each line whose payment is
  missing or was captured for another amount, and nothing else. Each mismatch carries the reference and
  the amount of the line, the reason that applies and the captured amount of the payment found. The
  list is empty exactly when every line agrees with its payment. When several payments
  share a reference, as all new ones do with the empty one, the line is compared with one of them.
\<close>

theorem reconcile_exact:
  assumes "decimal_laws D val" "sorts_by_reference srt" "\<And>k. visits (payments (ss k)) (ctx k)"
  shows "\<exists>found ms. length found = length lines \<and>
     (\<forall>k < length lines. lookup_ok (payments (ss k)) (sl_ProviderReference (lines ! k)) (found ! k)) \<and>
     Reconcile D srt (memoryStore D) ctx lines ss = Inr ms \<and> sorted (map rm_ProviderReference ms) \<and>
     mset ms = mset (map (reports D) (filter (\<lambda>x. \<not> agrees val x) (zip lines found))) \<and>
     (ms = [] \<longleftrightarrow> (\<forall>x \<in> set (zip lines found). agrees val x))"
proof -
  from decimal_laws.reconcile_loop_spec [where ss = ss and ctx = ctx and acc = "[]" and lines = lines, OF assms(1,3)]
  obtain found where
    found: "length found = length lines"
      "\<forall>k < length lines. lookup_ok (payments (ss k)) (sl_ProviderReference (lines ! k)) (found ! k)"
      "reconcile_loop D (memoryStore D) ctx ss [] lines =
         Inr (map (reports D) (filter (\<lambda>x. \<not> agrees val x) (zip lines found)))" by auto
  let ?xs = "map (reports D) (filter (\<lambda>x. \<not> agrees val x) (zip lines found))"
  have ms: "mset (srt ?xs) = mset ?xs" "sorted (map rm_ProviderReference (srt ?xs))"
    using assms(2) by (auto simp: sorts_by_reference_def)
  have "srt ?xs = [] \<longleftrightarrow> ?xs = []" using ms(1) by (metis mset_zero_iff)
  also have "\<dots> \<longleftrightarrow> (\<forall>x \<in> set (zip lines found). agrees val x)" by (auto simp: filter_empty_conv)
  finally show ?thesis using found ms by (auto simp: Reconcile_def)
qed

text \<open>Three lines against the demo payment, captured for 30.00: one agrees, one is unknown, one is off.\<close>

definition demo_lines :: "coef_exp SettlementLine list" where
  "demo_lines = [\<lparr>sl_ProviderReference = ''demo_00000000'', sl_CapturedAmount = Dec 300 (-1)\<rparr>,
     \<lparr>sl_ProviderReference = ''nobody'', sl_CapturedAmount = Dec 5 0\<rparr>,
     \<lparr>sl_ProviderReference = ''demo_00000000'', sl_CapturedAmount = Dec 31 0\<rparr>]"

theorem reconcile_exact_witness:
  "\<exists>ms. Reconcile ce_pkg (sort_key rm_ProviderReference) (memoryStore ce_pkg) (\<lambda>_. [demo_id]) demo_lines
       (\<lambda>_. w_store demo_w3) = Inr ms \<and>
     mset ms = {# \<lparr>rm_ProviderReference = ''demo_00000000'', rm_Reason = ''captured_amount_mismatch'',
         rm_Expected = Dec 30 0, rm_Reported = Dec 31 0\<rparr>,
       \<lparr>rm_ProviderReference = ''nobody'', rm_Reason = ''unknown_provider_payment'',
         rm_Expected = decNil ce_pkg, rm_Reported = Dec 5 0\<rparr> #}"
proof -
  have p: "payments (w_store demo_w3) = [demo_id \<mapsto> demo_captured]" by (simp add: demo_w3_eq)
  have "visits (payments (w_store demo_w3)) [demo_id]" by (simp add: visits_def p)
  moreover have "sorts_by_reference (sort_key rm_ProviderReference)" by (simp add: sorts_by_reference_def)
  ultimately obtain found ms where found: "length found = length demo_lines"
      "\<forall>k < length demo_lines. lookup_ok [demo_id \<mapsto> demo_captured] (sl_ProviderReference (demo_lines ! k)) (found ! k)"
      "Reconcile ce_pkg (sort_key rm_ProviderReference) (memoryStore ce_pkg) (\<lambda>_. [demo_id]) demo_lines
         (\<lambda>_. w_store demo_w3) = Inr ms"
      "mset ms = mset (map (reports ce_pkg) (filter (\<lambda>x. \<not> agrees ce_val x) (zip demo_lines found)))"
    using reconcile_exact [OF ce.decimal_laws_axioms, of "sort_key rm_ProviderReference" "\<lambda>_. w_store demo_w3"
        "\<lambda>_. [demo_id]" demo_lines] p by auto
  from found(1) obtain a b c where abc: "found = [a, b, c]"
    by (auto simp: demo_lines_def length_Suc_conv)
  have "a = Some demo_captured" "b = None" "c = Some demo_captured"
    using found(2) unfolding abc
    by (simp_all add: demo_lines_def All_less_Suc2 lookup_ok_single numeral_3_eq_3)
  with found(3,4) abc show ?thesis
    by (simp add: demo_lines_def agrees_def reports_def power_int_def)
qed

end
