(* ===== verification/Security.thy ===== *)
theory Security
  imports Go_Crypto "HOL-Library.AList"
begin

text \<open>
  Authentication and rate limiting (src/internal/httpapi/security.go). The keys of the authenticator
  are a Go map, here its association list; \<open>ks\<close> is the order in which \<open>range\<close> visits the keys.
  Times are nanoseconds.
\<close>

section \<open>Merchant authentication\<close>

type_synonym MerchantAuthenticator = "(string \<times> string) list"

fun auth_items :: "(string \<times> string) list \<Rightarrow> string list \<Rightarrow> (string \<times> string) list" where
  "auth_items keys [] = keys"
| "auth_items keys (item # items) =
     (case SplitN2 CHR '':'' (TrimSpace item) of
        [a, b] \<Rightarrow> auth_items (if a \<noteq> [] \<and> b \<noteq> [] then AList.update a b keys else keys) items
      | _ \<Rightarrow> auth_items keys items)"

definition NewMerchantAuthenticator :: "string \<Rightarrow> MerchantAuthenticator" where
  "NewMerchantAuthenticator serialized = auth_items [] (Split CHR '','' serialized)"

fun auth_search :: "(string \<rightharpoonup> string) \<Rightarrow> string \<Rightarrow> string list \<Rightarrow> string \<times> bool" where
  "auth_search keys key [] = ([], False)"
| "auth_search keys key (candidate # ks) =
     (case keys candidate of
        Some merchant \<Rightarrow>
          if ConstantTimeCompare candidate key = 1 then (merchant, True)
          else auth_search keys key ks
      | None \<Rightarrow> auth_search keys key ks)"

definition Authenticate :: "MerchantAuthenticator \<Rightarrow> string list \<Rightarrow> string \<Rightarrow> string \<times> bool" where
  "Authenticate a ks key =
     (if length a = 0 then ([], True) else auth_search (map_of a) key ks)"

section \<open>The in-memory rate limiter\<close>

record memoryRateLimiter =
  hits :: "string \<rightharpoonup> int list"
  limit :: int
  window :: int

definition NewMemoryRateLimiter :: "int \<Rightarrow> int \<Rightarrow> memoryRateLimiter" where
  "NewMemoryRateLimiter lmt win = \<lparr>hits = Map.empty, limit = lmt, window = win\<rparr>"

text \<open>
  The loop that keeps the recent hits. \<open>recent\<close> starts as \<open>l.hits[key][:0]\<close> and shares the array the
  loop reads, so an append overwrites the array in place: \<open>i\<close> is the index read next, \<open>j\<close> the
  length of \<open>recent\<close>, \<open>n\<close> the number of elements left.
\<close>

fun recent_loop :: "(int \<Rightarrow> bool) \<Rightarrow> int list \<Rightarrow> nat \<Rightarrow> nat \<Rightarrow> nat \<Rightarrow> int list \<times> nat" where
  "recent_loop keep arr i j 0 = (arr, j)"
| "recent_loop keep arr i j (Suc n) =
     (if keep (arr ! i) then recent_loop keep (arr[j := arr ! i]) (Suc i) (Suc j) n
      else recent_loop keep arr (Suc i) j n)"

definition memory_Allow :: "int \<Rightarrow> string \<Rightarrow> (memoryRateLimiter, bool) op" where
  "memory_Allow now key l =
     (let old = (case hits l key of None \<Rightarrow> [] | Some hs \<Rightarrow> hs);
          (arr, j) = recent_loop (\<lambda>hit. now - hit < window l) old 0 0 (length old);
          recent = take j arr
      in if int (length recent) \<ge> limit l
         then (Inr False, l\<lparr>hits := (hits l)(key \<mapsto> recent)\<rparr>)
         else (Inr True, l\<lparr>hits := (hits l)(key \<mapsto> recent @ [now])\<rparr>))"

section \<open>The Redis rate limiter\<close>

text \<open>The two commands of the client the limiter uses, on the state \<open>'r\<close> of the server.\<close>

record 'r RedisClient =
  rc_Incr :: "string \<Rightarrow> ('r, int) op"
  rc_Expire :: "string \<Rightarrow> int \<Rightarrow> ('r, unit) op"

definition redis_Allow :: "'r RedisClient \<Rightarrow> int \<Rightarrow> int \<Rightarrow> string \<Rightarrow> ('r, bool) op" where
  "redis_Allow client lmt win key r =
     (let bucket = ''payment-platform:rate:'' @ key
      in case rc_Incr client bucket r of
           (Inl e, r') \<Rightarrow> (Inl e, r')
         | (Inr cnt, r') \<Rightarrow>
             (if cnt = 1
              then case rc_Expire client bucket win r' of
                     (Inl e, r'') \<Rightarrow> (Inl e, r'')
                   | (Inr _, r'') \<Rightarrow> (Inr (cnt \<le> lmt), r'')
              else (Inr (cnt \<le> lmt), r')))"

text \<open>
  The interface \<open>RateLimiter\<close> and its two implementations. \<open>now\<close> is the time of the call, which only
  the memory limiter reads itself. \<open>parseURL\<close> is \<open>redis.ParseURL\<close> followed by \<open>redis.NewClient\<close>.
\<close>

datatype 'r RateLimiter =
  MemoryLimiter memoryRateLimiter
| RedisRateLimiter "'r RedisClient" int int 'r

definition NewRedisRateLimiter ::
  "(string \<Rightarrow> ('r RedisClient \<times> 'r) result) \<Rightarrow> string \<Rightarrow> int \<Rightarrow> int \<Rightarrow> 'r RateLimiter result" where
  "NewRedisRateLimiter parseURL url lmt win =
     (case parseURL url of
        Inl e \<Rightarrow> Inl e
      | Inr (client, r) \<Rightarrow> Inr (RedisRateLimiter client lmt win r))"

fun Allow :: "int \<Rightarrow> string \<Rightarrow> ('r RateLimiter, bool) op" where
  "Allow now key (MemoryLimiter l) =
     (case memory_Allow now key l of (b, l') \<Rightarrow> (b, MemoryLimiter l'))"
| "Allow now key (RedisRateLimiter client lmt win r) =
     (case redis_Allow client lmt win key r of (b, r') \<Rightarrow> (b, RedisRateLimiter client lmt win r'))"

section \<open>Authentication finds the configured merchant\<close>

lemma auth_search_eq:
  "distinct ks \<Longrightarrow> set ks = dom keys \<Longrightarrow>
   auth_search keys key ks = (case keys key of None \<Rightarrow> ([], False) | Some m \<Rightarrow> (m, True))"
proof -
  have "auth_search keys key ks = (if key \<in> set ks then (case keys key of None \<Rightarrow> ([], False)
      | Some m \<Rightarrow> (m, True)) else ([], False))" for ks
    by (induction ks) (auto simp: ConstantTimeCompare_iff split: option.splits)
  then show "set ks = dom keys \<Longrightarrow> ?thesis" by (auto split: option.splits)
qed

lemma auth_items_merchant:
  "map_of (auth_items keys items) k = Some m \<Longrightarrow> (\<forall>k m. map_of keys k = Some m \<longrightarrow> k \<noteq> [] \<and> m \<noteq> []) \<Longrightarrow>
   k \<noteq> [] \<and> m \<noteq> []"
proof (induction items arbitrary: keys)
  case (Cons item items)
  then show ?case
    by (auto simp: update_conv' split: list.splits if_splits)
qed simp

section \<open>The limiter against a reference\<close>

text \<open>The in-place loop computes a filter, although it overwrites what it reads from.\<close>

lemma recent_loop_filter:
  assumes "j \<le> i" "i + n = length arr"
  shows "\<exists>arr' j'. recent_loop keep arr i j n = (arr', j') \<and>
     take j' arr' = take j arr @ filter keep (drop i arr)"
  using assms
proof (induction n arbitrary: arr i j)
  case (Suc n)
  have i: "i < length arr" using Suc.prems by simp
  then have drop: "drop i arr = arr ! i # drop (Suc i) arr" by (rule Cons_nth_drop_Suc [symmetric])
  show ?case
  proof (cases "keep (arr ! i)")
    case True
    let ?arr = "arr[j := arr ! i]"
    have "take (Suc j) ?arr = take j arr @ [arr ! i]"
      using Suc.prems i by (simp add: take_Suc_conv_app_nth)
    moreover have "drop (Suc i) ?arr = drop (Suc i) arr" using Suc.prems by simp
    moreover obtain arr' j' where "recent_loop keep ?arr (Suc i) (Suc j) n = (arr', j')"
      "take j' arr' = take (Suc j) ?arr @ filter keep (drop (Suc i) ?arr)"
      using Suc.IH [of "Suc j" "Suc i" ?arr] Suc.prems by auto
    ultimately show ?thesis using True drop by simp
  next
    case False
    with Suc.IH [of j "Suc i" arr] Suc.prems drop show ?thesis by simp
  qed
qed simp

lemma memory_Allow_eq:
  "memory_Allow now key l =
     (let recent = filter (\<lambda>hit. now - hit < window l) (case hits l key of None \<Rightarrow> [] | Some hs \<Rightarrow> hs)
      in if int (length recent) \<ge> limit l
         then (Inr False, l\<lparr>hits := (hits l)(key \<mapsto> recent)\<rparr>)
         else (Inr True, l\<lparr>hits := (hits l)(key \<mapsto> recent @ [now])\<rparr>))"
proof -
  let ?old = "case hits l key of None \<Rightarrow> [] | Some hs \<Rightarrow> hs"
  obtain arr j where "recent_loop (\<lambda>hit. now - hit < window l) ?old 0 0 (length ?old) = (arr, j)"
    "take j arr = filter (\<lambda>hit. now - hit < window l) ?old"
    using recent_loop_filter [of 0 0 "length ?old" ?old "\<lambda>hit. now - hit < window l"] by auto
  then show ?thesis by (simp add: memory_Allow_def Let_def del: length_take)
qed

text \<open>
  The reference keeps every accepted call and counts those inside the window. \<open>allow_run\<close> and
  \<open>reference_run\<close> answer a list of calls, each a time and a key.
\<close>

fun allow_run :: "memoryRateLimiter \<Rightarrow> (int \<times> string) list \<Rightarrow> bool list" where
  "allow_run l [] = []"
| "allow_run l ((now, key) # calls) =
     (case memory_Allow now key l of (r, l') \<Rightarrow> (r = Inr True) # allow_run l' calls)"

fun reference_run :: "int \<Rightarrow> int \<Rightarrow> (int \<times> string) list \<Rightarrow> (int \<times> string) list \<Rightarrow> bool list" where
  "reference_run lmt win accepted [] = []"
| "reference_run lmt win accepted ((now, key) # calls) =
     (let ok = int (length (filter (\<lambda>(t, k). k = key \<and> now - t < win) accepted)) < lmt
      in ok # reference_run lmt win (if ok then accepted @ [(now, key)] else accepted) calls)"

definition limiter_rel :: "memoryRateLimiter \<Rightarrow> (int \<times> string) list \<Rightarrow> int \<Rightarrow> bool" where
  "limiter_rel l accepted t0 \<longleftrightarrow>
     (\<forall>key now. t0 \<le> now \<longrightarrow>
        filter (\<lambda>hit. now - hit < window l) (case hits l key of None \<Rightarrow> [] | Some hs \<Rightarrow> hs) =
        filter (\<lambda>t. now - t < window l) (map fst (filter (\<lambda>(t, k). k = key) accepted)))"

lemma filter_window:
  "now \<le> (now' :: int) \<Longrightarrow> filter (\<lambda>t. now' - t < w) (filter (\<lambda>t. now - t < w) xs) =
     filter (\<lambda>t. now' - t < w) xs"
  by (induction xs) auto

lemma limiter_rel_step:
  assumes rel: "limiter_rel l accepted t0" and now: "t0 \<le> now"
    and call: "memory_Allow now key l = (r, l')"
    and ok: "ok = (int (length (filter (\<lambda>(t, k). k = key \<and> now - t < window l) accepted)) < limit l)"
  shows "(r = Inr True) = ok \<and> window l' = window l \<and> limit l' = limit l \<and>
     limiter_rel l' (if ok then accepted @ [(now, key)] else accepted) now"
proof -
  let ?old = "\<lambda>l key. case hits l key of None \<Rightarrow> [] | Some hs \<Rightarrow> hs"
  let ?f = "\<lambda>now. filter (\<lambda>t. now - t < window l)"
  let ?log = "\<lambda>key. map fst (filter (\<lambda>(t, k). k = key) accepted)"
  have "length (?f now (?old l key)) = length (filter (\<lambda>(t, k). k = key \<and> now - t < window l) accepted)"
  proof -
    have "length (?f now (map fst (filter (\<lambda>(t, k). k = key) acc))) =
        length (filter (\<lambda>(t, k). k = key \<and> now - t < window l) acc)" for acc
      by (induction acc) auto
    with rel now show ?thesis by (simp add: limiter_rel_def)
  qed
  with call ok have l': "l' = l\<lparr>hits := (hits l)(key \<mapsto> ?f now (?old l key) @ (if ok then [now] else []))\<rparr>"
    "(r = Inr True) = ok"
    by (auto simp: memory_Allow_eq Let_def split: if_splits)
  have "?f now' (?old l' k) = ?f now' (map fst (filter (\<lambda>(t, j). j = k)
      (if ok then accepted @ [(now, key)] else accepted)))" if "now \<le> now'" for now' k
  proof -
    have eq: "?f now' (?old l k) = ?f now' (?log k)" using rel now that by (simp add: limiter_rel_def)
    show ?thesis
    proof (cases "k = key")
      case True
      with eq filter_window [OF that, of "window l" "?old l key"] show ?thesis by (simp add: l'(1))
    next
      case False
      with eq show ?thesis by (simp add: l'(1))
    qed
  qed
  with l' show ?thesis by (simp add: limiter_rel_def)
qed

lemma limiter_reference:
  assumes "limiter_rel l accepted t0" "sorted (t0 # map fst calls)"
  shows "allow_run l calls = reference_run (limit l) (window l) accepted calls"
  using assms
proof (induction calls arbitrary: l accepted t0)
  case (Cons c calls)
  obtain now key where c: "c = (now, key)" by fastforce
  obtain r l' where call: "memory_Allow now key l = (r, l')" by fastforce
  have "t0 \<le> now" using Cons.prems(2) c by simp
  note step = limiter_rel_step [OF Cons.prems(1) this call refl]
  have "sorted (now # map fst calls)" using Cons.prems(2) c by simp
  with Cons.IH [of l' _ now] step show ?case by (simp add: c call Let_def)
qed simp

section \<open>Accepted calls in a window\<close>

definition in_window :: "int \<Rightarrow> string \<Rightarrow> int \<Rightarrow> (int \<times> string) list \<Rightarrow> nat" where
  "in_window win key t calls = length (filter (\<lambda>(s, k). k = key \<and> t - win < s \<and> s \<le> t) calls)"

fun accepted_calls :: "(int \<times> string) list \<Rightarrow> bool list \<Rightarrow> (int \<times> string) list" where
  "accepted_calls (c # cs) (ok # oks) = (if ok then c # accepted_calls cs oks else accepted_calls cs oks)"
| "accepted_calls _ _ = []"

lemma in_window_append [simp]:
  "in_window win key t (xs @ ys) = in_window win key t xs + in_window win key t ys"
  by (simp add: in_window_def)

lemma in_window_accept:
  assumes "\<forall>t key. int (in_window win key t acc) \<le> max 0 lmt" "\<forall>(s, k) \<in> set acc. s \<le> now"
    and ok: "int (length (filter (\<lambda>(t, k). k = key \<and> now - t < win) acc)) < lmt"
  shows "int (in_window win k t (acc @ [(now, key)])) \<le> max 0 lmt"
proof (cases "k = key \<and> t - win < now \<and> now \<le> t")
  case True
  have "in_window win key t acc \<le> length (filter (\<lambda>(t, k). k = key \<and> now - t < win) acc)"
    unfolding in_window_def using True by (induction acc) auto
  with ok True show ?thesis by (simp add: in_window_def [of win key t "[(now, key)]"])
next
  case False
  with assms(1) show ?thesis by (auto simp: in_window_def [of win k t "[(now, key)]"])
qed

lemma reference_window:
  assumes "\<forall>t key. int (in_window win key t acc) \<le> max 0 lmt" "\<forall>(s, k) \<in> set acc. s \<le> t0"
    and "sorted (t0 # map fst calls)"
  shows "int (in_window win key t (acc @ accepted_calls calls (reference_run lmt win acc calls)))
     \<le> max 0 lmt"
  using assms
proof (induction calls arbitrary: acc t0)
  case (Cons c calls)
  obtain now k where c: "c = (now, k)" by fastforce
  let ?ok = "int (length (filter (\<lambda>(t, j). j = k \<and> now - t < win) acc)) < lmt"
  let ?acc = "if ?ok then acc @ [(now, k)] else acc"
  have times: "t0 \<le> now" "sorted (now # map fst calls)" using Cons.prems(3) c by auto
  have le: "\<forall>(s, k) \<in> set acc. s \<le> now" using Cons.prems(2) times(1) by fastforce
  have "\<forall>t key. int (in_window win key t ?acc) \<le> max 0 lmt"
    using Cons.prems(1) in_window_accept [OF Cons.prems(1) le] by (cases ?ok) auto
  moreover have "\<forall>(s, k) \<in> set ?acc. s \<le> now" using le by auto
  ultimately have "int (in_window win key t (?acc @ accepted_calls calls (reference_run lmt win ?acc calls)))
      \<le> max 0 lmt"
    using times(2) by (rule Cons.IH)
  then show ?case by (cases ?ok) (simp_all add: c Let_def)
qed (simp add: in_window_def)

section \<open>Properties\<close>

text \<open>
  C37: The authenticator built from the configuration string accepts a key exactly when the key
  is configured, with the merchant configured for it, whatever the order in which the map is
  visited; configured keys and merchants are never empty. When the string configures no key at all,
  every request passes without a merchant.
\<close>

theorem authenticate_exact:
  assumes "a = NewMerchantAuthenticator serialized" "distinct ks" "set ks = dom (map_of a)"
  shows "Authenticate a ks key =
       (if a = [] then ([], True)
        else case map_of a key of None \<Rightarrow> ([], False) | Some m \<Rightarrow> (m, True)) \<and>
     (\<forall>m. map_of a key = Some m \<longrightarrow> key \<noteq> [] \<and> m \<noteq> [])"
  unfolding Authenticate_def auth_search_eq [OF assms(2,3)]
  using auth_items_merchant [of "[]" "Split CHR '','' serialized" key]
  by (auto simp: assms(1) NewMerchantAuthenticator_def)

theorem authenticate_exact_witness:
  "Authenticate (NewMerchantAuthenticator ''key-a:merchant-a, key-b:merchant-b'') [''key-b'', ''key-a'']
     ''key-b'' = (''merchant-b'', True)"
proof -
  have a: "NewMerchantAuthenticator ''key-a:merchant-a, key-b:merchant-b'' =
      [(''key-a'', ''merchant-a''), (''key-b'', ''merchant-b'')]"
    by code_simp
  show ?thesis
    using authenticate_exact [OF refl, of "[''key-b'', ''key-a'']" "''key-a:merchant-a, key-b:merchant-b''"
        "''key-b''"] by (simp add: a) auto
qed

text \<open>
  C38: The in-memory limiter, which filters the list of hits in place while it reads it and drops
  old hits, answers every sequence of calls at non-decreasing times exactly like the limiter that
  keeps all accepted calls and counts those of the key within the window.
\<close>

theorem limiter_equivalence:
  assumes "sorted (map fst calls)"
  shows "allow_run (NewMemoryRateLimiter lmt win) calls = reference_run lmt win [] calls"
proof -
  let ?t0 = "if calls = [] then 0 else fst (hd calls)"
  have "limiter_rel (NewMemoryRateLimiter lmt win) [] ?t0"
    by (simp add: limiter_rel_def NewMemoryRateLimiter_def)
  moreover have "sorted (?t0 # map fst calls)" using assms by (cases calls) auto
  ultimately show ?thesis
    using limiter_reference [of "NewMemoryRateLimiter lmt win"] by (simp add: NewMemoryRateLimiter_def)
qed

theorem limiter_equivalence_witness:
  "allow_run (NewMemoryRateLimiter 1 10) [(0, ''m''), (5, ''m''), (10, ''m'')] = [True, False, True]"
  using limiter_equivalence [of "[(0, ''m''), (5, ''m''), (10, ''m'')]" 1 10] by (simp add: Let_def)

text \<open>
  C39: In no window of the configured length does the in-memory limiter accept more calls of one
  merchant than its limit.
\<close>

theorem limiter_window:
  assumes "sorted (map fst calls)"
  shows "int (in_window win key t
       (accepted_calls calls (allow_run (NewMemoryRateLimiter lmt win) calls))) \<le> max 0 lmt"
proof -
  let ?t0 = "if calls = [] then 0 else fst (hd calls)"
  let ?l = "NewMemoryRateLimiter lmt win"
  have rel: "limiter_rel ?l [] ?t0" by (simp add: limiter_rel_def NewMemoryRateLimiter_def)
  have sorted: "sorted (?t0 # map fst calls)" using assms by (cases calls) auto
  have "allow_run ?l calls = reference_run lmt win [] calls"
    using limiter_reference [OF rel sorted] by (simp add: NewMemoryRateLimiter_def)
  then show ?thesis
    using reference_window [of win "[]" lmt ?t0 calls key t] sorted by (simp add: in_window_def)
qed

theorem limiter_window_witness:
  "int (in_window 60 ''m'' 30 (accepted_calls [(0, ''m''), (5, ''m''), (10, ''m'')]
     (allow_run (NewMemoryRateLimiter 2 60) [(0, ''m''), (5, ''m''), (10, ''m'')]))) \<le> 2"
  using limiter_window [of "[(0, ''m''), (5, ''m''), (10, ''m'')]" 60 "''m''" 30 2] by simp

text \<open>
  A Redis server that counts: \<open>INCR\<close> adds one to the counter of the bucket and returns it, \<open>EXPIRE\<close>
  changes no counter. \<open>redis_run\<close> answers \<open>n\<close> calls of one merchant.
\<close>

definition redis_counts :: "'r RedisClient \<Rightarrow> ('r \<Rightarrow> string \<Rightarrow> int) \<Rightarrow> bool" where
  "redis_counts client cnt \<longleftrightarrow>
     (\<forall>b r. \<exists>r'. rc_Incr client b r = (Inr (cnt r b + 1), r') \<and> cnt r' = (cnt r)(b := cnt r b + 1)) \<and>
     (\<forall>b w r. \<exists>r'. rc_Expire client b w r = (Inr (), r') \<and> cnt r' = cnt r)"

fun redis_run :: "'r RedisClient \<Rightarrow> int \<Rightarrow> int \<Rightarrow> string \<Rightarrow> nat \<Rightarrow> 'r \<Rightarrow> bool result list" where
  "redis_run client lmt win key 0 r = []"
| "redis_run client lmt win key (Suc n) r =
     (case redis_Allow client lmt win key r of (a, r') \<Rightarrow> a # redis_run client lmt win key n r')"

lemma redis_Allow_counts:
  assumes "redis_counts client cnt"
  shows "\<exists>r'. redis_Allow client lmt win key r =
     (Inr (cnt r (''payment-platform:rate:'' @ key) + 1 \<le> lmt), r') \<and>
     cnt r' = (cnt r)(''payment-platform:rate:'' @ key := cnt r (''payment-platform:rate:'' @ key) + 1)"
proof -
  define b where "b = ''payment-platform:rate:'' @ key"
  have incr: "\<exists>r'. rc_Incr client b r = (Inr (cnt r b + 1), r') \<and> cnt r' = (cnt r)(b := cnt r b + 1)"
    and expire: "\<exists>r'. rc_Expire client b win r1 = (Inr (), r') \<and> cnt r' = cnt r1" for r1
    using assms unfolding redis_counts_def by blast+
  from incr obtain r1 where r1: "rc_Incr client b r = (Inr (cnt r b + 1), r1)"
    "cnt r1 = (cnt r)(b := cnt r b + 1)" by blast
  from expire obtain r2 where r2: "rc_Expire client b win r1 = (Inr (), r2)" "cnt r2 = cnt r1" by blast
  show ?thesis
    unfolding redis_Allow_def Let_def b_def [symmetric]
    by (cases "cnt r b + 1 = 1") (use r1 r2 in auto)
qed

lemma redis_run_counts:
  assumes "redis_counts client cnt"
  shows "redis_run client lmt win key n r =
     map (\<lambda>i. Inr (cnt r (''payment-platform:rate:'' @ key) + 1 + int i \<le> lmt)) [0..<n]"
proof (induction n arbitrary: r)
  case (Suc n)
  obtain r' where "redis_Allow client lmt win key r =
      (Inr (cnt r (''payment-platform:rate:'' @ key) + 1 \<le> lmt), r')"
    "cnt r' = (cnt r)(''payment-platform:rate:'' @ key := cnt r (''payment-platform:rate:'' @ key) + 1)"
    using redis_Allow_counts [OF assms] by blast
  then show ?case
    by (simp add: Suc.IH map_upt_Suc algebra_simps del: upt_Suc)
qed simp

text \<open>
  Over a Redis server that counts, between two expiries of a merchant's bucket the Redis
  limiter allows exactly the first \<open>limit\<close> calls and refuses all later ones.
\<close>

theorem redis_fixed_window:
  assumes "redis_counts client cnt" "cnt r (''payment-platform:rate:'' @ key) = 0" "0 \<le> lmt"
  shows "redis_run client lmt win key n r =
     replicate (min n (nat lmt)) (Inr True) @ replicate (n - nat lmt) (Inr False)"
proof (rule nth_equalityI)
  show "length (redis_run client lmt win key n r) =
      length (replicate (min n (nat lmt)) (Inr True :: bool result) @ replicate (n - nat lmt) (Inr False))"
    by (simp add: redis_run_counts [OF assms(1)])
  fix i assume "i < length (redis_run client lmt win key n r)"
  then have "i < n" by (simp add: redis_run_counts [OF assms(1)])
  then show "redis_run client lmt win key n r ! i =
      (replicate (min n (nat lmt)) (Inr True) @ replicate (n - nat lmt) (Inr False)) ! i"
    using assms(2,3) by (auto simp: redis_run_counts [OF assms(1)] nth_append)
qed

theorem redis_fixed_window_witness:
  "redis_run \<lparr>rc_Incr = (\<lambda>b r. (Inr (r b + 1), r(b := r b + 1))), rc_Expire = (\<lambda>b w r. (Inr (), r))\<rparr>
     2 60 ''m'' 3 (\<lambda>_. 0) = [Inr True, Inr True, Inr False]"
proof -
  have "redis_counts \<lparr>rc_Incr = (\<lambda>b r. (Inr (r b + 1), r(b := r b + 1))), rc_Expire = (\<lambda>b w r. (Inr (), r))\<rparr>
      (\<lambda>r. r)"
    by (simp add: redis_counts_def)
  from redis_fixed_window [OF this, of "\<lambda>_. 0" "''m''" 2 60 3] show ?thesis
    by (simp add: eval_nat_numeral)
qed

end
