(* ===== verification/Go_Json.thy ===== *)
theory Go_Json
  imports Go_Strings Ledger_Prelude
begin

text \<open>
  The decoder of encoding/json as far as the handlers use it: JSON texts into values, and values
  into structures with string, boolean and list fields. The parser is total: its fuel is one
  more than twice the length of the text, and more fuel never changes the result.
\<close>

section \<open>Strings\<close>

definition replacement :: string where
  "replacement = [CHR 0xEF, CHR 0xBF, CHR 0xBD]"

definition utf8_encode :: "nat \<Rightarrow> string" where
  "utf8_encode r =
     (if r < 0x80 then [char_of r]
      else if r < 0x800 then [char_of (0xC0 + r div 64), char_of (0x80 + r mod 64)]
      else if r < 0x10000
      then [char_of (0xE0 + r div 4096), char_of (0x80 + r div 64 mod 64), char_of (0x80 + r mod 64)]
      else [char_of (0xF0 + r div 262144), char_of (0x80 + r div 4096 mod 64),
            char_of (0x80 + r div 64 mod 64), char_of (0x80 + r mod 64)])"

fun hex4 :: "string \<Rightarrow> nat option" where
  "hex4 (a # b # c # d # s) =
     (case (hexValue a, hexValue b, hexValue c, hexValue d) of
        (Some i, Some j, Some k, Some l) \<Rightarrow> Some (((i * 16 + j) * 16 + k) * 16 + l)
      | _ \<Rightarrow> None)"
| "hex4 _ = None"

text \<open>The second half of a surrogate pair: \<open>\uXXXX\<close> at the head of the text.\<close>

definition surrogate_pair :: "nat \<Rightarrow> string \<Rightarrow> nat option" where
  "surrogate_pair r s =
     (case s of
        b # u # s' \<Rightarrow>
          if b = CHR 0x5C \<and> u = CHR ''u'' then
            (case hex4 s' of
               None \<Rightarrow> None
             | Some r' \<Rightarrow>
                 if 0xD800 \<le> r \<and> r < 0xDC00 \<and> 0xDC00 \<le> r' \<and> r' < 0xE000
                 then Some (0x10000 + (r - 0xD800) * 1024 + (r' - 0xDC00)) else None)
          else None
      | _ \<Rightarrow> None)"

definition simple_escape :: "char \<Rightarrow> char option" where
  "simple_escape e =
     (if e = CHR 0x22 \<or> e = CHR 0x5C \<or> e = CHR ''/'' then Some e
      else if e = CHR ''b'' then Some (CHR 0x08)
      else if e = CHR ''f'' then Some (CHR 0x0C)
      else if e = CHR ''n'' then Some (CHR 0x0A)
      else if e = CHR ''r'' then Some (CHR 0x0D)
      else if e = CHR ''t'' then Some (CHR 0x09) else None)"

text \<open>The rest of a string after its opening quote: the decoded bytes and the text that follows.\<close>

definition prepend :: "string \<Rightarrow> (string \<times> string) option \<Rightarrow> (string \<times> string) option" where
  "prepend p q = map_option (apfst ((@) p)) q"

function parse_chars :: "string \<Rightarrow> (string \<times> string) option" where
  "parse_chars [] = None"
| "parse_chars (c # s) =
     (if c = CHR 0x22 then Some ([], s)
      else if c = CHR 0x5C then
        (case s of
           [] \<Rightarrow> None
         | e # s' \<Rightarrow>
             if e = CHR ''u'' then
               (case hex4 s' of
                  None \<Rightarrow> None
                | Some r \<Rightarrow>
                    if 0xD800 \<le> r \<and> r < 0xE000 then
                      (case surrogate_pair r (drop 4 s') of
                         Some r' \<Rightarrow> prepend (utf8_encode r') (parse_chars (drop 10 s'))
                       | None \<Rightarrow> prepend replacement (parse_chars (drop 4 s')))
                    else prepend (utf8_encode r) (parse_chars (drop 4 s')))
             else (case simple_escape e of
                     None \<Rightarrow> None
                   | Some b \<Rightarrow> prepend [b] (parse_chars s')))
      else if of_char c < (32 :: nat) then None
      else if of_char c < (128 :: nat) then prepend [c] (parse_chars s)
      else if utf8_len (c # s) = 0 then prepend replacement (parse_chars s)
      else prepend (take (utf8_len (c # s)) (c # s)) (parse_chars (drop (utf8_len (c # s)) (c # s))))"
  by pat_completeness auto
termination
  by (relation "measure length") (auto simp: less_Suc_eq_le)

declare parse_chars.simps(2) [simp del]

section \<open>Values\<close>

datatype json = JNull | JBool bool | JNum string | JStr string | JArr "json list"
  | JObj "(string \<times> json) list"

definition skip_space :: "string \<Rightarrow> string" where
  "skip_space s = dropWhile (\<lambda>c. c \<in> {CHR '' '', CHR 0x09, CHR 0x0A, CHR 0x0D}) s"

definition digits :: "string \<Rightarrow> string \<times> string" where
  "digits s = (takeWhile (\<lambda>c. CHR ''0'' \<le> c \<and> c \<le> CHR ''9'') s, dropWhile (\<lambda>c. CHR ''0'' \<le> c \<and> c \<le> CHR ''9'') s)"

text \<open>A number: an optional minus, an integer without leading zeros, a fraction, an exponent.\<close>

definition parse_fraction :: "string \<Rightarrow> (string \<times> string) option" where
  "parse_fraction s =
     (case s of
        c # s' \<Rightarrow> if c = CHR ''.''
          then (case digits s' of ([], _) \<Rightarrow> None | (ds, r) \<Rightarrow> Some (c # ds, r)) else Some ([], s)
      | [] \<Rightarrow> Some ([], s))"

definition parse_exponent :: "string \<Rightarrow> (string \<times> string) option" where
  "parse_exponent s =
     (case s of
        c # s' \<Rightarrow> if c = CHR ''e'' \<or> c = CHR ''E''
          then (let (sign, s'') = (case s' of d # t \<Rightarrow> if d = CHR ''+'' \<or> d = CHR ''-'' then ([d], t)
                                     else ([], s') | [] \<Rightarrow> ([], s'))
                in case digits s'' of ([], _) \<Rightarrow> None | (ds, r) \<Rightarrow> Some (c # sign @ ds, r))
          else Some ([], s)
      | [] \<Rightarrow> Some ([], s))"

definition parse_number :: "string \<Rightarrow> (string \<times> string) option" where
  "parse_number s =
     (let (sign, s1) = (case s of c # t \<Rightarrow> if c = CHR ''-'' then ([c], t) else ([], s) | [] \<Rightarrow> ([], s));
          (ds, s2) = (case s1 of c # t \<Rightarrow> if c = CHR ''0'' then ([c], t) else digits s1 | [] \<Rightarrow> ([], s1))
      in if ds = [] then None
         else case parse_fraction s2 of
           None \<Rightarrow> None
         | Some (f, s3) \<Rightarrow>
             (case parse_exponent s3 of
                None \<Rightarrow> None
              | Some (e, s4) \<Rightarrow> Some (sign @ ds @ f @ e, s4)))"

definition strip :: "string \<Rightarrow> string \<Rightarrow> string option" where
  "strip p s = (if take (length p) s = p then Some (drop (length p) s) else None)"

text \<open>
  \<open>parse_value n d s\<close> reads one value from \<open>s\<close> with fuel \<open>n\<close> inside \<open>d\<close> open arrays and objects, of
  which the decoder accepts ten thousand. \<open>parse_elements\<close> and \<open>parse_members\<close> read the rest of
  an array or an object after its opening bracket, an element or a member first.
\<close>

fun parse_value :: "nat \<Rightarrow> nat \<Rightarrow> string \<Rightarrow> (json \<times> string) option"
  and parse_elements :: "nat \<Rightarrow> nat \<Rightarrow> string \<Rightarrow> (json list \<times> string) option"
  and parse_members :: "nat \<Rightarrow> nat \<Rightarrow> string \<Rightarrow> ((string \<times> json) list \<times> string) option" where
  "parse_value 0 d s = None"
| "parse_value (Suc n) d s =
     (case skip_space s of
        [] \<Rightarrow> None
      | c # r \<Rightarrow>
          if c = CHR ''{'' then
            (if d \<ge> 10000 then None
             else case strip ''}'' (skip_space r) of
               Some r' \<Rightarrow> Some (JObj [], r')
             | None \<Rightarrow> map_option (apfst JObj) (parse_members n (Suc d) r))
          else if c = CHR ''['' then
            (if d \<ge> 10000 then None
             else case strip '']'' (skip_space r) of
               Some r' \<Rightarrow> Some (JArr [], r')
             | None \<Rightarrow> map_option (apfst JArr) (parse_elements n (Suc d) r))
          else if c = CHR 0x22 then map_option (apfst JStr) (parse_chars r)
          else if c = CHR ''n'' then map_option (Pair JNull) (strip ''ull'' r)
          else if c = CHR ''t'' then map_option (Pair (JBool True)) (strip ''rue'' r)
          else if c = CHR ''f'' then map_option (Pair (JBool False)) (strip ''alse'' r)
          else map_option (apfst JNum) (parse_number (c # r)))"
| "parse_elements 0 d s = None"
| "parse_elements (Suc n) d s =
     (case parse_value n d s of
        None \<Rightarrow> None
      | Some (v, r) \<Rightarrow>
          (case skip_space r of
             [] \<Rightarrow> None
           | c # r' \<Rightarrow>
               if c = CHR '']'' then Some ([v], r')
               else if c = CHR '','' then map_option (apfst ((#) v)) (parse_elements n d r')
               else None))"
| "parse_members 0 d s = None"
| "parse_members (Suc n) d s =
     (case strip [CHR 0x22] (skip_space s) of
        None \<Rightarrow> None
      | Some s1 \<Rightarrow>
     (case parse_chars s1 of
        None \<Rightarrow> None
      | Some (k, s2) \<Rightarrow>
     (case strip '':'' (skip_space s2) of
        None \<Rightarrow> None
      | Some s3 \<Rightarrow>
     (case parse_value n d s3 of
        None \<Rightarrow> None
      | Some (v, r) \<Rightarrow>
          (case skip_space r of
             [] \<Rightarrow> None
           | c # r' \<Rightarrow>
               if c = CHR ''}'' then Some ([(k, v)], r')
               else if c = CHR '','' then map_option (apfst ((#) (k, v))) (parse_members n d r')
               else None)))))"

text \<open>\<open>json.NewDecoder(r).Decode\<close> reads the first value, \<open>json.Unmarshal\<close> exactly one.\<close>

definition json_first :: "string \<Rightarrow> json option" where
  "json_first s = map_option fst (parse_value (Suc (2 * length s)) 0 s)"

definition json_only :: "string \<Rightarrow> json option" where
  "json_only s =
     (case parse_value (Suc (2 * length s)) 0 s of
        None \<Rightarrow> None
      | Some (v, r) \<Rightarrow> if skip_space r = [] then Some v else None)"

section \<open>Values into structures\<close>

text \<open>
  Field names are compared after \<open>foldName\<close>: ASCII letters in upper case, and the two runes outside
  ASCII that fold to an ASCII letter, U+212A (Kelvin sign) and U+017F (long s).
\<close>

fun foldName :: "string \<Rightarrow> string" where
  "foldName [] = []"
| "foldName (c # s) =
     (if [c] @ take 2 s = [CHR 0xE2, CHR 0x84, CHR 0xAA] then CHR ''K'' # foldName (drop 2 s)
      else if [c] @ take 1 s = [CHR 0xC5, CHR 0xBF] then CHR ''S'' # foldName (drop 1 s)
      else upperASCII c # foldName s)"

text \<open>
  The members for one field are applied in order, the last string wins and \<open>null\<close> changes nothing; a
  value of another type is an error. \<open>None\<close> is a decoding error.
\<close>

definition members_of :: "json \<Rightarrow> (string \<times> json) list option" where
  "members_of v = (case v of JObj ms \<Rightarrow> Some ms | JNull \<Rightarrow> Some [] | _ \<Rightarrow> None)"

fun string_field :: "string \<Rightarrow> string \<Rightarrow> (string \<times> json) list \<Rightarrow> string option" where
  "string_field f x [] = Some x"
| "string_field f x ((k, v) # ms) =
     (if foldName k = foldName f
      then case v of JStr t \<Rightarrow> string_field f t ms | JNull \<Rightarrow> string_field f x ms | _ \<Rightarrow> None
      else string_field f x ms)"

fun bool_field :: "string \<Rightarrow> bool \<Rightarrow> (string \<times> json) list \<Rightarrow> bool option" where
  "bool_field f x [] = Some x"
| "bool_field f x ((k, v) # ms) =
     (if foldName k = foldName f
      then case v of JBool t \<Rightarrow> bool_field f t ms | JNull \<Rightarrow> bool_field f x ms | _ \<Rightarrow> None
      else bool_field f x ms)"

section \<open>Fuel\<close>

lemma length_skip_space: "length (skip_space s) \<le> length s"
  by (simp add: skip_space_def length_dropWhile_le)

lemma length_strip: "strip p s = Some r \<Longrightarrow> length r + length p = length s"
proof -
  assume "strip p s = Some r"
  then have "take (length p) s = p" "r = drop (length p) s" by (auto simp: strip_def split: if_splits)
  moreover from this(1) have "length p \<le> length s" by (metis length_take min.cobounded1)
  ultimately show ?thesis by simp
qed

lemma prepend_Some: "prepend p q = Some (x, r) \<longleftrightarrow> (\<exists>y. q = Some (y, r) \<and> x = p @ y)"
  by (cases q) (auto simp: prepend_def)

lemma length_parse_chars: "parse_chars s = Some (x, r) \<Longrightarrow> length r < length s"
proof (induction s arbitrary: x rule: length_induct)
  case (1 s)
  show ?case
  proof (cases s)
    case Nil
    with 1 show ?thesis by simp
  next
    case (Cons c s')
    have IH: "length r < Suc (length s')" if "parse_chars t = Some (y, r)" "length t \<le> length s'" for t y
    proof -
      have "length t < length s" using Cons that(2) by simp
      with "1.IH" that(1) have "length r < length t" by blast
      then show ?thesis using that(2) by simp
    qed
    have dec: "utf8_len (c # s') \<noteq> 0 \<Longrightarrow> length (drop (utf8_len (c # s')) (c # s')) \<le> length s'" by simp
    from "1.prems" Cons show ?thesis
      by (auto simp: parse_chars.simps(2) prepend_Some dec split: if_splits list.splits option.splits
          dest: IH)
  qed
qed

section \<open>Round trip of strings\<close>

text \<open>The string with every byte that starts no valid sequence replaced by U+FFFD.\<close>

function utf8_repair :: "string \<Rightarrow> string" where
  "utf8_repair s =
     (case s of [] \<Rightarrow> []
      | c # cs \<Rightarrow> if utf8_len s = 0 then replacement @ utf8_repair cs
          else take (utf8_len s) s @ utf8_repair (drop (utf8_len s) s))"
  by pat_completeness auto
termination
  by (relation "measure length") auto

declare utf8_repair.simps [simp del]

lemma utf8_repair_Nil [simp]: "utf8_repair [] = []"
  by (simp add: utf8_repair.simps)

lemma utf8_len_ascii: "of_char c < (128 :: nat) \<Longrightarrow> utf8_len (c # s) = 1"
  by (simp add: utf8_len_def)

lemma utf8_len_lead:
  "of_char c < (128 :: nat) \<Longrightarrow> utf8_len (c # x) = 1"
  "128 \<le> (of_char c :: nat) \<Longrightarrow> of_char c < (194 :: nat) \<Longrightarrow> utf8_len (c # x) = 0"
  "194 \<le> (of_char c :: nat) \<Longrightarrow> of_char c < (224 :: nat) \<Longrightarrow> utf8_len (c # x) =
     (case x of c1 # _ \<Rightarrow> if cont 0x80 0xBF c1 then 2 else 0 | _ \<Rightarrow> 0)"
  "224 \<le> (of_char c :: nat) \<Longrightarrow> of_char c < (240 :: nat) \<Longrightarrow> utf8_len (c # x) =
     (case x of c1 # c2 # _ \<Rightarrow>
        if cont (if of_char c = (0xE0 :: nat) then 0xA0 else 0x80) (if of_char c = (0xED :: nat) then 0x9F else 0xBF) c1
           \<and> cont 0x80 0xBF c2 then 3 else 0 | _ \<Rightarrow> 0)"
  "240 \<le> (of_char c :: nat) \<Longrightarrow> of_char c < (245 :: nat) \<Longrightarrow> utf8_len (c # x) =
     (case x of c1 # c2 # c3 # _ \<Rightarrow>
        if cont (if of_char c = (0xF0 :: nat) then 0x90 else 0x80) (if of_char c = (0xF4 :: nat) then 0x8F else 0xBF) c1
           \<and> cont 0x80 0xBF c2 \<and> cont 0x80 0xBF c3 then 4 else 0 | _ \<Rightarrow> 0)"
  "245 \<le> (of_char c :: nat) \<Longrightarrow> utf8_len (c # x) = 0"
  by (simp_all add: utf8_len_def Let_def split del: if_split cong: list.case_cong)

lemma utf8_len_cut:
  assumes "utf8_len s \<noteq> 0"
  shows "utf8_len (take (utf8_len s) s @ t) = utf8_len s \<and> utf8_len s \<le> length s"
proof (cases s)
  case Nil
  with assms show ?thesis by (simp add: utf8_len_def)
next
  case (Cons c r)
  define b :: nat where "b = of_char c"
  note lead = utf8_len_lead [of c, folded b_def]
  consider "b < 128" | "128 \<le> b" "b < 194" | "194 \<le> b" "b < 224" | "224 \<le> b" "b < 240"
    | "240 \<le> b" "b < 245" | "245 \<le> b" by linarith
  then show ?thesis
  proof cases
    case 1
    with Cons show ?thesis by (simp add: lead(1))
  next
    case 2
    with Cons assms show ?thesis by (simp add: lead(2))
  next
    case 3
    with Cons assms show ?thesis by (auto simp: lead(3) split: list.splits)
  next
    case 4
    define lo where "lo = (if b = 0xE0 then 0xA0 else 0x80 :: nat)"
    define hi where "hi = (if b = 0xED then 0x9F else 0xBF :: nat)"
    from 4 Cons assms show ?thesis
      by (auto simp: lead(4) [folded lo_def hi_def] split: list.splits if_splits)
  next
    case 5
    define lo where "lo = (if b = 0xF0 then 0x90 else 0x80 :: nat)"
    define hi where "hi = (if b = 0xF4 then 0x8F else 0xBF :: nat)"
    from 5 Cons assms show ?thesis
      by (auto simp: lead(5) [folded lo_def hi_def] split: list.splits if_splits)
  next
    case 6
    with Cons assms show ?thesis by (simp add: lead(6))
  qed
qed

lemma utf8_repair_ascii: "list_all (\<lambda>c. of_char c < (128 :: nat)) s \<Longrightarrow> utf8_repair s = s"
  by (induction s) (simp_all add: utf8_repair.simps utf8_len_ascii)

lemma parse_chars_u:
  assumes "hex4 x = Some r" "length x = 4" "\<not> (0xD800 \<le> r \<and> r < 0xE000)"
  shows "parse_chars (CHR 0x5C # CHR ''u'' # x @ s) = prepend (utf8_encode r) (parse_chars s)"
proof -
  from assms(2) obtain a b c d where x: "x = [a, b, c, d]"
    by (auto simp: length_Suc_conv numeral_eq_Suc)
  with assms(1) have "hex4 (x @ s) = Some r" by simp
  moreover have "drop 4 (x @ s) = s" using assms(2) by simp
  ultimately show ?thesis using assms(3) by (auto simp: parse_chars.simps(2))
qed

lemma hex4_byte: "hex4 [CHR ''0'', CHR ''0'', hexDigit (of_char c div 16), hexDigit (of_char c mod 16)] =
    Some (of_char c)"
proof -
  have "of_char c < (256 :: nat)" by (rule nat_of_char_less_256)
  then have "of_char c div 16 < (16 :: nat)"
    by (intro less_mult_imp_div_less) simp
  moreover have "hexValue CHR ''0'' = Some 0" by (simp add: hexValue_def)
  ultimately show ?thesis by (simp add: hexValue_hexDigit)
qed

lemma parse_chars_escape:
  assumes "of_char c < (128 :: nat)"
  shows "parse_chars (json_escape c @ s) = prepend [c] (parse_chars s)"
proof -
  note u = parse_chars_u [OF hex4_byte, of c s, simplified]
  have enc: "utf8_encode (of_char c) = [c]" using assms by (simp add: utf8_encode_def)
  have low: "of_char c < (55296 :: nat)" using assms by linarith
  show ?thesis
  proof (cases "of_char c < (32 :: nat) \<or> c = CHR ''<'' \<or> c = CHR ''>'' \<or> c = CHR ''&''")
    case True
    then show ?thesis
      using u low
      by (auto simp: json_escape_def enc parse_chars.simps(2) simple_escape_def)
  next
    case False
    then show ?thesis
      using assms by (auto simp: json_escape_def parse_chars.simps(2) simple_escape_def)
  qed
qed

lemma parse_chars_raw:
  assumes "utf8_len (c # cs) = n" "n \<noteq> 0" "\<not> of_char c < (128 :: nat)"
  shows "parse_chars (take n (c # cs) @ s) = prepend (take n (c # cs)) (parse_chars s)"
proof -
  from assms(2) obtain m where n: "n = Suc m" by (cases n) auto
  have len: "utf8_len (c # take m cs @ s) = n" and m: "m \<le> length cs"
    using utf8_len_cut [of "c # cs" s] assms(1,2) n by auto
  have "c \<noteq> CHR 0x22" "c \<noteq> CHR 0x5C" using assms(3) by auto
  with assms(3) len n m show ?thesis
    by (simp add: parse_chars.simps(2))
qed

lemma parse_chars_u_literals:
  "parse_chars (CHR 0x5C # ''ufffd'' @ s) = prepend replacement (parse_chars s)"
  "parse_chars (CHR 0x5C # ''u2028'' @ s) = prepend [CHR 0xE2, CHR 0x80, CHR 0xA8] (parse_chars s)"
  "parse_chars (CHR 0x5C # ''u2029'' @ s) = prepend [CHR 0xE2, CHR 0x80, CHR 0xA9] (parse_chars s)"
proof -
  have hexes: "hex4 ''fffd'' = Some 0xFFFD" "hex4 ''2028'' = Some 0x2028" "hex4 ''2029'' = Some 0x2029"
    by (simp_all add: hexValue_def)
  have encs: "utf8_encode 0xFFFD = replacement" "utf8_encode 0x2028 = [CHR 0xE2, CHR 0x80, CHR 0xA8]"
    "utf8_encode 0x2029 = [CHR 0xE2, CHR 0x80, CHR 0xA9]"
    by (simp_all add: utf8_encode_def replacement_def char_of_eq_iff)
  show "parse_chars (CHR 0x5C # ''ufffd'' @ s) = prepend replacement (parse_chars s)"
    using parse_chars_u [OF hexes(1), of s] encs by simp
  show "parse_chars (CHR 0x5C # ''u2028'' @ s) = prepend [CHR 0xE2, CHR 0x80, CHR 0xA8] (parse_chars s)"
    using parse_chars_u [OF hexes(2), of s] encs by simp
  show "parse_chars (CHR 0x5C # ''u2029'' @ s) = prepend [CHR 0xE2, CHR 0x80, CHR 0xA9] (parse_chars s)"
    using parse_chars_u [OF hexes(3), of s] encs by simp
qed

text \<open>One step of the encoder is undone by one step of the decoder.\<close>

lemma parse_chars_step:
  assumes "s = c # cs"
  defines "n \<equiv> utf8_len s"
  shows "parse_chars (json_chars s @ t) =
    (if n = 0 then prepend replacement (parse_chars (json_chars cs @ t))
     else prepend (take n s) (parse_chars (json_chars (drop n s) @ t)))"
proof (cases "of_char c < (128 :: nat)")
  case True
  then show ?thesis
    by (simp add: assms json_chars.simps [of "c # cs"] parse_chars_escape utf8_len_ascii)
next
  case high: False
  show ?thesis
  proof (cases "n = 0")
    case True
    with high show ?thesis
      using parse_chars_u_literals(1) [of "json_chars cs @ t"] by (simp add: json_chars.simps [of "c # cs"] assms)
  next
    case False
    have raw: "parse_chars (take n s @ u) = prepend (take n s) (parse_chars u)" for u
      using parse_chars_raw [of c cs n u] assms False high by simp
    define u where "u = json_chars (drop n s) @ t"
    define esc where "esc = (if take n s = [CHR 0xE2, CHR 0x80, CHR 0xA8] then CHR 0x5C # ''u2028''
                  else if take n s = [CHR 0xE2, CHR 0x80, CHR 0xA9] then CHR 0x5C # ''u2029''
                  else take n s)"
    have "json_chars s @ t = esc @ u"
      using high False assms(1) by (simp add: json_chars.simps [of "c # cs"] n_def esc_def u_def Let_def)
    moreover have "parse_chars (esc @ u) = prepend (take n s) (parse_chars u)"
      using raw [of u] parse_chars_u_literals(2,3) [of u] unfolding esc_def by simp
    ultimately show ?thesis using False by (simp add: u_def)
  qed
qed

lemma parse_chars_json_chars:
  "parse_chars (json_chars s @ CHR 0x22 # r) = Some (utf8_repair s, r)"
proof (induction s rule: length_induct)
  case (1 s)
  show ?case
  proof (cases s)
    case Nil
    then show ?thesis by (simp add: json_chars.simps parse_chars.simps(2))
  next
    case (Cons c cs)
    have IH: "length u < length s \<Longrightarrow> parse_chars (json_chars u @ CHR 0x22 # r) = Some (utf8_repair u, r)" for u
      using "1.IH" by blast
    show ?thesis
      using IH [of cs] IH [of "drop (utf8_len s) s"] Cons
      by (simp add: parse_chars_step [OF refl] utf8_repair.simps [of "c # cs"] prepend_def)
  qed
qed

section \<open>Values consume text, and the fuel is enough\<close>

lemma length_parse_number: "parse_number s = Some (x, r) \<Longrightarrow> length r < length s"
proof -
  have d: "digits t = (ds, u) \<Longrightarrow> length t = length ds + length u" for t ds u
    by (auto simp: digits_def simp flip: length_append)
  have f: "parse_fraction t = Some (y, u) \<Longrightarrow> length u \<le> length t" for t y u
    by (auto simp: parse_fraction_def split: list.splits if_splits prod.splits dest!: d)
  have e: "parse_exponent t = Some (y, u) \<Longrightarrow> length u \<le> length t" for t y u
    by (fastforce simp: parse_exponent_def Let_def split: list.splits if_splits prod.splits dest!: d)
  assume "parse_number s = Some (x, r)"
  then obtain sg s1 ds s2 g s3 h where
    1: "(case s of c # t \<Rightarrow> if c = CHR ''-'' then ([c], t) else ([], s) | [] \<Rightarrow> ([], s)) = (sg, s1)"
    and 2: "(case s1 of c # t \<Rightarrow> if c = CHR ''0'' then ([c], t) else digits s1 | [] \<Rightarrow> ([], s1)) = (ds, s2)"
    and 3: "ds \<noteq> []" "parse_fraction s2 = Some (g, s3)" "parse_exponent s3 = Some (h, r)"
    unfolding parse_number_def Let_def by (auto split: prod.splits if_splits option.splits)
  from 1 have "length s1 \<le> length s" by (auto split: list.splits if_splits)
  moreover from 2 3(1) have "length s2 < length s1" by (auto split: list.splits if_splits dest!: d)
  ultimately show ?thesis using f [OF 3(2)] e [OF 3(3)] by linarith
qed

lemma shrinks:
  "(\<forall>d s v r. parse_value n d s = Some (v, r) \<longrightarrow> length r < length s) \<and>
   (\<forall>d s vs r. parse_elements n d s = Some (vs, r) \<longrightarrow> length r < length s) \<and>
   (\<forall>d s ms r. parse_members n d s = Some (ms, r) \<longrightarrow> length r < length s)"
proof (induction n)
  case (Suc n)
  then have IH: "parse_value n d s = Some (v, r) \<Longrightarrow> length r < length s"
    "parse_elements n d s = Some (vs, r) \<Longrightarrow> length r < length s"
    "parse_members n d s = Some (ms, r) \<Longrightarrow> length r < length s" for d s v vs ms r by blast+
  have sk: "skip_space s = c # t \<Longrightarrow> Suc (length t) \<le> length s" for s c t
    using length_skip_space [of s] by simp
  have st: "strip p (skip_space s) = Some t \<Longrightarrow> length t + length p \<le> length s" for p s t
    using length_strip [of p "skip_space s" t] length_skip_space [of s] by simp
  have "length r < length s" if "parse_value (Suc n) d s = Some (v, r)" for d s v r
    using that
    by (auto split: list.splits if_splits option.splits prod.splits
        dest!: sk IH(2,3) length_parse_chars length_strip length_parse_number st)
  moreover have "length r < length s" if "parse_elements (Suc n) d s = Some (vs, r)" for d s vs r
    using that
    by (auto split: list.splits if_splits option.splits prod.splits dest!: sk IH(1,2))
  moreover have "length r < length s" if "parse_members (Suc n) d s = Some (ms, r)" for d s ms r
    using that
    by (auto split: list.splits if_splits option.splits prod.splits
        dest!: sk IH(1,3) length_parse_chars st)
  ultimately show ?case by blast
qed simp

lemmas shrink = shrinks [THEN conjunct1, rule_format] shrinks [THEN conjunct2, THEN conjunct1, rule_format]
  shrinks [THEN conjunct2, THEN conjunct2, rule_format]

lemma fuel_enough:
  "(\<forall>d s m. 2 * length s < n \<and> n \<le> m \<longrightarrow> parse_value m d s = parse_value n d s) \<and>
   (\<forall>d s m. 2 * length s + 1 < n \<and> n \<le> m \<longrightarrow> parse_elements m d s = parse_elements n d s) \<and>
   (\<forall>d s m. 2 * length s + 1 < n \<and> n \<le> m \<longrightarrow> parse_members m d s = parse_members n d s)"
proof (induction n)
  case (Suc n)
  then have IH: "2 * length s < n \<Longrightarrow> n \<le> m \<Longrightarrow> parse_value m d s = parse_value n d s"
    "2 * length s + 1 < n \<Longrightarrow> n \<le> m \<Longrightarrow> parse_elements m d s = parse_elements n d s"
    "2 * length s + 1 < n \<Longrightarrow> n \<le> m \<Longrightarrow> parse_members m d s = parse_members n d s" for d s m by blast+
  have sk: "skip_space s = c # t \<Longrightarrow> Suc (length t) \<le> length s" for s c t
    using length_skip_space [of s] by simp
  have st: "strip p (skip_space s) = Some t \<Longrightarrow> length t + length p \<le> length s" for p s t
    using length_strip [of p "skip_space s" t] length_skip_space [of s] by simp
  have "parse_value (Suc m) d s = parse_value (Suc n) d s" if "2 * length s < Suc n" "n \<le> m" for d s m
  proof (cases "skip_space s")
    case (Cons c r)
    then have "2 * length r + 1 < n" using sk [OF Cons] that(1) by linarith
    with that(2) have "parse_elements m (Suc d) r = parse_elements n (Suc d) r"
      "parse_members m (Suc d) r = parse_members n (Suc d) r" by (auto intro: IH(2,3))
    then show ?thesis using Cons by (simp split: option.split)
  qed simp
  moreover have "parse_elements (Suc m) d s = parse_elements (Suc n) d s"
    if "2 * length s + 1 < Suc n" "n \<le> m" for d s m
  proof -
    have v: "parse_value m d s = parse_value n d s" using that by (intro IH) auto
    have "parse_elements m d r' = parse_elements n d r'"
      if "parse_value n d s = Some (x, r)" "skip_space r = c # r'" for x r c r'
      using shrink(1) [OF that(1)] sk [OF that(2)] \<open>2 * length s + 1 < Suc n\<close> \<open>n \<le> m\<close>
      by (intro IH(2)) auto
    with v show ?thesis by (auto split: option.splits list.splits)
  qed
  moreover have "parse_members (Suc m) d s = parse_members (Suc n) d s"
    if "2 * length s + 1 < Suc n" "n \<le> m" for d s m
  proof -
    have v: "parse_value m d s3 = parse_value n d s3"
      if "strip [CHR 0x22] (skip_space s) = Some s1" "parse_chars s1 = Some (k, s2)"
        "strip '':'' (skip_space s2) = Some s3" for s1 k s2 s3
      using st [OF that(1)] length_parse_chars [OF that(2)] st [OF that(3)] \<open>2 * length s + 1 < Suc n\<close> \<open>n \<le> m\<close>
      by (intro IH(1)) auto
    have "parse_members m d r' = parse_members n d r'"
      if "strip [CHR 0x22] (skip_space s) = Some s1" "parse_chars s1 = Some (k, s2)"
        "strip '':'' (skip_space s2) = Some s3" "parse_value n d s3 = Some (x, r)"
        "skip_space r = c # r'" for s1 k s2 s3 x r c r'
      using st [OF that(1)] length_parse_chars [OF that(2)] st [OF that(3)] shrink(1) [OF that(4)]
        sk [OF that(5)] \<open>2 * length s + 1 < Suc n\<close> \<open>n \<le> m\<close>
      by (intro IH(3)) auto
    with v show ?thesis by (auto split: option.splits list.splits)
  qed
  ultimately show ?case by (metis Suc_le_D Suc_le_mono)
qed simp

text \<open>Any fuel beyond the one of \<open>json_first\<close> and \<open>json_only\<close> gives the same result.\<close>

lemma parse_value_fuel:
  "2 * length s < m \<Longrightarrow> parse_value m 0 s = parse_value (Suc (2 * length s)) 0 s"
  using fuel_enough [of "Suc (2 * length s)"] by simp

section \<open>Round trip of objects\<close>

text \<open>A text that reads as the value \<open>j\<close>, whatever follows it.\<close>

definition reads_as :: "string \<Rightarrow> json \<Rightarrow> bool" where
  "reads_as x j \<longleftrightarrow> (\<forall>n d r. parse_value (Suc n) d (x @ r) = Some (j, r))"

lemma json_string_reads: "reads_as (json_string x) (JStr (utf8_repair x))"
  by (simp add: reads_as_def json_string_def skip_space_def parse_chars_json_chars)

lemma parse_members_object:
  assumes "list_all2 (\<lambda>(k, x) (k', j). k' = utf8_repair k \<and> reads_as x j) fs ms" "fs \<noteq> []"
    "length fs < n"
  shows "parse_members n d (join '','' (map (\<lambda>(k, x). json_string k @ '':'' @ x) fs) @ ''}'' @ r) = Some (ms, r)"
  using assms
proof (induction fs ms arbitrary: n rule: list_all2_induct)
  case (Cons f fs m ms)
  obtain k x j where f: "f = (k, x)" "m = (utf8_repair k, j)" "reads_as x j"
    using Cons.hyps(1) by (auto split: prod.splits)
  obtain n' where n: "n = Suc (Suc n')" using Cons.prems by (cases n; cases "n - 1") auto
  have key: "parse_members n d (json_string k @ '':'' @ x @ t) =
      (case skip_space t of [] \<Rightarrow> None
       | c # r' \<Rightarrow> if c = CHR ''}'' then Some ([(utf8_repair k, j)], r')
           else if c = CHR '','' then map_option (apfst ((#) (utf8_repair k, j))) (parse_members (Suc n') d r')
           else None)" for t
    using f(3)
    by (simp add: n json_string_def strip_def skip_space_def parse_chars_json_chars reads_as_def
        del: parse_value.simps)
  show ?case
  proof (cases fs)
    case Nil
    with Cons.hyps(2) have "ms = []" by simp
    with Nil show ?thesis using key [of "''}'' @ r"] by (simp add: f skip_space_def)
  next
    case fs: (Cons f' fs')
    define rest where "rest = join '','' (map (\<lambda>(k, x). json_string k @ '':'' @ x) fs)"
    have "parse_members (Suc n') d (rest @ ''}'' @ r) = Some (ms, r)"
      unfolding rest_def using Cons.IH [of "Suc n'"] Cons.prems fs n by simp
    moreover have "join '','' (map (\<lambda>(k, x). json_string k @ '':'' @ x) (f # fs)) =
        json_string k @ '':'' @ x @ '','' @ rest"
      using fs f by (simp add: rest_def)
    ultimately show ?thesis using key [of "'','' @ rest @ ''}'' @ r"] f
      by (simp add: skip_space_def)
  qed
qed simp

lemma length_join: "length xs \<le> length (join '','' (map (\<lambda>(k, x). json_string k @ '':'' @ x) xs))"
  by (induction xs rule: induct_list012) (auto simp: json_string_def split: prod.splits)

lemma json_object_reads:
  assumes "list_all2 (\<lambda>(k, x) (k', j). k' = utf8_repair k \<and> reads_as x j) fs ms" "fs \<noteq> []"
  shows "json_first (json_object fs) = Some (JObj ms)" "json_only (json_object fs) = Some (JObj ms)"
proof -
  define body where "body = join '','' (map (\<lambda>(k, x). json_string k @ '':'' @ x) fs)"
  have shape: "json_object fs = CHR ''{'' # body @ ''}''" by (simp add: json_object_def body_def)
  have "\<exists>b. body = CHR 0x22 # b"
  proof (cases fs)
    case (Cons f fs')
    then show ?thesis by (cases fs'; cases f) (auto simp: body_def json_string_def)
  qed (use assms(2) in simp)
  then obtain b where b: "body = CHR 0x22 # b" ..
  have "length fs < 2 * length (json_object fs)"
    using length_join [of fs] by (simp add: shape body_def)
  then have "parse_members (2 * length (json_object fs)) (Suc 0) (body @ ''}'' @ []) = Some (ms, [])"
    unfolding body_def by (intro parse_members_object assms)
  moreover have "skip_space (json_object fs) = json_object fs" "strip ''}'' (skip_space (body @ ''}'')) = None"
    by (simp_all add: shape b skip_space_def strip_def)
  ultimately have "parse_value (Suc (2 * length (json_object fs))) 0 (json_object fs) = Some (JObj ms, [])"
    by (simp add: shape)
  then show "json_first (json_object fs) = Some (JObj ms)" "json_only (json_object fs) = Some (JObj ms)"
    by (simp_all add: json_first_def json_only_def skip_space_def)
qed

text \<open>An object of string fields reads back field by field.\<close>

lemma json_object_strings:
  assumes "fs \<noteq> []"
  shows "json_only (json_object (map (\<lambda>(k, x). (k, json_string x)) fs)) =
    Some (JObj (map (\<lambda>(k, x). (utf8_repair k, JStr (utf8_repair x))) fs))"
  by (rule json_object_reads)
    (use assms json_string_reads in \<open>auto simp: list_all2_map1 list_all2_map2 list_all2_same\<close>)

end
