(* ===== verification/Http_Server.thy ===== *)
theory Http_Server
  imports Payout_Dispute Reconciliation Security Go_Json
begin

text \<open>
  The HTTP API: src/internal/httpapi/server.go, webhook.go, trace.go and \<open>requireMerchant\<close> of
  security.go. A handler takes the request and the state of the process and returns the response
  and the new state; \<open>None\<close> is a handler that panicked, for which net/http closes the connection.
  The merchant that \<open>requireMerchant\<close> puts into the request's context is an argument.
\<close>

section \<open>Requests, responses, server\<close>

text \<open>
  \<open>rq_Path\<close> is the cleaned path, split at its slashes and percent-decoded segment by segment;
  \<open>rq_Header\<close> is \<open>r.Header.Get\<close>, the empty string for a header that is not there; \<open>rq_Body\<close> are the
  bytes up to the end of the body.
\<close>

record Request =
  rq_Method :: string
  rq_Path :: "string list"
  rq_Header :: "string \<Rightarrow> string"
  rq_Body :: string

record Response =
  rs_Status :: int
  rs_Header :: "string \<rightharpoonup> string"
  rs_Body :: string

record ('c, 's, 'd) Server =
  srv_payments :: "('c, 's, 'd) PaymentService"
  srv_webhookSecret :: string
  srv_authenticator :: MerchantAuthenticator
  srv_adminKey :: string

text \<open>What the server's pointers and the services' store point to.\<close>

record ('r, 's, 'd) HttpState =
  hs_world :: "('s, 'd) World"
  hs_limiter :: "'r RateLimiter"
  hs_metrics :: CounterMetrics

record 'r Config =
  cfg_WebhookSecret :: string
  cfg_MerchantAPIKeys :: string
  cfg_AdminAPIKey :: string
  cfg_Limiter :: "'r RateLimiter option"
  cfg_Metrics :: "CounterMetrics option"

text \<open>
  What the run-time decides during a request: the contexts of the store calls, the time, the orders
  in which the maps of keys and counters are visited, the order \<open>sort.Slice\<close> chose, and the text
  of an error of the JSON decoder for a body.
\<close>

record ('c, 'd) Call =
  cl_ctx :: "nat \<Rightarrow> 'c"
  cl_now :: int
  cl_keys :: "string list"
  cl_names :: "string list"
  cl_sort :: "'d ReconciliationMismatch list \<Rightarrow> 'd ReconciliationMismatch list"
  cl_jsonError :: "string \<Rightarrow> string"

type_synonym ('r, 's, 'd) Handler =
  "Request \<Rightarrow> ('r, 's, 'd) HttpState \<Rightarrow> Response option \<times> ('r, 's, 'd) HttpState"

text \<open>A minute is 60000000000 nanoseconds.\<close>

definition New ::
  "('c, 's, 'd) PaymentService \<Rightarrow> 'r Config \<Rightarrow> ('s, 'd) World
    \<Rightarrow> ('c, 's, 'd) Server \<times> ('r, 's, 'd) HttpState" where
  "New service config w =
     (\<lparr>srv_payments = service, srv_webhookSecret = cfg_WebhookSecret config,
       srv_authenticator = NewMerchantAuthenticator (cfg_MerchantAPIKeys config),
       srv_adminKey = cfg_AdminAPIKey config\<rparr>,
      \<lparr>hs_world = w,
       hs_limiter = (case cfg_Limiter config of
                       None \<Rightarrow> MemoryLimiter (NewMemoryRateLimiter 120 60000000000) | Some l \<Rightarrow> l),
       hs_metrics = (case cfg_Metrics config of None \<Rightarrow> NewCounterMetrics | Some m \<Rightarrow> m)\<rparr>)"

section \<open>Writing a response\<close>

text \<open>
  \<open>write_response\<close> is \<open>write\<close>: content type and status are set before the body is encoded, so a body that cannot be encoded
  leaves an empty one; the encoder ends its text with a newline. \<open>hdr\<close> are headers set before.
\<close>

definition write_response :: "(string \<rightharpoonup> string) \<Rightarrow> int \<Rightarrow> string result \<Rightarrow> Response" where
  "write_response hdr status body =
     \<lparr>rs_Status = status, rs_Header = hdr(''content-type'' \<mapsto> ''application/json''),
      rs_Body = (case body of Inl _ \<Rightarrow> [] | Inr t \<Rightarrow> t @ [CHR 0x0A])\<rparr>"

definition message :: "string \<Rightarrow> string \<Rightarrow> string result" where
  "message key m = Inr (json_object [(key, json_string m)])"

definition error_response :: "int \<Rightarrow> string \<Rightarrow> Response option" where
  "error_response status m = Some (write_response Map.empty status (message ''error'' m))"

text \<open>The answer to an error of a call: a panic never reaches the code that answers.\<close>

definition answer_error :: "int \<Rightarrow> (error \<Rightarrow> string) \<Rightarrow> error \<Rightarrow> Response option" where
  "answer_error status m e = (case e of Panic _ \<Rightarrow> None | _ \<Rightarrow> error_response status (m e))"

definition on_world ::
  "(('s, 'd) World, 'a) op \<Rightarrow> ('r, 's, 'd) HttpState \<Rightarrow> 'a result \<times> ('r, 's, 'd) HttpState" where
  "on_world f st = (case f (hs_world st) of (r, w) \<Rightarrow> (r, st\<lparr>hs_world := w\<rparr>))"

definition count_metric :: "string \<Rightarrow> ('r, 's, 'd) HttpState \<Rightarrow> ('r, 's, 'd) HttpState" where
  "count_metric name st = st\<lparr>hs_metrics := Inc name (hs_metrics st)\<rparr>"

section \<open>Decoding request bodies\<close>

definition decode_members :: "json option \<Rightarrow> (string \<times> json) list option" where
  "decode_members v = (case v of None \<Rightarrow> None | Some v \<Rightarrow> members_of v)"

record createRequest =
  cr_MerchantID :: string
  cr_CustomerID :: string
  cr_Currency :: string
  cr_Amount :: string

definition decode_create :: "string \<Rightarrow> createRequest option" where
  "decode_create body =
     (case decode_members (json_first body) of
        None \<Rightarrow> None
      | Some ms \<Rightarrow>
          (case (string_field ''merchant_id'' [] ms, string_field ''customer_id'' [] ms,
                 string_field ''currency'' [] ms, string_field ''amount'' [] ms) of
             (Some m, Some c, Some cur, Some a) \<Rightarrow>
               Some \<lparr>cr_MerchantID = m, cr_CustomerID = c, cr_Currency = cur, cr_Amount = a\<rparr>
           | _ \<Rightarrow> None))"

definition decode_payout :: "string \<Rightarrow> (string \<times> string) option" where
  "decode_payout body =
     (case decode_members (json_first body) of
        None \<Rightarrow> None
      | Some ms \<Rightarrow>
          (case (string_field ''currency'' [] ms, string_field ''amount'' [] ms) of
             (Some cur, Some a) \<Rightarrow> Some (cur, a)
           | _ \<Rightarrow> None))"

definition decode_dispute :: "string \<Rightarrow> (string \<times> string \<times> string) option" where
  "decode_dispute body =
     (case decode_members (json_first body) of
        None \<Rightarrow> None
      | Some ms \<Rightarrow>
          (case (string_field ''payment_id'' [] ms, string_field ''reason'' [] ms,
                 string_field ''amount'' [] ms) of
             (Some p, Some reason, Some a) \<Rightarrow> Some (p, reason, a)
           | _ \<Rightarrow> None))"

definition decode_resolution :: "string \<Rightarrow> bool option" where
  "decode_resolution body =
     (case decode_members (json_first body) of
        None \<Rightarrow> None | Some ms \<Rightarrow> bool_field ''merchant_wins'' False ms)"

text \<open>
  \<open>lines\<close> is a slice of structures. Decoding an array into a slice reuses the array the slice has, so
  an element keeps the fields it does not name when the key \<open>lines\<close> occurs twice: \<open>array\<close> holds the
  elements of the array, \<open>n\<close> is the length of the slice. An empty array and \<open>null\<close> start afresh.
\<close>

type_synonym request_line = "string \<times> string"

definition decode_line :: "request_line \<Rightarrow> json \<Rightarrow> request_line option" where
  "decode_line old v =
     (case members_of v of
        None \<Rightarrow> None
      | Some ms \<Rightarrow>
          (case (string_field ''provider_reference'' (fst old) ms,
                 string_field ''captured_amount'' (snd old) ms) of
             (Some reference, Some a) \<Rightarrow> Some (reference, a)
           | _ \<Rightarrow> None))"

fun decode_elements :: "request_line list \<Rightarrow> json list \<Rightarrow> request_line list option" where
  "decode_elements array [] = Some array"
| "decode_elements array (v # vs) =
     (case decode_line (case array of [] \<Rightarrow> ([], []) | old # _ \<Rightarrow> old) v of
        None \<Rightarrow> None
      | Some l \<Rightarrow> map_option ((#) l) (decode_elements (tl array) vs))"

fun decode_lines :: "request_line list \<Rightarrow> nat \<Rightarrow> (string \<times> json) list \<Rightarrow> request_line list option" where
  "decode_lines array n [] = Some (take n array)"
| "decode_lines array n ((k, v) # ms) =
     (if foldName k = foldName ''lines''
      then (case v of
              JNull \<Rightarrow> decode_lines [] 0 ms
            | JArr [] \<Rightarrow> decode_lines [] 0 ms
            | JArr vs \<Rightarrow>
                (case decode_elements array vs of
                   None \<Rightarrow> None
                 | Some array' \<Rightarrow> decode_lines array' (length vs) ms)
            | _ \<Rightarrow> None)
      else decode_lines array n ms)"

definition decode_settlement :: "string \<Rightarrow> request_line list option" where
  "decode_settlement body =
     (case decode_members (json_first body) of None \<Rightarrow> None | Some ms \<Rightarrow> decode_lines [] 0 ms)"

record providerWebhook =
  pw_ID :: string
  pw_Type :: string
  pw_PaymentID :: string
  pw_Amount :: string

definition decode_providerWebhook :: "string \<Rightarrow> providerWebhook option" where
  "decode_providerWebhook body =
     (case decode_members (json_only body) of
        None \<Rightarrow> None
      | Some ms \<Rightarrow>
          (case (string_field ''id'' [] ms, string_field ''type'' [] ms,
                 string_field ''payment_id'' [] ms, string_field ''amount'' [] ms) of
             (Some i, Some ty, Some p, Some a) \<Rightarrow>
               Some \<lparr>pw_ID = i, pw_Type = ty, pw_PaymentID = p, pw_Amount = a\<rparr>
           | _ \<Rightarrow> None))"

record payoutWebhookEvent =
  pe_ID :: string
  pe_Type :: string
  pe_PayoutID :: string
  pe_ProviderReference :: string

definition decode_payoutWebhook :: "string \<Rightarrow> payoutWebhookEvent option" where
  "decode_payoutWebhook body =
     (case decode_members (json_only body) of
        None \<Rightarrow> None
      | Some ms \<Rightarrow>
          (case (string_field ''id'' [] ms, string_field ''type'' [] ms,
                 string_field ''payout_id'' [] ms, string_field ''provider_reference'' [] ms) of
             (Some i, Some ty, Some p, Some reference) \<Rightarrow>
               Some \<lparr>pe_ID = i, pe_Type = ty, pe_PayoutID = p, pe_ProviderReference = reference\<rparr>
           | _ \<Rightarrow> None))"

definition requestAmount :: "'d decimal_pkg \<Rightarrow> (string \<Rightarrow> string) \<Rightarrow> Request \<Rightarrow> 'd result" where
  "requestAmount D jsonError r =
     (case decode_members (json_first (rq_Body r)) of
        None \<Rightarrow> Inl (Err (jsonError (rq_Body r)))
      | Some ms \<Rightarrow>
          (case string_field ''amount'' [] ms of
             None \<Rightarrow> Inl (Err (jsonError (rq_Body r)))
           | Some a \<Rightarrow> decNewFromString D a))"

section \<open>Payments and payouts\<close>

definition create ::
  "'d Env \<Rightarrow> ('c, 's, 'd) Server \<Rightarrow> ('c, 'd) Call \<Rightarrow> string \<Rightarrow> ('r, 's, 'd) Handler" where
  "create env srv cl merchant r st =
     (case decode_create (rq_Body r) of
        None \<Rightarrow> (error_response 400 ''invalid JSON'', st)
      | Some req \<Rightarrow>
          (case decNewFromString (env_D env) (cr_Amount req) of
             Inl _ \<Rightarrow> (error_response 422 ''amount must be a decimal'', st)
           | Inr amount \<Rightarrow>
               if merchant \<noteq> [] \<and> merchant \<noteq> cr_MerchantID req
               then (error_response 403 ''API key does not match merchant_id'', st)
               else
                 (case on_world (PaymentService_Create env (srv_payments srv) (cl_ctx cl)
                          \<lparr>cp_MerchantID = cr_MerchantID req, cp_CustomerID = cr_CustomerID req,
                           cp_Currency = cr_Currency req, cp_Amount = amount\<rparr>
                          (rq_Header r ''x-idempotency-key'')) st of
                    (Inl e, st') \<Rightarrow> (answer_error 422 Error e, st')
                  | (Inr (p, replay), st') \<Rightarrow>
                      (Some (write_response (if replay then [''x-idempotent-replay'' \<mapsto> ''true''] else Map.empty)
                          201 (marshalPayment (env_D env) p)),
                       count_metric ''payments_created'' st'))))"

definition get ::
  "'d Env \<Rightarrow> ('c, 's, 'd) Server \<Rightarrow> ('c, 'd) Call \<Rightarrow> string \<Rightarrow> string \<Rightarrow> ('r, 's, 'd) Handler" where
  "get env srv cl merchant ident r st =
     (case S_GetPayment (svc_Store (srv_payments srv)) (cl_ctx cl 0) ident (w_store (hs_world st)) of
        Inl e \<Rightarrow>
          (if e = ErrNotFound then error_response 404 ''payment not found''
           else answer_error 500 (\<lambda>_. ''internal error'') e, st)
      | Inr p \<Rightarrow>
          if merchant \<noteq> [] \<and> p_MerchantID p \<noteq> merchant
          then (error_response 404 ''payment not found'', st)
          else (Some (write_response Map.empty 200 (marshalPayment (env_D env) p)), st))"

text \<open>\<open>None\<close> when the request may go on, otherwise the response that was written.\<close>

definition ownsPayment ::
  "('c, 's, 'd) Server \<Rightarrow> ('c, 'd) Call \<Rightarrow> string \<Rightarrow> string \<Rightarrow> ('r, 's, 'd) HttpState
    \<Rightarrow> Response option option" where
  "ownsPayment srv cl merchant ident st =
     (if merchant = [] then None
      else case S_GetPayment (svc_Store (srv_payments srv)) (cl_ctx cl 0) ident
                  (w_store (hs_world st)) of
        Inl e \<Rightarrow> Some (answer_error 404 (\<lambda>_. ''payment not found'') e)
      | Inr p \<Rightarrow>
          if p_MerchantID p \<noteq> merchant then Some (error_response 404 ''payment not found'') else None)"

definition authorize ::
  "'d Env \<Rightarrow> ('c, 's, 'd) Server \<Rightarrow> ('c, 'd) Call \<Rightarrow> string \<Rightarrow> string \<Rightarrow> ('r, 's, 'd) Handler" where
  "authorize env srv cl merchant ident r st =
     (case ownsPayment srv cl merchant ident st of
        Some response \<Rightarrow> (response, st)
      | None \<Rightarrow>
          (case on_world (PaymentService_Authorize env (srv_payments srv) (\<lambda>k. cl_ctx cl (Suc k)) ident)
                  st of
             (Inl e, st') \<Rightarrow> (answer_error 422 Error e, st')
           | (Inr p, st') \<Rightarrow>
               (Some (write_response Map.empty 200 (marshalPayment (env_D env) p)),
                count_metric ''payments_authorized'' st')))"

definition capture ::
  "'d Env \<Rightarrow> ('c, 's, 'd) Server \<Rightarrow> ('c, 'd) Call \<Rightarrow> string \<Rightarrow> string \<Rightarrow> ('r, 's, 'd) Handler" where
  "capture env srv cl merchant ident r st =
     (case ownsPayment srv cl merchant ident st of
        Some response \<Rightarrow> (response, st)
      | None \<Rightarrow>
          (case requestAmount (env_D env) (cl_jsonError cl) r of
             Inl e \<Rightarrow> (answer_error 422 Error e, st)
           | Inr amount \<Rightarrow>
               (case on_world (PaymentService_Capture env (srv_payments srv) (\<lambda>k. cl_ctx cl (Suc k))
                        ident amount) st of
                  (Inl e, st') \<Rightarrow> (answer_error 422 Error e, st')
                | (Inr p, st') \<Rightarrow>
                    (Some (write_response Map.empty 200 (marshalPayment (env_D env) p)),
                     count_metric ''payments_captured'' st'))))"

definition refund ::
  "'d Env \<Rightarrow> ('c, 's, 'd) Server \<Rightarrow> ('c, 'd) Call \<Rightarrow> string \<Rightarrow> string \<Rightarrow> ('r, 's, 'd) Handler" where
  "refund env srv cl merchant ident r st =
     (case ownsPayment srv cl merchant ident st of
        Some response \<Rightarrow> (response, st)
      | None \<Rightarrow>
          (case requestAmount (env_D env) (cl_jsonError cl) r of
             Inl e \<Rightarrow> (answer_error 422 Error e, st)
           | Inr amount \<Rightarrow>
               (case on_world (PaymentService_Refund env (srv_payments srv) (\<lambda>k. cl_ctx cl (Suc k))
                        ident amount) st of
                  (Inl e, st') \<Rightarrow> (answer_error 422 Error e, st')
                | (Inr p, st') \<Rightarrow>
                    (Some (write_response Map.empty 200 (marshalPayment (env_D env) p)),
                     count_metric ''payments_refunded'' st'))))"

definition createPayout ::
  "'d Env \<Rightarrow> ('c, 's, 'd) Server \<Rightarrow> ('c, 'd) Call \<Rightarrow> string \<Rightarrow> ('r, 's, 'd) Handler" where
  "createPayout env srv cl merchant r st =
     (if merchant = []
      then (error_response 403 ''merchant API keys are required for payouts'', st)
      else case decode_payout (rq_Body r) of
        None \<Rightarrow> (error_response 400 ''invalid JSON'', st)
      | Some (currency, a) \<Rightarrow>
          (case decNewFromString (env_D env) a of
             Inl _ \<Rightarrow> (error_response 422 ''amount must be decimal'', st)
           | Inr amount \<Rightarrow>
               (case on_world (PayoutService_Create env (svc_Store (srv_payments srv)) (cl_ctx cl)
                        merchant currency amount) st of
                  (Inl e, st') \<Rightarrow> (answer_error 422 Error e, st')
                | (Inr payout, st') \<Rightarrow>
                    (Some (write_response Map.empty 201 (marshalPayout (env_D env) payout)),
                     count_metric ''payouts_created'' st'))))"

section \<open>Administration\<close>

text \<open>\<open>None\<close> when the request may go on, otherwise the response that was written.\<close>

definition requireAdmin :: "('c, 's, 'd) Server \<Rightarrow> Request \<Rightarrow> Response option" where
  "requireAdmin srv r =
     (if srv_adminKey srv = [] \<or> rq_Header r ''x-admin-api-key'' \<noteq> srv_adminKey srv
      then error_response 401 ''valid x-admin-api-key is required'' else None)"

fun settlement_lines ::
  "'d decimal_pkg \<Rightarrow> 'd SettlementLine list \<Rightarrow> request_line list \<Rightarrow> 'd SettlementLine list option" where
  "settlement_lines D acc [] = Some acc"
| "settlement_lines D acc ((reference, a) # ls) =
     (case decNewFromString D a of
        Inl _ \<Rightarrow> None
      | Inr amount \<Rightarrow>
          settlement_lines D
            (acc @ [\<lparr>sl_ProviderReference = reference, sl_CapturedAmount = amount\<rparr>]) ls)"

definition marshalMismatch :: "'d decimal_pkg \<Rightarrow> 'd ReconciliationMismatch \<Rightarrow> string result" where
  "marshalMismatch D x =
     (case decMarshalJSON D (rm_Expected x) of Inl e \<Rightarrow> Inl e | Inr a \<Rightarrow>
      (case decMarshalJSON D (rm_Reported x) of Inl e \<Rightarrow> Inl e | Inr b \<Rightarrow>
         Inr (json_object
           [(''ProviderReference'', json_string (rm_ProviderReference x)),
            (''Reason'', json_string (rm_Reason x)), (''Expected'', a), (''Reported'', b)])))"

fun marshal_list :: "('a \<Rightarrow> string result) \<Rightarrow> 'a list \<Rightarrow> string list result" where
  "marshal_list f [] = Inr []"
| "marshal_list f (x # xs) =
     (case f x of Inl e \<Rightarrow> Inl e
      | Inr t \<Rightarrow> (case marshal_list f xs of Inl e \<Rightarrow> Inl e | Inr ts \<Rightarrow> Inr (t # ts)))"

definition marshalMismatches ::
  "'d decimal_pkg \<Rightarrow> 'd ReconciliationMismatch list \<Rightarrow> string result" where
  "marshalMismatches D xs =
     (case marshal_list (marshalMismatch D) xs of
        Inl e \<Rightarrow> Inl e
      | Inr ts \<Rightarrow> Inr (json_object [(''mismatches'', ''['' @ join '','' ts @ '']'')]))"

definition reconcile ::
  "'d Env \<Rightarrow> ('c, 's, 'd) Server \<Rightarrow> ('c, 'd) Call \<Rightarrow> ('r, 's, 'd) Handler" where
  "reconcile env srv cl r st =
     (if srv_adminKey srv = [] \<or> rq_Header r ''x-admin-api-key'' \<noteq> srv_adminKey srv
      then (error_response 401 ''valid x-admin-api-key is required'', st)
      else case decode_settlement (rq_Body r) of
        None \<Rightarrow> (error_response 400 ''invalid JSON'', st)
      | Some ls \<Rightarrow>
          (case settlement_lines (env_D env) [] ls of
             None \<Rightarrow> (error_response 422 ''captured_amount must be decimal'', st)
           | Some lines \<Rightarrow>
               (case Reconcile (env_D env) (cl_sort cl) (svc_Store (srv_payments srv)) (cl_ctx cl) lines
                       (\<lambda>_. w_store (hs_world st)) of
                  Inl e \<Rightarrow> (answer_error 500 (\<lambda>_. ''reconciliation failed'') e, st)
                | Inr mismatches \<Rightarrow>
                    (Some (write_response Map.empty 200 (marshalMismatches (env_D env) mismatches)),
                     fold (\<lambda>_. count_metric ''reconciliation_mismatches'') mismatches
                       (count_metric ''reconciliation_runs'' st)))))"

definition openDispute ::
  "'d Env \<Rightarrow> ('c, 's, 'd) Server \<Rightarrow> ('c, 'd) Call \<Rightarrow> ('r, 's, 'd) Handler" where
  "openDispute env srv cl r st =
     (case requireAdmin srv r of
        Some response \<Rightarrow> (Some response, st)
      | None \<Rightarrow>
     (case decode_dispute (rq_Body r) of
        None \<Rightarrow> (error_response 400 ''invalid JSON'', st)
      | Some (paymentID, reason, a) \<Rightarrow>
          (case decNewFromString (env_D env) a of
             Inl _ \<Rightarrow> (error_response 422 ''amount must be decimal'', st)
           | Inr amount \<Rightarrow>
               (case on_world (DisputeService_Open env (svc_Store (srv_payments srv)) (cl_ctx cl)
                        paymentID reason amount) st of
                  (Inl e, st') \<Rightarrow> (answer_error 422 Error e, st')
                | (Inr d, st') \<Rightarrow>
                    (Some (write_response Map.empty 201 (marshalDispute (env_D env) d)),
                     count_metric ''disputes_opened'' st')))))"

definition resolveDispute ::
  "'d Env \<Rightarrow> ('c, 's, 'd) Server \<Rightarrow> ('c, 'd) Call \<Rightarrow> string \<Rightarrow> ('r, 's, 'd) Handler" where
  "resolveDispute env srv cl ident r st =
     (case requireAdmin srv r of
        Some response \<Rightarrow> (Some response, st)
      | None \<Rightarrow>
     (case decode_resolution (rq_Body r) of
        None \<Rightarrow> (error_response 400 ''invalid JSON'', st)
      | Some merchantWins \<Rightarrow>
          (case on_world (DisputeService_Resolve env (svc_Store (srv_payments srv)) (cl_ctx cl)
                   ident merchantWins) st of
             (Inl e, st') \<Rightarrow> (answer_error 422 Error e, st')
           | (Inr d, st') \<Rightarrow>
               (Some (write_response Map.empty 200 (marshalDispute (env_D env) d)),
                count_metric (''disputes_'' @ DisputeStatus_string (di_Status d)) st'))))"

section \<open>Provider webhooks\<close>

definition verifySignature :: "string \<Rightarrow> string \<Rightarrow> string \<Rightarrow> bool" where
  "verifySignature secret body signature =
     (if secret = [] \<or> signature = [] then False
      else case hexDecode signature of
        None \<Rightarrow> False
      | Some expected \<Rightarrow> ConstantTimeCompare (hmac_sha256 secret body) expected = 1)"

text \<open>\<open>io.ReadAll(http.MaxBytesReader(w, r.Body, 1<<20))\<close>: an error for a longer body.\<close>

definition read_limited :: "Request \<Rightarrow> string option" where
  "read_limited r = (if length (rq_Body r) > 2 ^ 20 then None else Some (rq_Body r))"

definition payoutWebhook ::
  "'d Env \<Rightarrow> ('c, 's, 'd) Server \<Rightarrow> ('c, 'd) Call \<Rightarrow> ('r, 's, 'd) Handler" where
  "payoutWebhook env srv cl r st =
     (let S = svc_Store (srv_payments srv) in
      case read_limited r of
        None \<Rightarrow> (error_response 400 ''invalid request body'', st)
      | Some body \<Rightarrow>
     (if \<not> verifySignature (srv_webhookSecret srv) body (rq_Header r ''x-provider-signature'')
      then (error_response 401 ''invalid webhook signature'', st)
      else case decode_payoutWebhook body of
        None \<Rightarrow> (error_response 400 ''invalid webhook payload'', st)
      | Some event \<Rightarrow>
     (if pe_ID event = [] \<or> pe_PayoutID event = []
      then (error_response 400 ''invalid webhook payload'', st)
      else if pe_Type event \<noteq> ''payout.paid'' \<and> pe_Type event \<noteq> ''payout.failed''
      then (error_response 422 ''unsupported webhook type'', st)
      else case on_world (on_store (S_RegisterWebhook S (cl_ctx cl 0) (pe_ID event))) st of
        (Inl e, st') \<Rightarrow> (answer_error 500 (\<lambda>_. ''webhook persistence failed'') e, st')
      | (Inr accepted, st') \<Rightarrow>
     (if \<not> accepted
      then (Some (write_response Map.empty 200 (message ''status'' ''duplicate_ignored'')), st')
      else case on_world (PayoutService_Complete env S (\<lambda>k. cl_ctx cl (Suc k)) (pe_PayoutID event)
                  (pe_ProviderReference event) (pe_Type event = ''payout.paid'')) st' of
        (Inl e, st'') \<Rightarrow> (answer_error 422 Error e, st'')
      | (Inr payout, st'') \<Rightarrow>
          (Some (write_response Map.empty 200 (marshalPayout (env_D env) payout)),
           count_metric (''payouts_'' @ PayoutStatus_string (po_Status payout)) st'')))))"

definition webhook ::
  "'d Env \<Rightarrow> ('c, 's, 'd) Server \<Rightarrow> ('c, 'd) Call \<Rightarrow> ('r, 's, 'd) Handler" where
  "webhook env srv cl r st =
     (let S = svc_Store (srv_payments srv); ctx = (\<lambda>k. cl_ctx cl (Suc k)) in
      case read_limited r of
        None \<Rightarrow> (error_response 400 ''invalid request body'', st)
      | Some body \<Rightarrow>
     (if \<not> verifySignature (srv_webhookSecret srv) body (rq_Header r ''x-provider-signature'')
      then (error_response 401 ''invalid webhook signature'', st)
      else case decode_providerWebhook body of
        None \<Rightarrow> (error_response 400 ''invalid webhook payload'', st)
      | Some event \<Rightarrow>
     (if pw_ID event = [] \<or> pw_PaymentID event = []
      then (error_response 400 ''invalid webhook payload'', st)
      else case decNewFromString (env_D env) (pw_Amount event) of
        Inl _ \<Rightarrow> (error_response 400 ''invalid webhook amount'', st)
      | Inr amount \<Rightarrow>
     (if \<not> decGreaterThan (env_D env) amount (decZero (env_D env))
      then (error_response 400 ''invalid webhook amount'', st)
      else if pw_Type event \<noteq> ''payment.captured'' \<and> pw_Type event \<noteq> ''payment.refunded''
      then (error_response 422 ''unsupported webhook type'', st)
      else case on_world (on_store (S_RegisterWebhook S (cl_ctx cl 0) (pw_ID event))) st of
        (Inl e, st') \<Rightarrow> (answer_error 500 (\<lambda>_. ''webhook persistence failed'') e, st')
      | (Inr accepted, st') \<Rightarrow>
     (if \<not> accepted
      then (Some (write_response Map.empty 200 (message ''status'' ''duplicate_ignored'')), st')
      else case on_world
                  (if pw_Type event = ''payment.captured''
                   then PaymentService_Capture env (srv_payments srv) ctx (pw_PaymentID event) amount
                   else PaymentService_Refund env (srv_payments srv) ctx (pw_PaymentID event) amount)
                  st' of
        (Inl e, st'') \<Rightarrow> (answer_error 422 Error e, st'')
      | (Inr payment, st'') \<Rightarrow>
          (Some (write_response Map.empty 200 (marshalPayment (env_D env) payment)), st''))))))"

section \<open>Authentication, tracing and routes\<close>

definition requireMerchant ::
  "('c, 's, 'd) Server \<Rightarrow> ('c, 'd) Call \<Rightarrow> (string \<Rightarrow> ('r, 's, 'd) Handler) \<Rightarrow> ('r, 's, 'd) Handler" where
  "requireMerchant srv cl next r st =
     (case Authenticate (srv_authenticator srv) (cl_keys cl) (rq_Header r ''x-api-key'') of
        (merchant, ok) \<Rightarrow>
          if \<not> ok then (error_response 401 ''valid x-api-key is required'', st)
          else if merchant \<noteq> [] then
            (case Allow (cl_now cl) merchant (hs_limiter st) of
               (Inl e, l) \<Rightarrow> (answer_error 503 (\<lambda>_. ''rate limiter unavailable'') e, st\<lparr>hs_limiter := l\<rparr>)
             | (Inr allowed, l) \<Rightarrow>
                 if \<not> allowed then (error_response 429 ''rate limit exceeded'', st\<lparr>hs_limiter := l\<rparr>)
                 else next merchant r (st\<lparr>hs_limiter := l\<rparr>))
          else next [] r st)"

definition requestTracing :: "'d Env \<Rightarrow> ('r, 's, 'd) Handler \<Rightarrow> ('r, 's, 'd) Handler" where
  "requestTracing env next r st =
     (let drawn = rq_Header r ''x-request-id'' = [];
          w = hs_world st;
          requestID = (if drawn then env_uuid env (w_next w) else rq_Header r ''x-request-id'');
          st1 = (if drawn then st\<lparr>hs_world := w\<lparr>w_next := Suc (w_next w)\<rparr>\<rparr> else st);
          h1 = [''x-request-id'' \<mapsto> requestID];
          parent = rq_Header r ''traceparent'';
          h2 = (if parent \<noteq> [] then h1(''traceparent'' \<mapsto> parent) else h1)
      in case next r st1 of
           (response, st2) \<Rightarrow> (map_option (\<lambda>x. x\<lparr>rs_Header := h2 ++ rs_Header x\<rparr>) response, st2))"

text \<open>\<open>nat_digits\<close> is a number as \<open>%d\<close> prints it.\<close>

definition metrics_text :: "('c, 'd) Call \<Rightarrow> CounterMetrics \<Rightarrow> string" where
  "metrics_text cl m =
     ''payment_platform_up 1'' @ [CHR 0x0A] @
     concat (map (\<lambda>name. ''payment_platform_'' @ name @ ''_total '' @
       nat_digits (unat (case Snapshot (cl_names cl) m name of None \<Rightarrow> 0 | Some v \<Rightarrow> v)) @ [CHR 0x0A])
       (Names (cl_names cl) m))"

datatype Endpoint = Healthz | Readyz | MetricsPage | PaymentsCreate | PaymentsGet | PaymentsAuthorize
  | PaymentsCapture | PaymentsRefund | PayoutsCreate | ProviderWebhooks | PayoutWebhooks
  | AdminReconciliation | AdminDisputes | AdminDisputesResolve

text \<open>The patterns of the multiplexer; \<open>None\<close> is the wildcard \<open>{id}\<close>.\<close>

definition patterns :: "(string \<times> string option list \<times> Endpoint) list" where
  "patterns =
     [(''GET'', [Some ''healthz''], Healthz),
      (''GET'', [Some ''readyz''], Readyz),
      (''GET'', [Some ''metrics''], MetricsPage),
      (''POST'', [Some ''v1'', Some ''payments''], PaymentsCreate),
      (''GET'', [Some ''v1'', Some ''payments'', None], PaymentsGet),
      (''POST'', [Some ''v1'', Some ''payments'', None, Some ''authorize''], PaymentsAuthorize),
      (''POST'', [Some ''v1'', Some ''payments'', None, Some ''capture''], PaymentsCapture),
      (''POST'', [Some ''v1'', Some ''payments'', None, Some ''refund''], PaymentsRefund),
      (''POST'', [Some ''v1'', Some ''payouts''], PayoutsCreate),
      (''POST'', [Some ''v1'', Some ''provider'', Some ''webhooks''], ProviderWebhooks),
      (''POST'', [Some ''v1'', Some ''provider'', Some ''payout-webhooks''], PayoutWebhooks),
      (''POST'', [Some ''v1'', Some ''admin'', Some ''reconciliation''], AdminReconciliation),
      (''POST'', [Some ''v1'', Some ''admin'', Some ''disputes''], AdminDisputes),
      (''POST'', [Some ''v1'', Some ''admin'', Some ''disputes'', None, Some ''resolve''],
        AdminDisputesResolve)]"

text \<open>
  How ServeMux matches: a literal matches itself, a wildcard one segment that is not empty; a
  pattern for GET also matches HEAD. No request matches two of the patterns. The identifier is
  the segment the wildcard matched.
\<close>

fun match_path :: "string option list \<Rightarrow> string list \<Rightarrow> string \<Rightarrow> string option" where
  "match_path [] [] ident = Some ident"
| "match_path (Some s # ps) (x # xs) ident = (if x = s then match_path ps xs ident else None)"
| "match_path (None # ps) (x # xs) ident = (if x = [] then None else match_path ps xs x)"
| "match_path _ _ _ = None"

definition method_matches :: "string \<Rightarrow> string \<Rightarrow> bool" where
  "method_matches pattern_method m \<longleftrightarrow> m = pattern_method \<or> pattern_method = ''GET'' \<and> m = ''HEAD''"

definition route :: "Request \<Rightarrow> (Endpoint \<times> string) option" where
  "route r =
     (case filter (\<lambda>(m, ps, e). method_matches m (rq_Method r) \<and> match_path ps (rq_Path r) [] \<noteq> None)
             patterns of
        [] \<Rightarrow> None
      | (m, ps, e) # _ \<Rightarrow> map_option (Pair e) (match_path ps (rq_Path r) []))"

text \<open>The answer to a request that matches no pattern.\<close>

definition unmatched :: "Request \<Rightarrow> Response" where
  "unmatched r =
     (let plain = [''content-type'' \<mapsto> ''text/plain; charset=utf-8'', ''x-content-type-options'' \<mapsto> ''nosniff''];
          methods = map fst (filter (\<lambda>(m, ps, e). match_path ps (rq_Path r) [] \<noteq> None) patterns)
      in if methods = []
         then \<lparr>rs_Status = 404, rs_Header = plain, rs_Body = ''404 page not found'' @ [CHR 0x0A]\<rparr>
         else \<lparr>rs_Status = 405,
               rs_Header = plain(''allow'' \<mapsto> (if ''GET'' \<in> set methods
                 then join '', '' (''GET'' # ''HEAD'' # filter (\<lambda>m. m \<noteq> ''GET'') (remdups methods))
                 else join '', '' (remdups methods))),
               rs_Body = ''Method Not Allowed'' @ [CHR 0x0A]\<rparr>)"

definition serve ::
  "'d Env \<Rightarrow> ('c, 's, 'd) Server \<Rightarrow> ('c, 'd) Call \<Rightarrow> Endpoint \<Rightarrow> string \<Rightarrow> ('r, 's, 'd) Handler" where
  "serve env srv cl e ident =
     (let protect = requireMerchant srv cl in
      case e of
        Healthz \<Rightarrow> (\<lambda>r st. (Some (write_response Map.empty 200 (message ''status'' ''ok'')), st))
      | Readyz \<Rightarrow> (\<lambda>r st. (Some (write_response Map.empty 200 (message ''status'' ''ready'')), st))
      | MetricsPage \<Rightarrow> (\<lambda>r st. (Some \<lparr>rs_Status = 200, rs_Header = [''content-type'' \<mapsto> ''text/plain''],
                               rs_Body = metrics_text cl (hs_metrics st)\<rparr>, st))
      | PaymentsCreate \<Rightarrow> protect (create env srv cl)
      | PaymentsGet \<Rightarrow> protect (\<lambda>m. get env srv cl m ident)
      | PaymentsAuthorize \<Rightarrow> protect (\<lambda>m. authorize env srv cl m ident)
      | PaymentsCapture \<Rightarrow> protect (\<lambda>m. capture env srv cl m ident)
      | PaymentsRefund \<Rightarrow> protect (\<lambda>m. refund env srv cl m ident)
      | PayoutsCreate \<Rightarrow> protect (createPayout env srv cl)
      | ProviderWebhooks \<Rightarrow> webhook env srv cl
      | PayoutWebhooks \<Rightarrow> payoutWebhook env srv cl
      | AdminReconciliation \<Rightarrow> reconcile env srv cl
      | AdminDisputes \<Rightarrow> openDispute env srv cl
      | AdminDisputesResolve \<Rightarrow> resolveDispute env srv cl ident)"

definition Routes ::
  "'d Env \<Rightarrow> ('c, 's, 'd) Server \<Rightarrow> ('c, 'd) Call \<Rightarrow> ('r, 's, 'd) Handler" where
  "Routes env srv cl =
     requestTracing env (\<lambda>r st. case route r of
       None \<Rightarrow> (Some (unmatched r), st)
     | Some (e, ident) \<Rightarrow> serve env srv cl e ident r st)"

end
