(* ===== verification/Http_Laws.thy ===== *)
theory Http_Laws
  imports Http_Server Platform_Run
begin

text \<open>
  What every request leaves intact. The locale \<open>request_closed\<close> states what a relation between
  worlds needs so that every request keeps it: it is a preorder that holds across each service
  operation the handlers call. Its instances are reachability in the platform and the growth of
  the log of provider calls.
\<close>

section \<open>The part of \<open>requestTracing\<close> around the handler\<close>

definition traced :: "'d Env \<Rightarrow> Request \<Rightarrow> ('r, 's, 'd) HttpState \<Rightarrow> ('r, 's, 'd) HttpState" where
  "traced env r st =
     (if rq_Header r ''x-request-id'' = []
      then st\<lparr>hs_world := (hs_world st)\<lparr>w_next := Suc (w_next (hs_world st))\<rparr>\<rparr> else st)"

definition request_id :: "'d Env \<Rightarrow> Request \<Rightarrow> ('r, 's, 'd) HttpState \<Rightarrow> string" where
  "request_id env r st =
     (if rq_Header r ''x-request-id'' = [] then env_uuid env (w_next (hs_world st))
      else rq_Header r ''x-request-id'')"

definition trace_header :: "'d Env \<Rightarrow> Request \<Rightarrow> ('r, 's, 'd) HttpState \<Rightarrow> (string \<rightharpoonup> string)" where
  "trace_header env r st =
     (if rq_Header r ''traceparent'' = [] then [''x-request-id'' \<mapsto> request_id env r st]
      else [''x-request-id'' \<mapsto> request_id env r st, ''traceparent'' \<mapsto> rq_Header r ''traceparent''])"

lemma Routes_eq:
  "Routes env srv cl r st =
     apfst (map_option (\<lambda>x. x\<lparr>rs_Header := trace_header env r st ++ rs_Header x\<rparr>))
       (case route r of None \<Rightarrow> (Some (unmatched r), traced env r st)
        | Some (e, i) \<Rightarrow> serve env srv cl e i r (traced env r st))"
  by (auto simp: Routes_def requestTracing_def Let_def traced_def trace_header_def request_id_def
      split: option.splits prod.splits)

lemma traced_simps [simp]:
  "w_store (hs_world (traced env r st)) = w_store (hs_world st)"
  "w_calls (hs_world (traced env r st)) = w_calls (hs_world st)"
  "w_metrics (hs_world (traced env r st)) = w_metrics (hs_world st)"
  "hs_limiter (traced env r st) = hs_limiter st" "hs_metrics (traced env r st) = hs_metrics st"
  by (simp_all add: traced_def)

section \<open>Signatures\<close>

lemma verifySignature_eq:
  "verifySignature secret body sig \<longleftrightarrow> secret \<noteq> [] \<and> hexDecode sig = Some (hmac_sha256 secret body)"
proof -
  have "hmac_sha256 secret body \<noteq> []" using length_hmac_sha256 [of secret body] by force
  then show ?thesis
    by (auto simp: verifySignature_def ConstantTimeCompare_iff split: option.splits)
qed

section \<open>Relations kept by every request\<close>

locale request_closed =
  fixes env :: "'d Env" and S :: "('c, 's, 'd) Store" and R :: "('s, 'd) World \<Rightarrow> ('s, 'd) World \<Rightarrow> bool"
  assumes R_refl: "R w w"
    and R_trans: "R w w' \<Longrightarrow> R w' w'' \<Longrightarrow> R w w''"
    and R_uuid: "R w (w\<lparr>w_next := Suc (w_next w)\<rparr>)"
    and R_register: "R w (snd (on_store (S_RegisterWebhook S c i) w))"
    and R_create: "svc_Store svc = S \<Longrightarrow> R w (snd (PaymentService_Create env svc ctx inp key w))"
    and R_authorize: "svc_Store svc = S \<Longrightarrow> R w (snd (PaymentService_Authorize env svc ctx i w))"
    and R_capture: "svc_Store svc = S \<Longrightarrow> R w (snd (PaymentService_Capture env svc ctx i a w))"
    and R_refund: "svc_Store svc = S \<Longrightarrow> R w (snd (PaymentService_Refund env svc ctx i a w))"
    and R_payout: "R w (snd (PayoutService_Create env S ctx m cur a w))"
    and R_complete: "R w (snd (PayoutService_Complete env S ctx i reference success w))"
    and R_open: "R w (snd (DisputeService_Open env S ctx i reason a w))"
    and R_resolve: "R w (snd (DisputeService_Resolve env S ctx i win w))"

lemma hs_world_count_metric [simp]: "hs_world (count_metric n st) = hs_world st"
  by (simp add: count_metric_def)

lemma hs_world_fold_metric [simp]: "hs_world (fold (\<lambda>_. count_metric n) xs st) = hs_world st"
  by (induction xs arbitrary: st) simp_all

lemma on_world_iff:
  "on_world f st = (x, st') \<longleftrightarrow> (\<exists>w. f (hs_world st) = (x, w) \<and> st' = st\<lparr>hs_world := w\<rparr>)"
  by (auto simp: on_world_def split: prod.splits)

context request_closed
begin

lemmas R_steps = R_create R_authorize R_capture R_refund R_payout R_complete R_open R_resolve R_register

lemma R_on_world:
  assumes "on_world f st = (x, st')" "\<And>w. R w (snd (f w))"
  shows "R (hs_world st) (hs_world st')"
  using assms(1) assms(2) [of "hs_world st"] by (auto simp: on_world_iff)

lemma payments_closed:
  assumes "svc_Store (srv_payments srv) = S"
  shows "R (hs_world st) (hs_world (snd (create env srv cl m r st)))"
    and "R (hs_world st) (hs_world (snd (get env srv cl m i r st)))"
    and "R (hs_world st) (hs_world (snd (authorize env srv cl m i r st)))"
    and "R (hs_world st) (hs_world (snd (capture env srv cl m i r st)))"
    and "R (hs_world st) (hs_world (snd (refund env srv cl m i r st)))"
    and "R (hs_world st) (hs_world (snd (createPayout env srv cl m r st)))"
  using R_refl R_steps assms
  by (auto simp: create_def get_def authorize_def capture_def refund_def createPayout_def
      split: option.splits sum.splits prod.splits dest!: R_on_world)

lemma admin_closed:
  assumes "svc_Store (srv_payments srv) = S"
  shows "R (hs_world st) (hs_world (snd (reconcile env srv cl r st)))"
    and "R (hs_world st) (hs_world (snd (openDispute env srv cl r st)))"
    and "R (hs_world st) (hs_world (snd (resolveDispute env srv cl i r st)))"
  using R_refl R_steps assms
  by (auto simp: reconcile_def openDispute_def resolveDispute_def
      split: option.splits sum.splits prod.splits dest!: R_on_world)

lemma payoutWebhook_closed:
  assumes "svc_Store (srv_payments srv) = S"
  shows "R (hs_world st) (hs_world (snd (payoutWebhook env srv cl r st)))"
  using R_refl R_complete R_register assms
  by (auto simp: payoutWebhook_def Let_def split: option.splits sum.splits prod.splits
      dest!: R_on_world intro: R_trans)

lemma webhook_closed:
  assumes "svc_Store (srv_payments srv) = S"
  shows "R (hs_world st) (hs_world (snd (webhook env srv cl r st)))"
  using R_refl R_capture R_refund R_register assms
  by (auto simp: webhook_def Let_def split: option.splits sum.splits prod.splits if_splits
      dest!: R_on_world intro: R_trans)

lemma requireMerchant_closed:
  assumes "\<And>m st. R (hs_world st) (hs_world (snd (h m r st)))"
  shows "R (hs_world st) (hs_world (snd (requireMerchant srv cl h r st)))"
  using R_refl assms(1) [of "st\<lparr>hs_limiter := _\<rparr>"] assms(1) [of st]
  by (auto simp: requireMerchant_def split: prod.splits sum.splits)

lemma serve_closed:
  assumes "svc_Store (srv_payments srv) = S"
  shows "R (hs_world st) (hs_world (snd (serve env srv cl e i r st)))"
  by (cases e) (simp_all add: serve_def R_refl payments_closed [OF assms] admin_closed [OF assms]
      webhook_closed [OF assms] payoutWebhook_closed [OF assms] requireMerchant_closed)

lemma request_keeps:
  assumes "svc_Store (srv_payments srv) = S"
  shows "R (hs_world st) (hs_world (snd (Routes env srv cl r st)))"
proof -
  have "R (hs_world st) (hs_world (traced env r st))" using R_refl R_uuid by (simp add: traced_def)
  moreover have "R (hs_world (traced env r st)) (hs_world (snd (Routes env srv cl r st)))"
    using R_refl serve_closed [OF assms, of "traced env r st"]
    by (auto simp: Routes_eq split: prod.splits option.splits)
  ultimately show ?thesis by (rule R_trans)
qed

end

text \<open>Reachability in the platform, over any store.\<close>

interpretation runs: request_closed env S
  "\<lambda>w w'. \<forall>s0 ts. platform_reachable env S (\<lambda>_. True) s0 (w, ts) \<longrightarrow>
     platform_reachable env S (\<lambda>_. True) s0 (w', ts)" for env S
proof unfold_locales
  show "\<forall>s0 ts. platform_reachable env S (\<lambda>_. True) s0 (w, ts) \<longrightarrow>
      platform_reachable env S (\<lambda>_. True) s0 (w\<lparr>w_next := Suc (w_next w)\<rparr>, ts)" for w
    by (blast intro: platform_next step_uuid)
  show "\<forall>s0 ts. platform_reachable env S (\<lambda>_. True) s0 (w, ts) \<longrightarrow>
      platform_reachable env S (\<lambda>_. True) s0 (snd (on_store (S_RegisterWebhook S c i) w), ts)" for w c i
    by (auto simp: on_store_def split: prod.splits intro: platform_next step_webhook)
qed (auto intro: run_services)

text \<open>The log of provider calls only grows.\<close>

lemma PaymentService_commit_calls:
  "w_calls (snd (PaymentService_commit env svc c p st a reference es ty w)) = w_calls w"
  by (auto simp: PaymentService_commit_def on_store_def split: sum.splits prod.splits)

lemma on_store_calls [simp]: "w_calls (snd (on_store f w)) = w_calls w"
  by (simp add: snd_on_store)

interpretation calls: request_closed env S "\<lambda>w w'. \<exists>cs. w_calls w' = w_calls w @ cs" for env S
proof unfold_locales
  fix svc ctx i w
  show "\<exists>cs. w_calls (snd (PaymentService_Authorize env svc ctx i w)) = w_calls w @ cs"
    by (auto simp: PaymentService_Authorize_def Authorize_read_def Let_def PaymentService_commit_calls
        split: sum.splits error.splits)
  fix a
  show "\<exists>cs. w_calls (snd (PaymentService_Capture env svc ctx i a w)) = w_calls w @ cs"
    by (auto simp: PaymentService_Capture_def Capture_read_def Let_def PaymentService_commit_calls
        split: sum.splits)
  show "\<exists>cs. w_calls (snd (PaymentService_Refund env svc ctx i a w)) = w_calls w @ cs"
    by (auto simp: PaymentService_Refund_def Refund_read_def Let_def PaymentService_commit_calls
        split: sum.splits)
  fix inp key
  show "\<exists>cs. w_calls (snd (PaymentService_Create env svc ctx inp key w)) = w_calls w @ cs"
    by (auto simp: PaymentService_Create_def on_store_def split: sum.splits prod.splits)
qed (auto simp: PayoutService_Create_def PayoutService_Complete_def Complete_read_def
      DisputeService_Open_def Open_read_def DisputeService_Resolve_def Resolve_read_def Let_def
      split: sum.splits)

end
