(* ===== verification/Demo_Http.thy ===== *)
theory Demo_Http
  imports Http_Laws Outbox
begin

text \<open>
  A server over the memory store in the state of the run of \<open>Demo_Run\<close> after the capture, with two
  merchants and their keys, an administrator key and a webhook secret, and requests to it. The
  witnesses of the properties of the HTTP layer use it.
\<close>

definition demo_config :: "unit Config" where
  "demo_config = \<lparr>cfg_WebhookSecret = ''secret'', cfg_MerchantAPIKeys = ''k1:m, k2:n'',
     cfg_AdminAPIKey = ''root'', cfg_Limiter = None, cfg_Metrics = None\<rparr>"

definition demo_server :: "(string list, coef_exp MemoryStore, coef_exp) Server" where
  "demo_server = fst (New demo_svc demo_config demo_w3)"

definition demo_http :: "(unit, coef_exp MemoryStore, coef_exp) HttpState" where
  "demo_http = snd (New demo_svc demo_config demo_w3)"

definition demo_call :: "(string list, coef_exp) Call" where
  "demo_call = \<lparr>cl_ctx = (\<lambda>_. []), cl_now = 0, cl_keys = [''k2'', ''k1''], cl_names = [],
     cl_sort = sort_key rm_ProviderReference, cl_jsonError = (\<lambda>_. ''invalid JSON'')\<rparr>"

text \<open>A request: method, path, one header, body.\<close>

definition demo_request :: "string \<Rightarrow> string list \<Rightarrow> string \<Rightarrow> string \<Rightarrow> string \<Rightarrow> Request" where
  "demo_request method path name v body =
     \<lparr>rq_Method = method, rq_Path = path, rq_Header = (\<lambda>h. if h = name then v else []), rq_Body = body\<rparr>"

lemma demo_authenticator: "NewMerchantAuthenticator ''k1:m, k2:n'' = [(''k1'', ''m''), (''k2'', ''n'')]"
  by code_simp

lemma demo_server_simps [simp]:
  "srv_payments demo_server = demo_svc" "srv_webhookSecret demo_server = ''secret''"
  "srv_adminKey demo_server = ''root''"
  "srv_authenticator demo_server = [(''k1'', ''m''), (''k2'', ''n'')]"
  by (simp_all add: demo_server_def New_def demo_config_def demo_authenticator)

lemma demo_http_simps [simp]:
  "hs_world demo_http = demo_w3" "hs_limiter demo_http = MemoryLimiter (NewMemoryRateLimiter 120 60000000000)"
  by (simp_all add: demo_http_def New_def demo_config_def)

lemma demo_call_simps [simp]:
  "cl_keys demo_call = [''k2'', ''k1'']" "cl_now demo_call = 0" "cl_ctx demo_call = (\<lambda>_. [])"
  by (simp_all add: demo_call_def)

lemma demo_request_simps [simp]:
  "rq_Method (demo_request method path name v body) = method"
  "rq_Path (demo_request method path name v body) = path"
  "rq_Header (demo_request method path name v body) name = v"
  "rq_Body (demo_request method path name v body) = body"
  by (simp_all add: demo_request_def)

lemma demo_routes:
  "route (demo_request ''GET'' [''v1'', ''payments'', demo_id] name v body) = Some (PaymentsGet, demo_id)"
  "route (demo_request ''POST'' [''v1'', ''payouts''] name v body) = Some (PayoutsCreate, [])"
  "route (demo_request ''POST'' [''v1'', ''admin'', ''disputes''] name v body) = Some (AdminDisputes, [])"
  "route (demo_request ''POST'' [''v1'', ''provider'', ''webhooks''] name v body) = Some (ProviderWebhooks, [])"
  by (simp_all add: route_def patterns_def method_matches_def demo_request_def)

lemma demo_visits: "visits (map_of (srv_authenticator demo_server)) (cl_keys demo_call)"
  by (auto simp: visits_def split: if_splits)

lemma demo_authenticates:
  "Authenticate [(''k1'', ''m''), (''k2'', ''n'')] [''k2'', ''k1''] ''k2'' = (''n'', True)"
  by code_simp

lemma demo_allowed: "fst (Allow 0 ''n'' (hs_limiter demo_http)) = Inr True"
  by code_simp

text \<open>A signed provider event that reports a capture of 5.00 for a payment.\<close>

definition demo_event_body :: "string \<Rightarrow> string" where
  "demo_event_body pid = json_object [(''id'', json_string ''e1''), (''type'', json_string ''payment.captured''),
     (''payment_id'', json_string pid), (''amount'', json_string ''5.00'')]"

definition demo_hook :: "string \<Rightarrow> Request" where
  "demo_hook pid = demo_request ''POST'' [''v1'', ''provider'', ''webhooks''] ''x-provider-signature''
     (hexEncode (hmac_sha256 ''secret'' (demo_event_body pid))) (demo_event_body pid)"

lemma demo_hook_decodes:
  "decode_providerWebhook (demo_event_body demo_id) =
     Some \<lparr>pw_ID = ''e1'', pw_Type = ''payment.captured'', pw_PaymentID = demo_id, pw_Amount = ''5.00''\<rparr>"
  "decode_providerWebhook (demo_event_body ''lost'') =
     Some \<lparr>pw_ID = ''e1'', pw_Type = ''payment.captured'', pw_PaymentID = ''lost'', pw_Amount = ''5.00''\<rparr>"
  by code_simp+

lemma demo_hook_short: "length (demo_event_body demo_id) \<le> 2 ^ 20" "length (demo_event_body ''lost'') \<le> 2 ^ 20"
proof -
  have "length (demo_event_body demo_id) \<le> 100" "length (demo_event_body ''lost'') \<le> 100" by code_simp+
  then show "length (demo_event_body demo_id) \<le> 2 ^ 20" "length (demo_event_body ''lost'') \<le> 2 ^ 20" by simp_all
qed

lemma demo_amount: "ce_parse ''5.00'' = Inr (Dec 500 (-2))"
  by code_simp

end
