(* ===== verification/Http_Guards.thy ===== *)
theory Http_Guards
  imports Demo_Http
begin

text \<open>
  Who may do what over HTTP: merchant keys, the administrator's key, webhook signatures, and the
  separation of merchants. A refused request changes nothing but the counter of drawn UUIDs.
\<close>

section \<open>Requests that change nothing\<close>

definition untouched :: "('r, 's, 'd) HttpState \<Rightarrow> ('r, 's, 'd) HttpState \<Rightarrow> bool" where
  "untouched st st' \<longleftrightarrow> w_store (hs_world st') = w_store (hs_world st) \<and>
     w_calls (hs_world st') = w_calls (hs_world st) \<and> w_metrics (hs_world st') = w_metrics (hs_world st) \<and>
     hs_metrics st' = hs_metrics st"

lemma untouched_traced [simp]: "untouched st (traced env r st)"
  by (simp add: untouched_def)

lemma untouched_limiter [simp]:
  "untouched st (st'\<lparr>hs_limiter := l\<rparr>) \<longleftrightarrow> untouched st st'"
  by (simp add: untouched_def)

definition protected :: "Endpoint set" where
  "protected = {PaymentsCreate, PaymentsGet, PaymentsAuthorize, PaymentsCapture, PaymentsRefund, PayoutsCreate}"

definition admin :: "Endpoint set" where
  "admin = {AdminReconciliation, AdminDisputes, AdminDisputesResolve}"

definition payment_endpoints :: "Endpoint set" where
  "payment_endpoints = {PaymentsGet, PaymentsAuthorize, PaymentsCapture, PaymentsRefund}"

text \<open>The refusal: the status and the message.\<close>

definition refused :: "int \<Rightarrow> string \<Rightarrow> Response option \<Rightarrow> bool" where
  "refused status m resp \<longleftrightarrow>
     (\<exists>x. resp = Some x \<and> rs_Status x = status \<and> rs_Body x = json_object [(''error'', json_string m)] @ [CHR 0x0A])"

lemma refused_error [simp]:
  "refused status m (map_option (\<lambda>x. x\<lparr>rs_Header := h ++ rs_Header x\<rparr>) (error_response status m))"
  by (simp add: refused_def error_response_def write_response_def message_def)

lemma Routes_result:
  assumes "route r = Some (e, i)" "serve env srv cl e i r (traced env r st) = (x, st')"
    "Routes env srv cl r st = (resp, st'')"
  shows "st'' = st'" "resp = map_option (\<lambda>x. x\<lparr>rs_Header := trace_header env r st ++ rs_Header x\<rparr>) x"
  using assms by (simp_all add: Routes_eq)

lemma serve_protected:
  assumes "e \<in> protected"
  shows "\<exists>h. serve env srv cl e i r st = requireMerchant srv cl h r st"
  using assms by (auto simp: protected_def serve_def)

text \<open>
  C15: When merchant keys are configured, every payment and payout endpoint answers 401 to a
  request whose key is not one of them, and changes neither the store nor a counter nor the rate
  limiter, and calls no provider, whatever order the keys are compared in.
\<close>

theorem api_key_required:
  assumes "route r = Some (e, i)" "e \<in> protected"
    and "srv_authenticator srv \<noteq> []" "visits (map_of (srv_authenticator srv)) (cl_keys cl)"
    and "map_of (srv_authenticator srv) (rq_Header r ''x-api-key'') = None"
    and "Routes env srv cl r st = (resp, st')"
  shows "refused 401 ''valid x-api-key is required'' resp \<and> untouched st st' \<and> hs_limiter st' = hs_limiter st"
proof -
  obtain h where h: "serve env srv cl e i r (traced env r st) = requireMerchant srv cl h r (traced env r st)"
    using serve_protected [OF assms(2)] by blast
  have "Authenticate (srv_authenticator srv) (cl_keys cl) (rq_Header r ''x-api-key'') = ([], False)"
    using assms(3-5) auth_search_eq [of "cl_keys cl" "map_of (srv_authenticator srv)"]
    by (simp add: Authenticate_def visits_def)
  then have "serve env srv cl e i r (traced env r st) =
      (error_response 401 ''valid x-api-key is required'', traced env r st)"
    by (simp add: h requireMerchant_def)
  from Routes_result [OF assms(1) this assms(6)] show ?thesis by simp
qed

theorem api_key_required_witness:
  "refused 401 ''valid x-api-key is required''
     (fst (Routes demo_env demo_server demo_call
       (demo_request ''POST'' [''v1'', ''payouts''] ''x-api-key'' ''k3'' []) demo_http))"
  by (rule api_key_required [OF demo_routes(2) _ _ demo_visits _ surjective_pairing, THEN conjunct1])
    (simp_all add: protected_def)

text \<open>
  The administrative endpoints (reconciliation, disputes) answer 401 and change nothing
  when the request does not carry the configured administrator key, and always when none is
  configured.
\<close>

theorem admin_key_required:
  assumes "route r = Some (e, i)" "e \<in> admin"
    and "srv_adminKey srv = [] \<or> rq_Header r ''x-admin-api-key'' \<noteq> srv_adminKey srv"
    and "Routes env srv cl r st = (resp, st')"
  shows "refused 401 ''valid x-admin-api-key is required'' resp \<and> untouched st st' \<and>
     hs_limiter st' = hs_limiter st"
proof -
  have "requireAdmin srv r = error_response 401 ''valid x-admin-api-key is required''"
    using assms(3) by (simp add: requireAdmin_def)
  then have "serve env srv cl e i r (traced env r st) =
      (error_response 401 ''valid x-admin-api-key is required'', traced env r st)"
    using assms(2,3)
    by (auto simp: admin_def serve_def reconcile_def openDispute_def resolveDispute_def error_response_def)
  from Routes_result [OF assms(1) this assms(4)] show ?thesis by simp
qed

theorem admin_key_required_witness:
  "refused 401 ''valid x-admin-api-key is required''
     (fst (Routes demo_env demo_server demo_call
       (demo_request ''POST'' [''v1'', ''admin'', ''disputes''] ''x-admin-api-key'' ''guess'' []) demo_http))"
  by (rule admin_key_required [OF demo_routes(3) _ _ surjective_pairing, THEN conjunct1])
    (simp_all add: admin_def)

section \<open>Signatures\<close>

text \<open>
  C16: A provider webhook, for payments or for payouts, whose signature is not the hexadecimal
  HMAC-SHA256 of its body under the configured secret is refused and changes nothing; without
  a configured secret every webhook is.
\<close>

theorem webhook_forged:
  assumes "route r = Some (e, i)" "e \<in> {ProviderWebhooks, PayoutWebhooks}"
    and "srv_webhookSecret srv = [] \<or>
      hexDecode (rq_Header r ''x-provider-signature'') \<noteq> Some (hmac_sha256 (srv_webhookSecret srv) (rq_Body r))"
    and "Routes env srv cl r st = (resp, st')"
  shows "(refused 401 ''invalid webhook signature'' resp \<or> refused 400 ''invalid request body'' resp) \<and>
     untouched st st' \<and> hs_limiter st' = hs_limiter st"
proof -
  have sig: "\<not> verifySignature (srv_webhookSecret srv) (rq_Body r) (rq_Header r ''x-provider-signature'')"
    using assms(3) by (auto simp: verifySignature_eq)
  then have "\<exists>x. serve env srv cl e i r (traced env r st) = (x, traced env r st) \<and>
      x \<in> {error_response 401 ''invalid webhook signature'', error_response 400 ''invalid request body''}"
    using assms(2)
    by (auto simp: serve_def webhook_def payoutWebhook_def read_limited_def)
  then obtain x where x: "serve env srv cl e i r (traced env r st) = (x, traced env r st)"
    "x \<in> {error_response 401 ''invalid webhook signature'', error_response 400 ''invalid request body''}"
    by blast
  from Routes_result [OF assms(1) x(1) assms(4)] x(2) show ?thesis by auto
qed

theorem webhook_forged_witness:
  "untouched demo_http (snd (Routes demo_env demo_server demo_call
     (demo_request ''POST'' [''v1'', ''provider'', ''webhooks''] ''x-provider-signature'' ''00'' ''{}'') demo_http))"
proof -
  have "length [char_of (0 :: nat)] \<noteq> length (hmac_sha256 ''secret'' ''{}'')" by simp
  then have "[char_of (0 :: nat)] \<noteq> hmac_sha256 ''secret'' ''{}''" by (rule contrapos_nn) (rule arg_cong)
  then have "hexDecode ''00'' \<noteq> Some (hmac_sha256 ''secret'' ''{}'')"
    by (simp add: hexValue_def)
  then show ?thesis
    by (intro webhook_forged [OF demo_routes(4) _ _ surjective_pairing, THEN conjunct2, THEN conjunct1])
      (simp_all only: demo_server_simps demo_request_simps simp_thms insert_iff)
qed

text \<open>
  C35: The two ends of the webhook protocol fit: the verification accepts exactly the
  hexadecimal HMAC of the body, in lower or upper case, under a secret that is not empty. In
  particular it accepts the signature that the merchant webhook publisher puts on an event when both
  sides share the secret.
\<close>

theorem signature_roundtrip:
  "(verifySignature secret body sig \<longleftrightarrow> secret \<noteq> [] \<and> hexDecode sig = Some (hmac_sha256 secret body)) \<and>
   (\<forall>p event. verifySignature (mw_Secret p) (hr_Body (webhook_request p event))
      (hexEncode (hmac_sha256 (mw_Secret p) (ev_Payload event))) \<longleftrightarrow> mw_Secret p \<noteq> []) \<and>
   (\<forall>p event. (''x-payment-signature'', hexEncode (hmac_sha256 (mw_Secret p) (ev_Payload event)))
      \<in> set (hr_Header (webhook_request p event)))"
  by (simp add: verifySignature_eq hexDecode_hexEncode webhook_request_def)

section \<open>Separation of merchants\<close>

text \<open>
  C14: A request with the key of one merchant for the payment of another, or for a payment
  that does not exist, changes nothing but the rate limiter and calls no provider. Unless the
  limiter stops it the answer is 404 with the same body in both cases, so the request does not
  even reveal that the payment exists. This holds for reading, authorizing, capturing, refunding.
\<close>

lemma get_foreign:
  assumes "m \<noteq> []" "svc_Store (srv_payments srv) = memoryStore D"
    and "\<And>p. payments (w_store (hs_world st)) i = Some p \<Longrightarrow> p_MerchantID p \<noteq> m"
  shows "get env srv cl m i r st = (error_response 404 ''payment not found'', st)"
    and "ownsPayment srv cl m i st = Some (error_response 404 ''payment not found'')"
  using assms by (auto simp: get_def ownsPayment_def Memory_GetPayment_def answer_error_def split: option.splits)

lemma foreign_handler:
  assumes "e \<in> payment_endpoints" "m \<noteq> []" "svc_Store (srv_payments srv) = memoryStore D"
    and "\<And>p. payments (w_store (hs_world st)) i = Some p \<Longrightarrow> p_MerchantID p \<noteq> m"
  shows "\<exists>h. serve env srv cl e i r st = requireMerchant srv cl h r st \<and>
    (\<forall>l. h m r (st\<lparr>hs_limiter := l\<rparr>) = (error_response 404 ''payment not found'', st\<lparr>hs_limiter := l\<rparr>))"
proof -
  have foreign: "get env srv cl m i r (st\<lparr>hs_limiter := l\<rparr>) =
      (error_response 404 ''payment not found'', st\<lparr>hs_limiter := l\<rparr>)"
    "ownsPayment srv cl m i (st\<lparr>hs_limiter := l\<rparr>) = Some (error_response 404 ''payment not found'')" for l
    using get_foreign [OF assms(2,3), of "st\<lparr>hs_limiter := l\<rparr>" i] assms(4) by simp_all
  consider "e = PaymentsGet" | "e = PaymentsAuthorize" | "e = PaymentsCapture" | "e = PaymentsRefund"
    using assms(1) by (auto simp: payment_endpoints_def)
  then show ?thesis
  proof cases
    case 1
    then show ?thesis using foreign(1)
      by (intro exI [of _ "\<lambda>m. get env srv cl m i"]) (simp add: serve_def)
  next
    case 2
    then show ?thesis using foreign(2)
      by (intro exI [of _ "\<lambda>m. authorize env srv cl m i"]) (simp add: serve_def authorize_def)
  next
    case 3
    then show ?thesis using foreign(2)
      by (intro exI [of _ "\<lambda>m. capture env srv cl m i"]) (simp add: serve_def capture_def)
  next
    case 4
    then show ?thesis using foreign(2)
      by (intro exI [of _ "\<lambda>m. refund env srv cl m i"]) (simp add: serve_def refund_def)
  qed
qed

theorem merchant_isolation:
  assumes "route r = Some (e, i)" "e \<in> payment_endpoints"
    and "Authenticate (srv_authenticator srv) (cl_keys cl) (rq_Header r ''x-api-key'') = (m, True)" "m \<noteq> []"
    and "svc_Store (srv_payments srv) = memoryStore D"
    and "\<And>p. payments (w_store (hs_world st)) i = Some p \<Longrightarrow> p_MerchantID p \<noteq> m"
    and "Routes env srv cl r st = (resp, st')"
  shows "untouched st st' \<and> (\<forall>l. Allow (cl_now cl) m (hs_limiter st) = (Inr True, l) \<longrightarrow>
     refused 404 ''payment not found'' resp \<and> hs_limiter st' = l)"
proof -
  obtain b l where allow: "Allow (cl_now cl) m (hs_limiter st) = (b, l)" by fastforce
  define st1 where "st1 = (traced env r st)\<lparr>hs_limiter := l\<rparr>"
  obtain h where h: "serve env srv cl e i r (traced env r st) = requireMerchant srv cl h r (traced env r st)"
    "h m r st1 = (error_response 404 ''payment not found'', st1)"
    using foreign_handler [OF assms(2,4,5), of "traced env r st" i env cl r] assms(6)
    by (auto simp: st1_def)
  have "\<exists>x. serve env srv cl e i r (traced env r st) = (x, st1) \<and>
      (b = Inr True \<longrightarrow> x = error_response 404 ''payment not found'')"
    using assms(3,4) allow h(2)
    by (cases b) (auto simp: h(1) requireMerchant_def st1_def)
  then obtain x where x: "serve env srv cl e i r (traced env r st) = (x, st1)"
    "b = Inr True \<Longrightarrow> x = error_response 404 ''payment not found''" by blast
  from Routes_result [OF assms(1) x(1) assms(7)] x(2) allow show ?thesis by (auto simp: st1_def)
qed

theorem merchant_isolation_witness:
  "refused 404 ''payment not found''
     (fst (Routes demo_env demo_server demo_call
       (demo_request ''GET'' [''v1'', ''payments'', demo_id] ''x-api-key'' ''k2'' []) demo_http))"
proof -
  obtain l where "Allow (cl_now demo_call) ''n'' (hs_limiter demo_http) = (Inr True, l)"
    using demo_allowed by (metis demo_call_simps(2) prod.collapse)
  moreover have "p_MerchantID p \<noteq> ''n''" if "payments (w_store (hs_world demo_http)) demo_id = Some p" for p
    using that by (auto simp: demo_w3_eq)
  ultimately show ?thesis
    using merchant_isolation [OF demo_routes(1) _ _ _ _ _ surjective_pairing, where srv = demo_server
        and cl = demo_call and m = "''n''" and D = ce_pkg and st = demo_http and env = demo_env]
      demo_authenticates
    by (simp add: payment_endpoints_def)
qed

end
