(* ===== verification/Http_Webhooks.thy ===== *)
theory Http_Webhooks
  imports Demo_Http Service_Effects
begin

text \<open>
  Provider webhooks over the memory store: an event identifier takes effect at most once, for good
  and for bad. The two handlers share one registry of identifiers.
\<close>

section \<open>The branches of the handlers\<close>

definition register :: "string \<Rightarrow> ('d MemoryStore, 'd) World \<Rightarrow> ('d MemoryStore, 'd) World" where
  "register i w = w\<lparr>w_store := (w_store w)\<lparr>webhooks := insert i (webhooks (w_store w))\<rparr>\<rparr>"

text \<open>The service call an accepted payment event leads to.\<close>

definition payment_event ::
  "'d Env \<Rightarrow> ('c, 's, 'd) Server \<Rightarrow> ('c, 'd) Call \<Rightarrow> providerWebhook \<Rightarrow> 'd \<Rightarrow> (('s, 'd) World, 'd Payment) op" where
  "payment_event env srv cl ev a =
     (if pw_Type ev = ''payment.captured''
      then PaymentService_Capture env (srv_payments srv) (\<lambda>k. cl_ctx cl (Suc k)) (pw_PaymentID ev) a
      else PaymentService_Refund env (srv_payments srv) (\<lambda>k. cl_ctx cl (Suc k)) (pw_PaymentID ev) a)"

definition duplicate_response :: Response where
  "duplicate_response = write_response Map.empty 200 (message ''status'' ''duplicate_ignored'')"

text \<open>A payment event the handler acts on, unless its identifier is registered.\<close>

definition valid_event :: "'d Env \<Rightarrow> ('c, 's, 'd) Server \<Rightarrow> Request \<Rightarrow> providerWebhook \<Rightarrow> 'd \<Rightarrow> bool" where
  "valid_event env srv r ev a \<longleftrightarrow>
     length (rq_Body r) \<le> 2 ^ 20 \<and>
     verifySignature (srv_webhookSecret srv) (rq_Body r) (rq_Header r ''x-provider-signature'') \<and>
     decode_providerWebhook (rq_Body r) = Some ev \<and> pw_ID ev \<noteq> [] \<and> pw_PaymentID ev \<noteq> [] \<and>
     decNewFromString (env_D env) (pw_Amount ev) = Inr a \<and>
     decGreaterThan (env_D env) a (decZero (env_D env)) \<and>
     (pw_Type ev = ''payment.captured'' \<or> pw_Type ev = ''payment.refunded'')"

lemma on_world_register:
  "on_world (on_store (Memory_RegisterWebhook c i)) st =
     (if i \<in> webhooks (w_store (hs_world st)) then (Inr False, st)
      else (Inr True, st\<lparr>hs_world := register i (hs_world st)\<rparr>))"
  by (simp add: on_world_def on_store_def Memory_RegisterWebhook_def register_def)

lemma on_world_at: "on_world f (st\<lparr>hs_world := w\<rparr>) = (case f w of (x, w') \<Rightarrow> (x, st\<lparr>hs_world := w'\<rparr>))"
  by (simp add: on_world_def)

lemma webhook_valid:
  assumes "svc_Store (srv_payments srv) = memoryStore D" "valid_event env srv r ev a"
  shows "webhook env srv cl r st =
    (if pw_ID ev \<in> webhooks (w_store (hs_world st)) then (Some duplicate_response, st)
     else case payment_event env srv cl ev a (register (pw_ID ev) (hs_world st)) of
       (Inl e, w) \<Rightarrow> (answer_error 422 Error e, st\<lparr>hs_world := w\<rparr>)
     | (Inr p, w) \<Rightarrow> (Some (write_response Map.empty 200 (marshalPayment (env_D env) p)), st\<lparr>hs_world := w\<rparr>))"
proof -
  note valid = assms(2) [unfolded valid_event_def]
  have types: "\<not> (pw_Type ev \<noteq> ''payment.captured'' \<and> pw_Type ev \<noteq> ''payment.refunded'')"
    using valid by blast
  have "webhook env srv cl r st =
    (case on_world (on_store (Memory_RegisterWebhook (cl_ctx cl 0) (pw_ID ev))) st of
        (Inl e, st') \<Rightarrow> (answer_error 500 (\<lambda>_. ''webhook persistence failed'') e, st')
      | (Inr accepted, st') \<Rightarrow>
     (if \<not> accepted then (Some duplicate_response, st')
      else case on_world (payment_event env srv cl ev a) st' of
        (Inl e, st'') \<Rightarrow> (answer_error 422 Error e, st'')
      | (Inr payment, st'') \<Rightarrow>
          (Some (write_response Map.empty 200 (marshalPayment (env_D env) payment)), st'')))"
    unfolding webhook_def Let_def read_limited_def payment_event_def duplicate_response_def
    using valid assms(1) by (simp add: types cong: if_cong)
  note eq = this
  define s1 where "s1 = register (pw_ID ev) (hs_world st)"
  show ?thesis
    unfolding eq
    by (cases "payment_event env srv cl ev a s1"; cases "fst (payment_event env srv cl ev a s1)")
      (simp_all add: on_world_register on_world_at s1_def [symmetric])
qed

lemma webhook_invalid:
  assumes "\<nexists>ev a. valid_event env srv r ev a"
  shows "\<exists>x. webhook env srv cl r st = (x, st)"
proof (cases "decode_providerWebhook (rq_Body r)")
  case None
  then show ?thesis by (simp add: webhook_def Let_def read_limited_def)
next
  case ev: (Some ev)
  show ?thesis
  proof (cases "decNewFromString (env_D env) (pw_Amount ev)")
    case (Inl e)
    with ev show ?thesis by (simp add: webhook_def Let_def read_limited_def)
  next
    case (Inr a)
    with ev assms have "\<not> valid_event env srv r ev a" by blast
    then consider "length (rq_Body r) > 2 ^ 20"
      | "\<not> verifySignature (srv_webhookSecret srv) (rq_Body r) (rq_Header r ''x-provider-signature'')"
      | "pw_ID ev = [] \<or> pw_PaymentID ev = []" | "\<not> decGreaterThan (env_D env) a (decZero (env_D env))"
      | "pw_Type ev \<noteq> ''payment.captured'' \<and> pw_Type ev \<noteq> ''payment.refunded''"
      using ev Inr unfolding valid_event_def by fastforce
    then show ?thesis
      by cases (use ev Inr in \<open>simp_all add: webhook_def Let_def read_limited_def\<close>)
  qed
qed

text \<open>The same for payout events.\<close>

definition valid_payout_event :: "('c, 's, 'd) Server \<Rightarrow> Request \<Rightarrow> payoutWebhookEvent \<Rightarrow> bool" where
  "valid_payout_event srv r ev \<longleftrightarrow>
     length (rq_Body r) \<le> 2 ^ 20 \<and>
     verifySignature (srv_webhookSecret srv) (rq_Body r) (rq_Header r ''x-provider-signature'') \<and>
     decode_payoutWebhook (rq_Body r) = Some ev \<and> pe_ID ev \<noteq> [] \<and> pe_PayoutID ev \<noteq> [] \<and>
     (pe_Type ev = ''payout.paid'' \<or> pe_Type ev = ''payout.failed'')"

definition payout_event ::
  "'d Env \<Rightarrow> ('c, 's, 'd) Server \<Rightarrow> ('c, 'd) Call \<Rightarrow> payoutWebhookEvent \<Rightarrow> (('s, 'd) World, 'd Payout) op" where
  "payout_event env srv cl ev =
     PayoutService_Complete env (svc_Store (srv_payments srv)) (\<lambda>k. cl_ctx cl (Suc k)) (pe_PayoutID ev)
       (pe_ProviderReference ev) (pe_Type ev = ''payout.paid'')"

lemma payoutWebhook_valid:
  assumes "svc_Store (srv_payments srv) = memoryStore D" "valid_payout_event srv r ev"
  shows "payoutWebhook env srv cl r st =
    (if pe_ID ev \<in> webhooks (w_store (hs_world st)) then (Some duplicate_response, st)
     else case payout_event env srv cl ev (register (pe_ID ev) (hs_world st)) of
       (Inl e, w) \<Rightarrow> (answer_error 422 Error e, st\<lparr>hs_world := w\<rparr>)
     | (Inr p, w) \<Rightarrow> (Some (write_response Map.empty 200 (marshalPayout (env_D env) p)),
         count_metric (''payouts_'' @ PayoutStatus_string (po_Status p)) (st\<lparr>hs_world := w\<rparr>)))"
proof -
  note valid = assms(2) [unfolded valid_payout_event_def]
  have types: "\<not> (pe_Type ev \<noteq> ''payout.paid'' \<and> pe_Type ev \<noteq> ''payout.failed'')"
    using valid by blast
  have eq: "payoutWebhook env srv cl r st =
    (case on_world (on_store (Memory_RegisterWebhook (cl_ctx cl 0) (pe_ID ev))) st of
        (Inl e, st') \<Rightarrow> (answer_error 500 (\<lambda>_. ''webhook persistence failed'') e, st')
      | (Inr accepted, st') \<Rightarrow>
     (if \<not> accepted then (Some duplicate_response, st')
      else case on_world (payout_event env srv cl ev) st' of
        (Inl e, st'') \<Rightarrow> (answer_error 422 Error e, st'')
      | (Inr p, st'') \<Rightarrow>
          (Some (write_response Map.empty 200 (marshalPayout (env_D env) p)),
           count_metric (''payouts_'' @ PayoutStatus_string (po_Status p)) st'')))"
    unfolding payoutWebhook_def Let_def read_limited_def payout_event_def duplicate_response_def
    using valid assms(1) by (simp add: types cong: if_cong)
  define s1 where "s1 = register (pe_ID ev) (hs_world st)"
  show ?thesis
    unfolding eq
    by (cases "payout_event env srv cl ev s1"; cases "fst (payout_event env srv cl ev s1)")
      (simp_all add: on_world_register on_world_at s1_def [symmetric])
qed

lemma payoutWebhook_invalid:
  assumes "\<nexists>ev. valid_payout_event srv r ev"
  shows "\<exists>x. payoutWebhook env srv cl r st = (x, st)"
proof (cases "decode_payoutWebhook (rq_Body r)")
  case None
  then show ?thesis by (simp add: payoutWebhook_def Let_def read_limited_def)
next
  case ev: (Some ev)
  with assms have "\<not> valid_payout_event srv r ev" by blast
  then consider "length (rq_Body r) > 2 ^ 20"
    | "\<not> verifySignature (srv_webhookSecret srv) (rq_Body r) (rq_Header r ''x-provider-signature'')"
    | "pe_ID ev = [] \<or> pe_PayoutID ev = []"
    | "pe_Type ev \<noteq> ''payout.paid'' \<and> pe_Type ev \<noteq> ''payout.failed''"
    using ev unfolding valid_payout_event_def by fastforce
  then show ?thesis
    by cases (use ev in \<open>simp_all add: payoutWebhook_def Let_def read_limited_def\<close>)
qed

section \<open>The registry\<close>

text \<open>The event identifier a request carries.\<close>

definition event_id :: "Request \<Rightarrow> string option" where
  "event_id r =
     (case route r of
        Some (ProviderWebhooks, _) \<Rightarrow> map_option pw_ID (decode_providerWebhook (rq_Body r))
      | Some (PayoutWebhooks, _) \<Rightarrow> map_option pe_ID (decode_payoutWebhook (rq_Body r))
      | _ \<Rightarrow> None)"

lemma event_id_cases:
  assumes "event_id r = Some i"
  obtains (payment) j ev where "route r = Some (ProviderWebhooks, j)"
      "decode_providerWebhook (rq_Body r) = Some ev" "pw_ID ev = i"
  | (payout) j ev where "route r = Some (PayoutWebhooks, j)"
      "decode_payoutWebhook (rq_Body r) = Some ev" "pe_ID ev = i"
  using assms by (auto simp: event_id_def split: option.splits prod.splits Endpoint.splits)

lemma commit_webhooks:
  assumes "svc_Store svc = memoryStore D"
  shows "webhooks (w_store (snd (PaymentService_commit env svc c p st a reference es ty w))) = webhooks (w_store w)"
  using assms
  by (auto simp: PaymentService_commit_def snd_on_store Memory_CommitPaymentCommand_def Let_def
      split: sum.splits option.splits)

lemma event_webhooks:
  assumes "svc_Store (srv_payments srv) = memoryStore D"
  shows "webhooks (w_store (snd (payment_event env srv cl ev a w))) = webhooks (w_store w)"
    and "webhooks (w_store (snd (payout_event env srv cl ev' w))) = webhooks (w_store w)"
  using assms
  by (auto simp: payment_event_def PaymentService_Capture_def Capture_read_def PaymentService_Refund_def
      Refund_read_def Let_def commit_webhooks payout_event_def PayoutService_Complete_def Complete_read_def
      snd_on_store Memory_TransitionPayout_def split: sum.splits option.splits if_splits)

text \<open>A registered identifier stops the handler; a handler that does anything registers it.\<close>

lemma registered_stops:
  assumes "svc_Store (srv_payments srv) = memoryStore D" "event_id r = Some i"
    and "i \<in> webhooks (w_store (hs_world st))" "Routes env srv cl r st = (resp, st')"
  shows "st' = traced env r st"
  using assms(2)
proof (cases rule: event_id_cases)
  case (payment j ev)
  have "\<exists>x. webhook env srv cl r (traced env r st) = (x, traced env r st)"
  proof (cases "\<exists>ev a. valid_event env srv r ev a")
    case True
    then obtain ev' a where v: "valid_event env srv r ev' a" by blast
    with payment have "ev' = ev" by (simp add: valid_event_def)
    with webhook_valid [OF assms(1) v, of cl "traced env r st"] payment assms(3) show ?thesis by simp
  qed (rule webhook_invalid)
  with payment assms(4) show ?thesis by (auto simp: Routes_eq serve_def)
next
  case (payout j ev)
  have "\<exists>x. payoutWebhook env srv cl r (traced env r st) = (x, traced env r st)"
  proof (cases "\<exists>ev. valid_payout_event srv r ev")
    case True
    then obtain ev' where v: "valid_payout_event srv r ev'" by blast
    with payout have "ev' = ev" by (simp add: valid_payout_event_def)
    with payoutWebhook_valid [OF assms(1) v, of env cl "traced env r st"] payout assms(3) show ?thesis by simp
  qed (rule payoutWebhook_invalid)
  with payout assms(4) show ?thesis by (auto simp: Routes_eq serve_def)
qed

lemma valid_registers:
  assumes "svc_Store (srv_payments srv) = memoryStore D"
  shows "valid_event env srv r ev a \<Longrightarrow> webhook env srv cl r st = (x, st') \<Longrightarrow>
      pw_ID ev \<in> webhooks (w_store (hs_world st'))"
    and "valid_payout_event srv r ev' \<Longrightarrow> payoutWebhook env srv cl r st = (x, st') \<Longrightarrow>
      pe_ID ev' \<in> webhooks (w_store (hs_world st'))"
proof -
  have reg: "pw_ID ev \<in> webhooks (w_store (register (pw_ID ev) w))"
    "pe_ID ev' \<in> webhooks (w_store (register (pe_ID ev') w))" for w :: "('a MemoryStore, 'a) World"
    by (simp_all add: register_def)
  show "pw_ID ev \<in> webhooks (w_store (hs_world st'))"
    if "valid_event env srv r ev a" "webhook env srv cl r st = (x, st')"
    using that(2) webhook_valid [OF assms that(1), of cl st] reg(1)
      event_webhooks(1) [OF assms, of env cl ev a "register (pw_ID ev) (hs_world st)"]
    by (auto split: if_splits prod.splits sum.splits)
  show "pe_ID ev' \<in> webhooks (w_store (hs_world st'))"
    if "valid_payout_event srv r ev'" "payoutWebhook env srv cl r st = (x, st')"
    using that(2) payoutWebhook_valid [OF assms that(1), of env cl st] reg(2)
      event_webhooks(2) [OF assms, of env cl ev' "register (pe_ID ev') (hs_world st)"]
    by (auto split: if_splits prod.splits sum.splits)
qed

lemma effect_registers:
  assumes "svc_Store (srv_payments srv) = memoryStore D" "event_id r = Some i"
    and "Routes env srv cl r st = (resp, st')" "st' \<noteq> traced env r st"
  shows "i \<in> webhooks (w_store (hs_world st'))"
  using assms(2)
proof (cases rule: event_id_cases)
  case (payment j ev)
  then obtain x where x: "webhook env srv cl r (traced env r st) = (x, st')"
    using assms(3) by (cases "webhook env srv cl r (traced env r st)") (simp add: Routes_eq serve_def)
  with assms(4) webhook_invalid [of env srv r cl "traced env r st"] obtain ev' a
    where v: "valid_event env srv r ev' a" by fastforce
  with payment have "ev' = ev" by (simp add: valid_event_def)
  with valid_registers(1) [OF assms(1) v x] payment show ?thesis by simp
next
  case (payout j ev)
  then obtain x where x: "payoutWebhook env srv cl r (traced env r st) = (x, st')"
    using assms(3) by (cases "payoutWebhook env srv cl r (traced env r st)") (simp add: Routes_eq serve_def)
  with assms(4) payoutWebhook_invalid [of srv r env cl "traced env r st"] obtain ev'
    where v: "valid_payout_event srv r ev'" by fastforce
  with payout have "ev' = ev" by (simp add: valid_payout_event_def)
  with valid_registers(2) [OF assms(1) v x] payout show ?thesis by simp
qed

lemma demo_valid:
  "valid_event demo_env demo_server (demo_hook demo_id)
     \<lparr>pw_ID = ''e1'', pw_Type = ''payment.captured'', pw_PaymentID = demo_id, pw_Amount = ''5.00''\<rparr> (Dec 500 (-2))"
  "valid_event demo_env demo_server (demo_hook ''lost'')
     \<lparr>pw_ID = ''e1'', pw_Type = ''payment.captured'', pw_PaymentID = ''lost'', pw_Amount = ''5.00''\<rparr> (Dec 500 (-2))"
  using demo_hook_short
  by (simp_all add: valid_event_def demo_hook_def demo_hook_decodes demo_amount verifySignature_eq
      hexDecode_hexEncode ce_pkg_def ce_shift_def)

section \<open>Properties\<close>

text \<open>
  C13: A provider event takes effect at most once. When a webhook request has changed the store, a
  counter or called the provider, then whatever the platform does afterwards, every later request that
  carries the same event identifier, to either webhook endpoint and with any body, leaves the store,
  the counters and the provider alone.
\<close>

theorem webhook_once:
  assumes "ledger_env D val env" "svc_Store (srv_payments srv) = memoryStore D"
    and "platform_reachable env (memoryStore D) (\<lambda>_. True) NewMemory (hs_world st, ts)"
    and "event_id r = Some i" "Routes env srv cl r st = (resp, st1)" "st1 \<noteq> traced env r st"
    and "(platform_step env (memoryStore D) (\<lambda>_. True))\<^sup>*\<^sup>* (hs_world st1, ts) (hs_world st2, ts2)"
    and "event_id r' = Some i" "Routes env srv cl' r' st2 = (resp', st3)"
  shows "w_store (hs_world st3) = w_store (hs_world st2) \<and> w_calls (hs_world st3) = w_calls (hs_world st2) \<and>
     hs_metrics st3 = hs_metrics st2"
proof -
  have "platform_reachable env (memoryStore D) (\<lambda>_. True) NewMemory (hs_world st1, ts)"
    using runs.request_keeps [OF assms(2), where st = st and env = env and cl = cl and r = r] assms(3,5) by simp
  then have "store_le (w_store (hs_world st1)) (w_store (hs_world st2))"
    using ledger_env.forward_le [OF assms(1,7)] by simp
  then have "i \<in> webhooks (w_store (hs_world st2))"
    using effect_registers [OF assms(2,4,5,6)] by (auto simp: store_le_def)
  from registered_stops [OF assms(2,8) this assms(9)] show ?thesis by simp
qed

theorem webhook_once_witness:
  "w_store (hs_world (snd (Routes demo_env demo_server demo_call (demo_hook demo_id)
       (snd (Routes demo_env demo_server demo_call (demo_hook demo_id) demo_http))))) =
     w_store (hs_world (snd (Routes demo_env demo_server demo_call (demo_hook demo_id) demo_http)))"
proof -
  define st1 where "st1 = snd (Routes demo_env demo_server demo_call (demo_hook demo_id) demo_http)"
  have ident: "event_id (demo_hook demo_id) = Some ''e1''"
    by (simp add: event_id_def demo_hook_def demo_routes demo_hook_decodes)
  have "''e1'' \<in> webhooks (w_store (hs_world st1))"
    using valid_registers(1) [of demo_server ce_pkg demo_env "demo_hook demo_id" _ _ demo_call
        "traced demo_env (demo_hook demo_id) demo_http", OF _ demo_valid(1) surjective_pairing]
    by (simp add: st1_def Routes_eq demo_hook_def demo_routes serve_def)
  moreover have "webhooks (w_store demo_w3) = {}" by (simp add: demo_w3_eq)
  ultimately have "st1 \<noteq> traced demo_env (demo_hook demo_id) demo_http" by auto
  from webhook_once [OF demo.ledger_env_axioms _ _ ident surjective_pairing this [unfolded st1_def]
      rtranclp.rtrancl_refl ident surjective_pairing, where ts = "{#}"]
  show ?thesis using demo_reachable(3) by simp
qed

text \<open>
  An event that fails is lost: when a correctly signed payment event is answered with 422 because
  the capture or refund failed, the store has kept nothing of it but its identifier, and the
  provider's next delivery of the same event is answered 200 \<open>duplicate_ignored\<close> and does nothing.
\<close>

theorem webhook_lost:
  assumes "svc_Store (srv_payments srv) = memoryStore D" "decimal_laws D val" "route r = Some (ProviderWebhooks, j)"
    and "valid_event env srv r ev a"
    and "Routes env srv cl r st = (Some x, st1)" "rs_Status x = 422"
    and "Routes env srv cl' r st1 = (resp, st2)"
  shows "w_store (hs_world st1) = w_store (register (pw_ID ev) (hs_world st)) \<and>
     (\<exists>y. resp = Some y \<and> rs_Status y = 200 \<and> rs_Body y = rs_Body duplicate_response) \<and>
     w_store (hs_world st2) = w_store (hs_world st1) \<and> w_calls (hs_world st2) = w_calls (hs_world st1)"
proof -
  let ?st = "traced env r st"
  obtain b w where call: "payment_event env srv cl ev a (register (pw_ID ev) (hs_world ?st)) = (b, w)"
    by fastforce
  obtain y where first: "webhook env srv cl r ?st = (Some y, st1)" "rs_Status y = 422"
    using assms(5,6)
    by (cases "webhook env srv cl r (traced env r st)") (auto simp: Routes_eq assms(3) serve_def)
  note first = first(1) [unfolded webhook_valid [OF assms(1,4), of cl ?st]] first(2)
  have fresh: "pw_ID ev \<notin> webhooks (w_store (hs_world st))"
    using first by (auto simp: duplicate_response_def write_response_def)
  then obtain e where e: "b = Inl e" "hs_world st1 = w"
    using first call by (cases b) (auto simp: write_response_def)
  have "w_store w = w_store (register (pw_ID ev) (hs_world ?st))"
    using call e decimal_laws.capture_error [OF assms(2,1)] decimal_laws.refund_error [OF assms(2,1)]
    by (auto simp: payment_event_def split: if_splits)
  then have kept: "w_store (hs_world st1) = w_store (register (pw_ID ev) (hs_world st))"
    using e by (simp add: register_def)
  then have again: "pw_ID ev \<in> webhooks (w_store (hs_world (traced env r st1)))"
    by (simp add: register_def)
  have "Routes env srv cl' r st1 =
      (Some (duplicate_response\<lparr>rs_Header := trace_header env r st1 ++ rs_Header duplicate_response\<rparr>),
       traced env r st1)"
    using webhook_valid [OF assms(1,4), of cl' "traced env r st1"] again
    by (simp add: Routes_eq assms(3) serve_def)
  with assms(7) kept show ?thesis
    by (auto simp: duplicate_response_def write_response_def)
qed

theorem webhook_lost_witness:
  "\<exists>y. fst (Routes demo_env demo_server demo_call (demo_hook ''lost'')
     (snd (Routes demo_env demo_server demo_call (demo_hook ''lost'') demo_http))) = Some y \<and> rs_Status y = 200"
proof -
  have no: "payments (w_store demo_w3) ''lost'' = None" "webhooks (w_store demo_w3) = {}"
    by (simp_all add: demo_w3_eq)
  have route: "route (demo_hook ''lost'') = Some (ProviderWebhooks, [])" by (simp add: demo_hook_def demo_routes)
  have "\<exists>x. fst (Routes demo_env demo_server demo_call (demo_hook ''lost'') demo_http) = Some x \<and> rs_Status x = 422"
    using no
    by (simp add: Routes_eq route serve_def webhook_valid [OF _ demo_valid(2)] payment_event_def
        PaymentService_Capture_def Memory_GetPayment_def register_def answer_error_def error_response_def
        write_response_def)
  then obtain x where x: "fst (Routes demo_env demo_server demo_call (demo_hook ''lost'') demo_http) = Some x"
    "rs_Status x = 422" by blast
  have "Routes demo_env demo_server demo_call (demo_hook ''lost'') demo_http =
      (Some x, snd (Routes demo_env demo_server demo_call (demo_hook ''lost'') demo_http))"
    using x(1) by (metis prod.collapse)
  from webhook_lost [OF _ ce.decimal_laws_axioms route demo_valid(2) this x(2) surjective_pairing]
  show ?thesis by auto
qed

end
