(* ===== verification/Http_Ledger.thy ===== *)
theory Http_Ledger
  imports Demo_Http Ledger_Totals
begin

text \<open>
  The HTTP layer and the ledger together: every request, whatever bytes it carries, is a run of the
  platform, so what holds in every reachable state holds under HTTP. Every response can be traced,
  and the JSON texts the program writes can be read back.
\<close>

section \<open>States under HTTP\<close>

text \<open>
  Requests to one server, in any order and with any content; between them the steps of other
  processes and of requests that are still in flight.
\<close>

inductive http_reachable ::
  "'d Env \<Rightarrow> ('c, 's, 'd) Server \<Rightarrow> 's \<Rightarrow> ('r, 's, 'd) HttpState \<times> 'd Task multiset \<Rightarrow> bool"
  for env srv s0 where
  http_start: "hs_world st = \<lparr>w_store = s0, w_next = 0, w_calls = [], w_metrics = NewCounterMetrics\<rparr> \<Longrightarrow>
    http_reachable env srv s0 (st, {#})"
| http_request: "http_reachable env srv s0 (st, ts) \<Longrightarrow> Routes env srv cl r st = (resp, st') \<Longrightarrow>
    http_reachable env srv s0 (st', ts)"
| http_other: "http_reachable env srv s0 (st, ts) \<Longrightarrow>
    platform_step env (svc_Store (srv_payments srv)) (\<lambda>_. True) (hs_world st, ts) (w', ts') \<Longrightarrow>
    http_reachable env srv s0 (st\<lparr>hs_world := w'\<rparr>, ts')"

inductive_cases http_reachableE: "http_reachable env srv s0 (st, ts)"

lemma http_reachable_platform:
  assumes "http_reachable env srv s0 x"
  shows "platform_reachable env (svc_Store (srv_payments srv)) (\<lambda>_. True) s0 (hs_world (fst x), snd x)"
  using assms
proof (induction rule: http_reachable.induct)
  case (http_start st)
  then show ?case by (simp add: platform_start)
next
  case (http_request st ts cl r resp st')
  then show ?case
    using runs.request_keeps [OF refl, where srv = srv and st = st and env = env and cl = cl and r = r] by simp
next
  case (http_other st ts w' ts')
  then show ?case by (auto intro: platform_next)
qed

text \<open>
  C12: Over the memory store, in every state that HTTP requests can lead to, with any bytes in their
  headers and bodies, mixed with the steps of the worker and of requests in flight: the books
  balance in every currency, and the available balance of every merchant is what its payments,
  payouts and disputes say.
\<close>

theorem http_ledger:
  assumes "ledger_env D val env" "svc_Store (srv_payments srv) = memoryStore D"
    and "http_reachable env srv NewMemory (st, ts)"
  shows "currency_balance val cur (ledger (w_store (hs_world st))) = 0 \<and>
     (\<exists>b. Memory_AvailableBalance D c m cur (w_store (hs_world st)) = Inr b \<and>
       val b = settled_total val m cur (w_store (hs_world st))
         - payout_total val {PayoutPending, PayoutPaid} m cur (w_store (hs_world st))
         - dispute_total val {DisputeOpen, DisputeLost} m cur (w_store (hs_world st)))"
proof -
  have reach: "platform_reachable env (memoryStore D) (\<lambda>_. True) NewMemory (hs_world st, ts)"
    using http_reachable_platform [OF assms(3)] assms(2) by simp
  have "decimal_laws D val" using assms(1) by (rule ledger_env.axioms)
  then show ?thesis
    using ledger_env.reach_available [OF assms(1) reach, of m cur] ledger_env.reach_entries(2) [OF assms(1) reach]
    by (simp add: Memory_AvailableBalance_def decimal_laws.val_balance_of_loop decimal_laws.val_Zero)
qed

text \<open>A request that creates the payment of the run, on an empty server.\<close>

definition demo_empty :: "(unit, coef_exp MemoryStore, coef_exp) HttpState" where
  "demo_empty = demo_http\<lparr>hs_world := demo_w0\<rparr>"

theorem http_ledger_witness:
  "currency_balance ce_val ''USD'' (ledger (w_store (hs_world (snd (Routes demo_env demo_server demo_call
     (demo_request ''POST'' [''v1'', ''payouts''] ''x-api-key'' ''k1'' ''{\"amount\":\"5\"}'') demo_empty))))) = 0"
proof -
  have "http_reachable demo_env demo_server NewMemory (demo_empty, {#})"
    by (rule http_start) (simp add: demo_empty_def demo_w0_def)
  from http_ledger [OF demo.ledger_env_axioms _ http_request [OF this surjective_pairing]]
  show ?thesis by simp
qed

section \<open>Every response carries the request identifier\<close>

definition quiet :: "Response option \<Rightarrow> bool" where
  "quiet resp \<longleftrightarrow> (\<forall>y. resp = Some y \<longrightarrow> rs_Header y ''x-request-id'' = None \<and> rs_Header y ''traceparent'' = None)"

lemma quiet_simps [simp]:
  "quiet None" "quiet (error_response s m)" "quiet (answer_error s f e)"
  "quiet (Some (write_response Map.empty s b))"
  "quiet (Some (write_response [''x-idempotent-replay'' \<mapsto> v] s b))"
  by (auto simp: quiet_def error_response_def answer_error_def write_response_def split: error.splits)

lemma quiet_unmatched: "quiet (Some (unmatched r))"
  by (simp add: quiet_def unmatched_def Let_def)

lemma quiet_owns: "ownsPayment srv cl m i st = Some x \<Longrightarrow> quiet x"
  by (auto simp: ownsPayment_def split: if_splits sum.splits)

lemma quiet_admin: "requireAdmin srv r = Some x \<Longrightarrow> quiet (Some x)"
  by (auto simp: requireAdmin_def quiet_def error_response_def write_response_def split: if_splits)

lemma quiet_payments:
  "quiet (fst (create env srv cl m r st))" "quiet (fst (get env srv cl m i r st))"
  "quiet (fst (authorize env srv cl m i r st))" "quiet (fst (capture env srv cl m i r st))"
  "quiet (fst (refund env srv cl m i r st))" "quiet (fst (createPayout env srv cl m r st))"
  by (auto simp: create_def get_def authorize_def capture_def refund_def createPayout_def
      split: option.splits sum.splits prod.splits dest: quiet_owns)

lemma quiet_admin_handlers:
  "quiet (fst (reconcile env srv cl r st))" "quiet (fst (openDispute env srv cl r st))"
  "quiet (fst (resolveDispute env srv cl i r st))"
  by (auto simp: reconcile_def openDispute_def resolveDispute_def
      split: option.splits sum.splits prod.splits dest: quiet_admin)

lemma quiet_webhooks: "quiet (fst (webhook env srv cl r st))" "quiet (fst (payoutWebhook env srv cl r st))"
  by (auto simp: webhook_def payoutWebhook_def Let_def split: option.splits sum.splits prod.splits)

lemma quiet_requireMerchant:
  "(\<And>m st. quiet (fst (h m r st))) \<Longrightarrow> quiet (fst (requireMerchant srv cl h r st))"
  by (auto simp: requireMerchant_def split: prod.splits sum.splits)

lemma quiet_serve: "quiet (fst (serve env srv cl e i r st))"
  by (cases e) (simp_all add: serve_def quiet_payments quiet_admin_handlers quiet_webhooks
      quiet_requireMerchant, simp add: quiet_def)

text \<open>
  Every response, of every endpoint and of requests that match none, carries the request
  identifier: the one of the request, or the next UUID drawn for it; and it repeats the
  \<open>traceparent\<close> header when there is one.
\<close>

theorem response_traced:
  assumes "Routes env srv cl r st = (Some x, st')"
  shows "rs_Header x ''x-request-id'' =
       Some (if rq_Header r ''x-request-id'' = [] then env_uuid env (w_next (hs_world st))
             else rq_Header r ''x-request-id'') \<and>
     rs_Header x ''traceparent'' =
       (if rq_Header r ''traceparent'' = [] then None else Some (rq_Header r ''traceparent''))"
proof -
  have "\<exists>y. quiet (Some y) \<and> x = y\<lparr>rs_Header := trace_header env r st ++ rs_Header y\<rparr>"
  proof (cases "route r")
    case None
    with assms show ?thesis using quiet_unmatched by (auto simp: Routes_eq)
  next
    case (Some a)
    obtain e i where a: "a = (e, i)" by (cases a)
    then show ?thesis
      using assms Some quiet_serve [of env srv cl e i r "traced env r st"]
      by (cases "serve env srv cl e i r (traced env r st)") (auto simp: Routes_eq)
  qed
  then show ?thesis
    by (auto simp: quiet_def trace_header_def request_id_def map_add_def)
qed

theorem response_traced_witness:
  "\<exists>x. fst (Routes demo_env demo_server demo_call (demo_request ''PUT'' [''nowhere''] [] [] []) demo_http) = Some x \<and>
     rs_Header x ''x-request-id'' = Some (env_uuid demo_env (w_next demo_w3))"
proof -
  have "\<exists>x. Routes demo_env demo_server demo_call (demo_request ''PUT'' [''nowhere''] [] [] []) demo_http =
      (Some x, traced demo_env (demo_request ''PUT'' [''nowhere''] [] [] []) demo_http)"
    by (simp add: Routes_eq route_def patterns_def method_matches_def demo_request_def)
  then obtain x where x: "Routes demo_env demo_server demo_call (demo_request ''PUT'' [''nowhere''] [] [] []) demo_http =
      (Some x, traced demo_env (demo_request ''PUT'' [''nowhere''] [] [] []) demo_http)" by blast
  from response_traced [OF x] x show ?thesis by (simp add: demo_request_def)
qed

section \<open>The payload of an event can be read back\<close>

lemma tag_names:
  "foldName ''id'' = ''ID''" "foldName ''merchant_id'' = ''MERCHANT_ID''"
  "foldName ''customer_id'' = ''CUSTOMER_ID''" "foldName ''currency'' = ''CURRENCY''"
  "foldName ''amount'' = ''AMOUNT''" "foldName ''captured_amount'' = ''CAPTURED_AMOUNT''"
  "foldName ''refunded_amount'' = ''REFUNDED_AMOUNT''" "foldName ''status'' = ''STATUS''"
  "foldName ''provider_reference'' = ''PROVIDER_REFERENCE''"
  by code_simp+

lemma tag_ascii:
  "utf8_repair ''id'' = ''id''" "utf8_repair ''merchant_id'' = ''merchant_id''"
  "utf8_repair ''customer_id'' = ''customer_id''" "utf8_repair ''currency'' = ''currency''"
  "utf8_repair ''amount'' = ''amount''" "utf8_repair ''captured_amount'' = ''captured_amount''"
  "utf8_repair ''refunded_amount'' = ''refunded_amount''" "utf8_repair ''status'' = ''status''"
  "utf8_repair ''provider_reference'' = ''provider_reference''"
  by (simp_all add: utf8_repair_ascii)

lemma status_ascii: "utf8_repair (PaymentStatus_string s) = PaymentStatus_string s"
  by (cases s) (simp_all add: utf8_repair_ascii)

text \<open>
  C36: The JSON text of a payment, which the events carry and the API returns, reads back as the
  payment: decoding it gives every field under its name, identifiers and amounts as the strings that
  were written, with bytes that are no UTF-8 replaced; an absent provider reference reads as the
  empty string. The hypotheses are that the decimal package marshals an amount as a JSON string.
\<close>

theorem payload_roundtrip:
  assumes "decMarshalJSON D (p_Amount p) = Inr (json_string a)"
    and "decMarshalJSON D (p_CapturedAmount p) = Inr (json_string c)"
    and "decMarshalJSON D (p_RefundedAmount p) = Inr (json_string f)"
  shows "\<exists>body ms. marshalPayment D p = Inr body \<and> json_only body = Some (JObj ms) \<and>
     string_field ''id'' [] ms = Some (utf8_repair (p_ID p)) \<and>
     string_field ''merchant_id'' [] ms = Some (utf8_repair (p_MerchantID p)) \<and>
     string_field ''customer_id'' [] ms = Some (utf8_repair (p_CustomerID p)) \<and>
     string_field ''currency'' [] ms = Some (utf8_repair (p_Currency p)) \<and>
     string_field ''amount'' [] ms = Some (utf8_repair a) \<and>
     string_field ''captured_amount'' [] ms = Some (utf8_repair c) \<and>
     string_field ''refunded_amount'' [] ms = Some (utf8_repair f) \<and>
     string_field ''status'' [] ms = Some (PaymentStatus_string (p_Status p)) \<and>
     string_field ''provider_reference'' [] ms = Some (utf8_repair (p_ProviderReference p))"
proof -
  define fs where "fs = [(''id'', p_ID p), (''merchant_id'', p_MerchantID p), (''customer_id'', p_CustomerID p),
    (''currency'', p_Currency p), (''amount'', a), (''captured_amount'', c), (''refunded_amount'', f),
    (''status'', PaymentStatus_string (p_Status p))] @
    (if p_ProviderReference p = [] then [] else [(''provider_reference'', p_ProviderReference p)])"
  have "marshalPayment D p = Inr (json_object (map (\<lambda>(k, x). (k, json_string x)) fs))"
    by (simp add: marshalPayment_def assms fs_def omitempty_def)
  moreover have "fs \<noteq> []" by (simp add: fs_def)
  ultimately show ?thesis
    by (intro exI [of _ "json_object (map (\<lambda>(k, x). (k, json_string x)) fs)"]
        exI [of _ "map (\<lambda>(k, x). (utf8_repair k, JStr (utf8_repair x))) fs"] conjI)
      (simp_all add: json_object_strings, simp_all add: fs_def tag_names tag_ascii status_ascii del: foldName.simps)
qed

theorem payload_roundtrip_witness:
  "\<exists>body ms. marshalPayment ce_pkg demo_captured = Inr body \<and> json_only body = Some (JObj ms) \<and>
     string_field ''captured_amount'' [] ms = Some ''30''"
proof -
  have texts: "decMarshalJSON ce_pkg (Dec 4990 (- 2)) = Inr (json_string ''49.90'')"
    "decMarshalJSON ce_pkg (Dec 30 0) = Inr (json_string ''30'')"
    "decMarshalJSON ce_pkg (Dec 0 0) = Inr (json_string ''0'')" by code_simp+
  have ascii: "utf8_repair ''30'' = ''30''" by (simp add: utf8_repair_ascii)
  show ?thesis
    using payload_roundtrip [of ce_pkg demo_captured "''49.90''" "''30''" "''0''"] texts
    by (auto simp: ascii)
qed


end
