(* ===== verification/Commands.thy ===== *)
theory Commands
  imports Http_Server
begin

text \<open>
  The start-up of the API process (src/cmd/api/main.go) and the migration command
  (src/cmd/migrate/main.go). Environment variables are the function \<open>getenv\<close>, the empty string
  for a variable that is not set.
\<close>

section \<open>The API process\<close>

datatype 'p Persistence = MemoryPersistence | PostgresPersistence 'p

record ('p, 'r) ApiProcess =
  api_port :: string
  api_persistence :: "'p Persistence"
  api_config :: "'r Config"

text \<open>
  \<open>newPool\<close> is \<open>pgxpool.New\<close>, \<open>parseURL\<close> the Redis client's constructor. The left result is the exit
  code of a process that does not start.
\<close>

definition api_main ::
  "(string \<Rightarrow> string) \<Rightarrow> (string \<Rightarrow> 'p result) \<Rightarrow> (string \<Rightarrow> ('r RedisClient \<times> 'r) result)
    \<Rightarrow> int + ('p, 'r) ApiProcess" where
  "api_main getenv newPool parseURL =
     (let port = (if getenv ''PORT'' = [] then ''8080'' else getenv ''PORT'');
          databaseURL = getenv ''DATABASE_URL'';
          redisURL = getenv ''REDIS_URL'';
          memory = MemoryLimiter (NewMemoryRateLimiter 120 60000000000);
          limiter = (if redisURL \<noteq> []
                     then case NewRedisRateLimiter parseURL redisURL 120 60000000000 of
                            Inl _ \<Rightarrow> memory | Inr l \<Rightarrow> l
                     else memory);
          config = \<lparr>cfg_WebhookSecret = getenv ''PROVIDER_WEBHOOK_SECRET'',
                    cfg_MerchantAPIKeys = getenv ''MERCHANT_API_KEYS'',
                    cfg_AdminAPIKey = getenv ''ADMIN_API_KEY'',
                    cfg_Limiter = Some limiter, cfg_Metrics = Some NewCounterMetrics\<rparr>
      in if databaseURL \<noteq> []
         then (case newPool databaseURL of
                 Inl _ \<Rightarrow> Inl 1
               | Inr pool \<Rightarrow> Inr \<lparr>api_port = port, api_persistence = PostgresPersistence pool,
                                 api_config = config\<rparr>)
         else Inr \<lparr>api_port = port, api_persistence = MemoryPersistence, api_config = config\<rparr>)"

text \<open>
  \<open>listen\<close> is \<open>http.ListenAndServe\<close> with the routes of the server: it returns when listening fails.
  The exit code of the process.
\<close>

definition api_exit ::
  "(string \<Rightarrow> string) \<Rightarrow> (string \<Rightarrow> 'p result) \<Rightarrow> (string \<Rightarrow> ('r RedisClient \<times> 'r) result)
    \<Rightarrow> (string \<Rightarrow> ('p, 'r) ApiProcess \<Rightarrow> error option) \<Rightarrow> int" where
  "api_exit getenv newPool parseURL listen =
     (case api_main getenv newPool parseURL of
        Inl code \<Rightarrow> code
      | Inr process \<Rightarrow> (case listen ('':'' @ api_port process) process of Some _ \<Rightarrow> 1 | None \<Rightarrow> 0))"

text \<open>The payment service of the process over the store it chose.\<close>

definition api_payments :: "'d decimal_pkg \<Rightarrow> ('c, 's, 'd) Store \<Rightarrow> ('c, 's, 'd) PaymentService" where
  "api_payments D S = \<lparr>svc_Store = S, svc_Provider = DeterministicProvider,
     svc_Risk = Some (ThresholdRisk_Check D ''10000''), svc_Metrics = False\<rparr>"

section \<open>The migration command\<close>

text \<open>
  The connection: \<open>con_Create\<close> creates the table \<open>schema_migrations\<close> unless it exists, \<open>con_Applied\<close>
  asks it, \<open>con_Record\<close> writes it, \<open>con_Exec\<close> executes a statement. \<open>readFile\<close> is \<open>os.ReadFile\<close>. An
  error ends the command with a panic; what was printed stays.
\<close>

record 'b Connection =
  con_Create :: "('b, unit) op"
  con_Applied :: "string \<Rightarrow> 'b \<Rightarrow> bool result"
  con_Exec :: "string \<Rightarrow> ('b, unit) op"
  con_Record :: "string \<Rightarrow> ('b, unit) op"

datatype MigrationLine = Skipped string | Applied string

fun migrate_loop ::
  "'b Connection \<Rightarrow> (string \<Rightarrow> string result) \<Rightarrow> MigrationLine list \<Rightarrow> string list \<Rightarrow> 'b
    \<Rightarrow> unit result \<times> MigrationLine list \<times> 'b" where
  "migrate_loop con readFile out [] b = (Inr (), out, b)"
| "migrate_loop con readFile out (file # files) b =
     (case con_Applied con file b of
        Inl e \<Rightarrow> (Inl e, out, b)
      | Inr applied \<Rightarrow>
     (if applied then migrate_loop con readFile (out @ [Skipped file]) files b
      else case readFile file of
        Inl e \<Rightarrow> (Inl e, out, b)
      | Inr statement \<Rightarrow>
     (case con_Exec con statement b of
        (Inl e, b1) \<Rightarrow> (Inl (Err (file @ '': '' @ Error e)), out, b1)
      | (Inr _, b1) \<Rightarrow>
     (case con_Record con file b1 of
        (Inl e, b2) \<Rightarrow> (Inl e, out, b2)
      | (Inr _, b2) \<Rightarrow> migrate_loop con readFile (out @ [Applied file]) files b2))))"

definition migrate_main ::
  "(string \<Rightarrow> string) \<Rightarrow> (string \<Rightarrow> 'b Connection result) \<Rightarrow> string list result \<Rightarrow> (string \<Rightarrow> string result)
    \<Rightarrow> 'b \<Rightarrow> unit result \<times> MigrationLine list \<times> 'b" where
  "migrate_main getenv connect glob readFile b =
     (if getenv ''DATABASE_URL'' = [] then (Inl (Panic ''DATABASE_URL is required''), [], b)
      else case connect (getenv ''DATABASE_URL'') of
        Inl e \<Rightarrow> (Inl e, [], b)
      | Inr con \<Rightarrow>
     (case con_Create con b of
        (Inl e, b1) \<Rightarrow> (Inl e, [], b1)
      | (Inr _, b1) \<Rightarrow>
     (case glob of
        Inl e \<Rightarrow> (Inl e, [], b1)
      | Inr files \<Rightarrow> migrate_loop con readFile [] (sort files) b1)))"

section \<open>Migrations are applied once and in order\<close>

text \<open>
  What the command relies on: the table \<open>schema_migrations\<close> answers with what was recorded, the
  migration scripts do not write to it, and only \<open>Exec\<close> executes scripts. \<open>applied b\<close> is the content of the table,
  \<open>executed b\<close> the scripts the server has executed, in order, and \<open>scripts\<close> the texts of the
  migration files.
\<close>

locale migration_db =
  fixes con :: "'b Connection" and applied :: "'b \<Rightarrow> string set" and executed :: "'b \<Rightarrow> string list"
    and scripts :: "string set"
  assumes create_keeps: "con_Create con b = (x, b') \<Longrightarrow> applied b' = applied b \<and> executed b' = executed b"
    and asks: "con_Applied con f b = Inr a \<Longrightarrow> a \<longleftrightarrow> f \<in> applied b"
    and executes: "q \<in> scripts \<Longrightarrow> con_Exec con q b = (Inr u, b') \<Longrightarrow>
      applied b' = applied b \<and> executed b' = executed b @ [q]"
    and records: "con_Record con f b = (Inr u, b') \<Longrightarrow>
      applied b' = insert f (applied b) \<and> executed b' = executed b"
begin

definition printed :: "'b \<Rightarrow> string list \<Rightarrow> MigrationLine list" where
  "printed b files = map (\<lambda>f. if f \<in> applied b then Skipped f else Applied f) files"

definition missing :: "(string \<Rightarrow> string result) \<Rightarrow> 'b \<Rightarrow> string list \<Rightarrow> string list" where
  "missing readFile b files = map (\<lambda>f. projr (readFile f)) (filter (\<lambda>f. f \<notin> applied b) files)"

lemma loop_success:
  assumes "migrate_loop con readFile out files b = (Inr u, out', b')" "distinct files"
    and "\<And>f q. f \<in> set files \<Longrightarrow> readFile f = Inr q \<Longrightarrow> q \<in> scripts"
  shows "out' = out @ printed b files \<and> applied b' = applied b \<union> set files \<and>
     executed b' = executed b @ missing readFile b files"
  using assms
proof (induction files arbitrary: out b)
  case (Cons f files)
  show ?case
  proof (cases "f \<in> applied b")
    case True
    with Cons.prems asks [of f b] have "migrate_loop con readFile (out @ [Skipped f]) files b = (Inr u, out', b')"
      by (auto split: sum.splits if_splits prod.splits)
    from Cons.IH [OF this] Cons.prems(2,3) True show ?thesis by (auto simp: printed_def missing_def)
  next
    case False
    with Cons.prems(1) asks [of f b] obtain q b1 b2 where run: "readFile f = Inr q" "con_Exec con q b = (Inr (), b1)"
      "con_Record con f b1 = (Inr (), b2)"
      "migrate_loop con readFile (out @ [Applied f]) files b2 = (Inr u, out', b')"
      by (auto split: sum.splits if_splits prod.splits)
    have "q \<in> scripts" by (rule Cons.prems(3) [OF _ run(1)]) simp
    from executes [OF this run(2)] records [OF run(3)]
    have ap: "applied b2 = insert f (applied b)" "executed b2 = executed b @ [q]" by simp_all
    have same: "printed b2 files = printed b files" "missing readFile b2 files = missing readFile b files"
      using Cons.prems(2) by (auto simp: printed_def missing_def ap(1) intro!: filter_cong arg_cong [of _ _ "map _"])
    have "out' = (out @ [Applied f]) @ printed b files \<and> applied b' = applied b2 \<union> set files \<and>
        executed b' = executed b2 @ missing readFile b files"
      using Cons.IH [OF run(4)] Cons.prems(2,3) unfolding same by auto
    with ap False run(1) show ?thesis by (simp add: printed_def missing_def)
  qed
qed (simp add: printed_def missing_def)

lemma loop_again:
  assumes "set files \<subseteq> applied b" "migrate_loop con readFile out files b = (x, out', b')"
  shows "b' = b \<and> (\<exists>k. out' = out @ map Skipped (take k files))"
  using assms
proof (induction files arbitrary: out)
  case (Cons f files)
  show ?case
  proof (cases "con_Applied con f b")
    case (Inl e)
    with Cons.prems(2) show ?thesis by (auto intro!: exI [of _ 0])
  next
    case (Inr a)
    with asks [OF Inr] Cons.prems have "migrate_loop con readFile (out @ [Skipped f]) files b = (x, out', b')"
      by simp
    from Cons.IH [OF _ this] Cons.prems(1) obtain k where
      "b' = b" "out' = (out @ [Skipped f]) @ map Skipped (take k files)" by auto
    then show ?thesis by (auto intro!: exI [of _ "Suc k"])
  qed
qed simp

end

text \<open>A connection to a list of recorded files and a log of executed statements.\<close>

definition demo_connection :: "(string list \<times> string list) Connection" where
  "demo_connection = \<lparr>con_Create = (\<lambda>b. (Inr (), b)), con_Applied = (\<lambda>f (fs, qs). Inr (f \<in> set fs)),
     con_Exec = (\<lambda>q (fs, qs). (Inr (), (fs, qs @ [q]))),
     con_Record = (\<lambda>f (fs, qs). if f \<in> set fs then (Inl (ExternalErr ''duplicate key''), (fs, qs))
       else (Inr (), (f # fs, qs)))\<rparr>"

interpretation demo_migrations: migration_db demo_connection "\<lambda>b. set (fst b)" snd UNIV
  by unfold_locales (auto simp: demo_connection_def split: if_splits)

text \<open>
  C40: A run of the migration command that ends without error has executed the texts of exactly the files
  that were not recorded, each once and in the order of their names, prints a line for each file that says whether it was
  applied or skipped, and records all of them. After such a run the next one over the same files,
  whether it fails or not, executes nothing and leaves the database as it is, given that creating the
  table of migrations again is no change.
\<close>

theorem migrate_once:
  assumes "migration_db con applied executed scripts" "getenv ''DATABASE_URL'' \<noteq> []"
    and "connect (getenv ''DATABASE_URL'') = Inr con" "glob = Inr files" "distinct files"
    and "\<And>f q. f \<in> set files \<Longrightarrow> readFile f = Inr q \<Longrightarrow> q \<in> scripts"
    and "con_Create con b' = (Inr (), b')"
    and "migrate_main getenv connect glob readFile b = (Inr (), out, b')"
    and "migrate_main getenv connect glob readFile' b' = (x, out2, b2)"
  shows "executed b' = executed b @ map (\<lambda>f. projr (readFile f)) (filter (\<lambda>f. f \<notin> applied b) (sort files)) \<and>
     out = map (\<lambda>f. if f \<in> applied b then Skipped f else Applied f) (sort files) \<and>
     applied b' = applied b \<union> set files \<and>
     b2 = b' \<and> executed b2 = executed b' \<and> (\<exists>k. out2 = map Skipped (take k (sort files)))"
proof -
  obtain b1 where b1: "con_Create con b = (Inr (), b1)"
    "migrate_loop con readFile [] (sort files) b1 = (Inr (), out, b')"
    using assms(2-4,8) by (auto simp: migrate_main_def split: prod.splits sum.splits)
  have again: "migrate_loop con readFile' [] (sort files) b' = (x, out2, b2)"
    using assms(2-4,7,9) by (simp add: migrate_main_def)
  note keep = migration_db.create_keeps [OF assms(1) b1(1)]
  have first: "out = [] @ migration_db.printed applied b1 (sort files) \<and> applied b' = applied b1 \<union> set (sort files) \<and>
      executed b' = executed b1 @ migration_db.missing applied readFile b1 (sort files)"
    by (rule migration_db.loop_success [OF assms(1) b1(2)]) (use assms(5,6) in auto)
  then have "set (sort files) \<subseteq> applied b'" by simp
  from migration_db.loop_again [OF assms(1) this again] first keep show ?thesis
    by (simp add: migration_db.printed_def [OF assms(1)] migration_db.missing_def [OF assms(1)])
qed

theorem migrate_once_witness:
  "\<exists>out b'. migrate_main (\<lambda>_. ''db'') (\<lambda>_. Inr demo_connection) (Inr [''2.sql'', ''1.sql'', ''3.sql'']) (\<lambda>f. Inr (f @ '';''))
       ([''1.sql''], []) = (Inr (), out, b') \<and> out = [Skipped ''1.sql'', Applied ''2.sql'', Applied ''3.sql''] \<and>
     snd b' = [''2.sql;'', ''3.sql;''] \<and>
     snd (snd (migrate_main (\<lambda>_. ''db'') (\<lambda>_. Inr demo_connection) (Inr [''2.sql'', ''1.sql'', ''3.sql''])
       (\<lambda>f. Inr (f @ '';'')) b')) = b'"
proof -
  let ?run = "migrate_main (\<lambda>_. ''db'') (\<lambda>_. Inr demo_connection) (Inr [''2.sql'', ''1.sql'', ''3.sql'']) (\<lambda>f. Inr (f @ '';''))"
  have "fst (?run ([''1.sql''], [])) = Inr ()" by code_simp
  then obtain out b' where first: "?run ([''1.sql''], []) = (Inr (), out, b')" by (metis prod.collapse)
  obtain x out2 b2 where second: "?run b' = (x, out2, b2)" by (metis prod.collapse)
  have files: "sort [''2.sql'', ''1.sql'', ''3.sql''] = [''1.sql'', ''2.sql'', ''3.sql'']" by code_simp
  have "con_Create demo_connection b' = (Inr (), b')" by (simp add: demo_connection_def)
  from migrate_once [OF demo_migrations.migration_db_axioms _ _ refl _ _ this first second]
  have "out = [Skipped ''1.sql'', Applied ''2.sql'', Applied ''3.sql''] \<and> snd b' = [''2.sql;'', ''3.sql;''] \<and> b2 = b'"
    by (simp add: files del: sort_key_simps)
  with first second show ?thesis by simp
qed

end
