(* ===== verification/Postgres_Store.thy ===== *)
theory Postgres_Store
  imports Memory_Store
begin

text \<open>
  The PostgreSQL store (src/internal/store/postgres.go) over the tables of src/migrations. A
  table is a map from its primary key to a row, the ledger a list of rows; the constraints of
  the schema are checked where a statement writes. A transaction that fails at any statement leaves
  the tables as they were; one whose answer is lost after the commit returns an error and has made its
  changes. The conversions of values into column types are the record \<open>Pg\<close>; what happens around a
  call (failures of the connection, lost answers, the clock, row locks, the order of rows, other
  transactions between two statements) is its context.
\<close>

section \<open>Tables\<close>

record 'd PaymentRow =
  py_merchant_id :: string
  py_customer_id :: string
  py_currency :: string
  py_amount :: 'd
  py_captured_amount :: 'd
  py_refunded_amount :: 'd
  py_status :: PaymentStatus
  py_provider_reference :: "string option"

record 'd LedgerRow =
  lr_id :: string
  lr_payment_id :: "string option"
  lr_account_id :: string
  lr_currency :: string
  lr_debit :: 'd
  lr_credit :: 'd

record OutboxRow =
  or_aggregate_id :: string
  or_event_type :: string
  or_payload :: string
  or_claimed_at :: "int option"
  or_published_at :: "int option"
  or_created_at :: int

record 'd PayoutRow =
  yo_merchant_id :: string
  yo_currency :: string
  yo_amount :: 'd
  yo_status :: PayoutStatus
  yo_provider_reference :: "string option"

record 'd DisputeRow =
  dr_payment_id :: string
  dr_merchant_id :: string
  dr_currency :: string
  dr_amount :: 'd
  dr_reason :: string
  dr_status :: DisputeStatus

record 'd PgStore =
  t_payments :: "string \<rightharpoonup> 'd PaymentRow"
  t_keys :: "string \<rightharpoonup> string"
  t_ledger :: "'d LedgerRow list"
  t_outbox :: "string \<rightharpoonup> OutboxRow"
  t_webhooks :: "string set"
  t_payouts :: "string \<rightharpoonup> 'd PayoutRow"
  t_disputes :: "string \<rightharpoonup> 'd DisputeRow"

definition NewPgStore :: "'d PgStore" where
  "NewPgStore = \<lparr>t_payments = Map.empty, t_keys = Map.empty, t_ledger = [], t_outbox = Map.empty,
     t_webhooks = {}, t_payouts = Map.empty, t_disputes = Map.empty\<rparr>"

section \<open>Values and statements\<close>

text \<open>
  \<open>pg_uuid\<close> reads a text as a uuid and gives its canonical text; \<open>pg_text\<close> says that a byte string
  is a text value; \<open>pg_char3\<close> stores it in a column \<open>char(3)\<close>, padded; \<open>pg_numeric\<close> stores a decimal in
  a column \<open>numeric(20,6)\<close>, rounded; \<open>pg_jsonb\<close> reads a JSON text and gives the text of the value.
  \<open>None\<close> is an error of the conversion. \<open>pg_null\<close> is what the driver does when it scans a \<open>NULL\<close> into a
  Go string.
\<close>

record 'd Pg =
  pg_uuid :: "string \<Rightarrow> string option"
  pg_text :: "string \<Rightarrow> bool"
  pg_char3 :: "string \<Rightarrow> string option"
  pg_numeric :: "'d \<Rightarrow> 'd option"
  pg_jsonb :: "string \<Rightarrow> string option"
  pg_null :: "string result"

text \<open>
  The context of a call. \<open>cx_fail n\<close> is the error of its \<open>n\<close>-th statement when the connection, the
  server or the caller's context fails there, before it has an effect; \<open>cx_lost\<close> is the error of a
  call whose change the server has made and whose answer does not arrive (a lost answer to \<open>COMMIT\<close> or to a
  single statement, a row that cannot be scanned); times are microseconds; \<open>cx_rows\<close> is an order of
  the rows of a table; \<open>cx_locked\<close> are the rows other transactions hold; \<open>cx_returning\<close> is the order
  in which \<open>RETURNING\<close> delivers rows; \<open>cx_between\<close> is what other transactions commit between what a method
  reads without locking the rows and what it then writes (in \<open>CreatePayment\<close>, \<open>Transition\<close> and
  \<open>CreatePayout\<close>).
\<close>

record 'd PgContext =
  cx_fail :: "nat \<Rightarrow> string option"
  cx_lost :: "string option"
  cx_now :: int
  cx_rows :: "string list"
  cx_locked :: "string set"
  cx_returning :: "OutboxEvent list \<Rightarrow> OutboxEvent list"
  cx_between :: "'d PgStore \<Rightarrow> 'd PgStore"

type_synonym ('s, 'a) stmt = "'s \<Rightarrow> error + 'a \<times> 's"

definition exec :: "'d PgContext \<Rightarrow> nat \<Rightarrow> ('s, 'a) stmt \<Rightarrow> ('s, 'a) stmt" where
  "exec c n m s = (case cx_fail c n of Some e \<Rightarrow> Inl (ExternalErr e) | None \<Rightarrow> m s)"

definition andThen :: "('s, 'a) stmt \<Rightarrow> ('a \<Rightarrow> ('s, 'b) stmt) \<Rightarrow> ('s, 'b) stmt" where
  "andThen m f s = (case m s of Inl e \<Rightarrow> Inl e | Inr (a, s') \<Rightarrow> f a s')"

definition check :: "bool \<Rightarrow> error \<Rightarrow> ('s, unit) stmt" where
  "check ok e s = (if ok then Inr ((), s) else Inl e)"

definition give :: "'a \<Rightarrow> ('s, 'a) stmt" where
  "give a s = Inr (a, s)"

text \<open>A check of the code itself, such as \<open>ValidateCapture\<close>.\<close>

definition lift :: "'a result \<Rightarrow> ('s, 'a) stmt" where
  "lift r s = (case r of Inl e \<Rightarrow> Inl e | Inr a \<Rightarrow> Inr (a, s))"

text \<open>
  \<open>Begin\<close> is statement 0 and \<open>Commit\<close> statement 1 of a call; an error before the commit rolls back. A
  call outside a transaction is one statement. The error of a lost answer comes after the change.
\<close>

definition answer :: "'d PgContext \<Rightarrow> 'a \<Rightarrow> 'a result" where
  "answer c a = (case cx_lost c of None \<Rightarrow> Inr a | Some e \<Rightarrow> Inl (ExternalErr e))"

definition transaction :: "'d PgContext \<Rightarrow> ('s, 'a) stmt \<Rightarrow> ('s, 'a) op" where
  "transaction c m s =
     (case exec c 0 m s of
        Inl e \<Rightarrow> (Inl e, s)
      | Inr (a, s') \<Rightarrow>
          (case cx_fail c 1 of Some e \<Rightarrow> (Inl (ExternalErr e), s) | None \<Rightarrow> (answer c a, s')))"

definition statement :: "'d PgContext \<Rightarrow> nat \<Rightarrow> ('s, 'a) stmt \<Rightarrow> ('s, 'a) op" where
  "statement c n m s = (case exec c n m s of Inl e \<Rightarrow> (Inl e, s) | Inr (a, s') \<Rightarrow> (answer c a, s'))"

text \<open>The errors of the server, by their SQLSTATE.\<close>

abbreviation invalid_value :: error where "invalid_value \<equiv> ExternalErr ''22000''"
abbreviation unique_violation :: error where "unique_violation \<equiv> ExternalErr ''23505''"
abbreviation foreign_key_violation :: error where "foreign_key_violation \<equiv> ExternalErr ''23503''"
abbreviation check_violation :: error where "check_violation \<equiv> ExternalErr ''23514''"

definition orError :: "error \<Rightarrow> 'a option \<Rightarrow> 'a result" where
  "orError e x = (case x of None \<Rightarrow> Inl e | Some a \<Rightarrow> Inr a)"

abbreviation val_uuid :: "'d Pg \<Rightarrow> string \<Rightarrow> ('s, string) stmt" where
  "val_uuid P i \<equiv> lift (orError invalid_value (pg_uuid P i))"
abbreviation val_text :: "'d Pg \<Rightarrow> string \<Rightarrow> ('s, unit) stmt" where
  "val_text P t \<equiv> check (pg_text P t) invalid_value"
abbreviation val_char3 :: "'d Pg \<Rightarrow> string \<Rightarrow> ('s, string) stmt" where
  "val_char3 P t \<equiv> lift (orError invalid_value (pg_char3 P t))"
abbreviation val_numeric :: "'d Pg \<Rightarrow> 'd \<Rightarrow> ('s, 'd) stmt" where
  "val_numeric P x \<equiv> lift (orError invalid_value (pg_numeric P x))"

definition nullif :: "string \<Rightarrow> string option" where
  "nullif t = (if t = [] then None else Some t)"

definition coalesce :: "string option \<Rightarrow> string" where
  "coalesce x = (case x of None \<Rightarrow> [] | Some t \<Rightarrow> t)"

section \<open>Statements on payments\<close>

definition row_payment :: "string \<Rightarrow> 'd PaymentRow \<Rightarrow> 'd Payment" where
  "row_payment i r = \<lparr>p_ID = i, p_MerchantID = py_merchant_id r, p_CustomerID = py_customer_id r,
     p_Currency = py_currency r, p_Amount = py_amount r, p_CapturedAmount = py_captured_amount r,
     p_RefundedAmount = py_refunded_amount r, p_Status = py_status r,
     p_ProviderReference = coalesce (py_provider_reference r)\<rparr>"

definition select_payment :: "'d Pg \<Rightarrow> string \<Rightarrow> ('d PgStore, 'd Payment option) stmt" where
  "select_payment P ident =
     andThen (val_uuid P ident) (\<lambda>i s. Inr (map_option (row_payment i) (t_payments s i), s))"

definition insert_payment :: "'d decimal_pkg \<Rightarrow> 'd Pg \<Rightarrow> 'd Payment \<Rightarrow> ('d PgStore, unit) stmt" where
  "insert_payment D P p =
     andThen (val_uuid P (p_ID p)) (\<lambda>i.
     andThen (val_text P (p_MerchantID p)) (\<lambda>_.
     andThen (val_text P (p_CustomerID p)) (\<lambda>_.
     andThen (val_char3 P (p_Currency p)) (\<lambda>cur.
     andThen (val_numeric P (p_Amount p)) (\<lambda>amount.
     andThen (check (p_Status p \<noteq> PaymentStatusZero) invalid_value) (\<lambda>_.
     andThen (check (decGreaterThan D amount (decZero D)) check_violation) (\<lambda>_ s.
       if t_payments s i \<noteq> None then Inl unique_violation
       else Inr ((), s\<lparr>t_payments := (t_payments s)(i \<mapsto>
         \<lparr>py_merchant_id = p_MerchantID p, py_customer_id = p_CustomerID p, py_currency = cur,
          py_amount = amount, py_captured_amount = decZero D, py_refunded_amount = decZero D,
          py_status = p_Status p, py_provider_reference = None\<rparr>)\<rparr>))))))))"

text \<open>The constraint \<open>payment_amount_invariants\<close> and the two checks of its columns.\<close>

definition row_amounts_ok :: "'d decimal_pkg \<Rightarrow> 'd PaymentRow \<Rightarrow> bool" where
  "row_amounts_ok D r \<longleftrightarrow> \<not> decIsNegative D (py_captured_amount r) \<and> \<not> decIsNegative D (py_refunded_amount r) \<and>
     decLessThanOrEqual D (py_refunded_amount r) (py_captured_amount r) \<and>
     decLessThanOrEqual D (py_captured_amount r) (py_amount r)"

text \<open>\<open>UPDATE payments SET ... WHERE id=$1\<close>: no row is no error.\<close>

definition update_payment ::
  "'d decimal_pkg \<Rightarrow> 'd Pg \<Rightarrow> string \<Rightarrow> ('d PaymentRow \<Rightarrow> 'd PaymentRow) \<Rightarrow> ('d PgStore, unit) stmt" where
  "update_payment D P ident f =
     andThen (val_uuid P ident) (\<lambda>i s.
       case t_payments s i of
         None \<Rightarrow> Inr ((), s)
       | Some r \<Rightarrow>
           if \<not> row_amounts_ok D (f r) then Inl check_violation
           else Inr ((), s\<lparr>t_payments := (t_payments s)(i \<mapsto> f r)\<rparr>))"

section \<open>Statements on the ledger and the outbox\<close>

text \<open>\<open>pid\<close> is the payment column: \<open>None\<close> for \<open>NULL\<close>.\<close>

definition insert_entry ::
  "'d decimal_pkg \<Rightarrow> 'd Pg \<Rightarrow> bool \<Rightarrow> 'd LedgerEntry \<Rightarrow> ('d PgStore, unit) stmt" where
  "insert_entry D P with_payment e =
     andThen (val_uuid P (le_ID e)) (\<lambda>i.
     andThen (if with_payment then andThen (val_uuid P (le_PaymentID e)) (\<lambda>u. give (Some u)) else give None) (\<lambda>pid.
     andThen (val_text P (le_AccountID e)) (\<lambda>_.
     andThen (val_char3 P (le_Currency e)) (\<lambda>cur.
     andThen (val_numeric P (le_Debit e)) (\<lambda>debit.
     andThen (val_numeric P (le_Credit e)) (\<lambda>credit s.
       if decIsNegative D debit \<or> decIsNegative D credit \<or> decIsZero D debit = decIsZero D credit
       then Inl check_violation
       else if i \<in> lr_id ` set (t_ledger s) then Inl unique_violation
       else if (case pid of None \<Rightarrow> False | Some u \<Rightarrow> t_payments s u = None) then Inl foreign_key_violation
       else Inr ((), s\<lparr>t_ledger := t_ledger s @
         [\<lparr>lr_id = i, lr_payment_id = pid, lr_account_id = le_AccountID e, lr_currency = cur,
           lr_debit = debit, lr_credit = credit\<rparr>]\<rparr>)))))))"

fun insert_entries ::
  "'d decimal_pkg \<Rightarrow> 'd Pg \<Rightarrow> 'd PgContext \<Rightarrow> nat \<Rightarrow> bool \<Rightarrow> 'd LedgerEntry list \<Rightarrow> ('d PgStore, unit) stmt" where
  "insert_entries D P c n with_payment [] = give ()"
| "insert_entries D P c n with_payment (e # es) =
     andThen (exec c n (insert_entry D P with_payment e)) (\<lambda>_.
       insert_entries D P c (Suc n) with_payment es)"

definition insert_event ::
  "'d Pg \<Rightarrow> int \<Rightarrow> string \<Rightarrow> string \<Rightarrow> OutboxEvent \<Rightarrow> ('d PgStore, unit) stmt" where
  "insert_event P now ident aggregate ev =
     andThen (val_uuid P ident) (\<lambda>i.
     andThen (val_uuid P aggregate) (\<lambda>a.
     andThen (val_text P (ev_EventType ev)) (\<lambda>_.
     andThen (lift (orError invalid_value (pg_jsonb P (ev_Payload ev)))) (\<lambda>payload s.
       if t_outbox s i \<noteq> None then Inl unique_violation
       else Inr ((), s\<lparr>t_outbox := (t_outbox s)(i \<mapsto>
         \<lparr>or_aggregate_id = a, or_event_type = ev_EventType ev, or_payload = payload,
          or_claimed_at = None, or_published_at = None, or_created_at = now\<rparr>)\<rparr>)))))"

text \<open>\<open>SELECT COALESCE(SUM(credit-debit),0) ... WHERE account_id=$1 AND currency=$2\<close>.\<close>

definition select_balance ::
  "'d decimal_pkg \<Rightarrow> 'd Pg \<Rightarrow> string \<Rightarrow> string \<Rightarrow> ('d PgStore, 'd) stmt" where
  "select_balance D P account currency =
     andThen (val_text P account) (\<lambda>_.
     andThen (val_text P currency) (\<lambda>_ s.
       Inr (foldl (\<lambda>b r. decAdd D b (decSub D (lr_credit r) (lr_debit r))) (decZero D)
              (filter (\<lambda>r. lr_account_id r = account \<and> Some (lr_currency r) = pg_char3 P currency) (t_ledger s)),
            s)))"

section \<open>Payments\<close>

text \<open>
  A replay reads the payment of the key without its captured and refunded amounts, and scans the
  column \<open>provider_reference\<close>, which is \<open>NULL\<close> until the payment is authorized, into a string: what
  comes of a \<open>NULL\<close> is up to the driver. It returns without a commit.
\<close>

definition select_replay ::
  "'d decimal_pkg \<Rightarrow> 'd Pg \<Rightarrow> string \<Rightarrow> ('d PgStore, 'd Payment option) stmt" where
  "select_replay D P key =
     andThen (val_text P key) (\<lambda>_ s.
       case t_keys s key of
         None \<Rightarrow> Inr (None, s)
       | Some i \<Rightarrow>
           (case t_payments s i of
              None \<Rightarrow> Inr (None, s)
            | Some r \<Rightarrow>
                (case (case py_provider_reference r of None \<Rightarrow> pg_null P | Some reference \<Rightarrow> Inr reference) of
                   Inl e \<Rightarrow> Inl e
                 | Inr reference \<Rightarrow>
                     Inr (Some ((row_payment i r)\<lparr>p_CapturedAmount := decNil D, p_RefundedAmount := decNil D,
                       p_ProviderReference := reference\<rparr>), s))))"

definition insert_key :: "'d Pg \<Rightarrow> string \<Rightarrow> string \<Rightarrow> ('d PgStore, unit) stmt" where
  "insert_key P key ident =
     andThen (val_text P key) (\<lambda>_.
     andThen (val_uuid P ident) (\<lambda>i s.
       if t_keys s key \<noteq> None then Inl unique_violation
       else if t_payments s i = None then Inl foreign_key_violation
       else Inr ((), s\<lparr>t_keys := (t_keys s)(key \<mapsto> i)\<rparr>)))"

text \<open>What \<open>CreatePayment\<close> writes after its read; other transactions may commit before.\<close>

definition Postgres_insertPayment ::
  "'d decimal_pkg \<Rightarrow> 'd Pg \<Rightarrow> 'd PgContext \<Rightarrow> 'd Payment \<Rightarrow> string \<Rightarrow> ('d PgStore, 'd Payment \<times> bool) op" where
  "Postgres_insertPayment D P c payment key =
     transaction c
       (andThen (exec c 3 (insert_payment D P payment)) (\<lambda>_.
        andThen (exec c 4 (insert_key P key (p_ID payment))) (\<lambda>_.
        give (payment, False))))"

definition Postgres_CreatePayment ::
  "'d decimal_pkg \<Rightarrow> 'd Pg \<Rightarrow> 'd PgContext \<Rightarrow> 'd Payment \<Rightarrow> string \<Rightarrow> ('d PgStore, 'd Payment \<times> bool) op" where
  "Postgres_CreatePayment D P c payment key s =
     (case exec c 0 (exec c 2 (select_replay D P key)) s of
        Inl e \<Rightarrow> (Inl e, s)
      | Inr (Some existing, _) \<Rightarrow> (Inr (existing, True), s)
      | Inr (None, _) \<Rightarrow> Postgres_insertPayment D P c payment key (cx_between c s))"

definition Postgres_GetPayment ::
  "'d Pg \<Rightarrow> 'd PgContext \<Rightarrow> string \<Rightarrow> 'd PgStore \<Rightarrow> 'd Payment result" where
  "Postgres_GetPayment P c ident s =
     (case exec c 0 (select_payment P ident) s of
        Inl e \<Rightarrow> Inl e
      | Inr (None, _) \<Rightarrow> Inl ErrNotFound
      | Inr (Some p, _) \<Rightarrow> Inr p)"

text \<open>The first row in the order the server reads the table.\<close>

fun find_row :: "(string \<rightharpoonup> 'd PaymentRow) \<Rightarrow> string \<Rightarrow> string list \<Rightarrow> 'd Payment option" where
  "find_row m reference [] = None"
| "find_row m reference (i # ids) =
     (case m i of
        Some r \<Rightarrow> if py_provider_reference r = Some reference then Some (row_payment i r)
                 else find_row m reference ids
      | None \<Rightarrow> find_row m reference ids)"

definition Postgres_GetPaymentByProviderReference ::
  "'d Pg \<Rightarrow> 'd PgContext \<Rightarrow> string \<Rightarrow> 'd PgStore \<Rightarrow> 'd Payment result" where
  "Postgres_GetPaymentByProviderReference P c reference s =
     (case exec c 0 (val_text P reference) s of
        Inl e \<Rightarrow> Inl e
      | Inr _ \<Rightarrow>
          (case find_row (t_payments s) reference (cx_rows c) of
             None \<Rightarrow> Inl ErrNotFound
           | Some p \<Rightarrow> Inr p))"

text \<open>The payment locked by \<open>FOR UPDATE\<close>; no row is \<open>ErrNotFound\<close>.\<close>

definition lock_payment :: "'d Pg \<Rightarrow> string \<Rightarrow> ('d PgStore, 'd Payment) stmt" where
  "lock_payment P ident =
     andThen (select_payment P ident) (\<lambda>row. lift (orError ErrNotFound row))"

definition apply_amount :: "'d decimal_pkg \<Rightarrow> PaymentStatus \<Rightarrow> 'd \<Rightarrow> 'd Payment \<Rightarrow> 'd Payment result" where
  "apply_amount D action amount p =
     (if action = PaymentCaptured then
        (case ValidateCapture D p amount of
           Inl e \<Rightarrow> Inl e
         | Inr _ \<Rightarrow>
             if \<not> CanTransition p action then Inl (Err ''invalid payment state transition'')
             else Inr (p\<lparr>p_CapturedAmount := decAdd D (p_CapturedAmount p) amount, p_Status := action\<rparr>))
      else if action = PaymentRefunded then
        (case ValidateRefund D p amount of
           Inl e \<Rightarrow> Inl e
         | Inr _ \<Rightarrow>
             if \<not> CanTransition p action then Inl (Err ''invalid payment state transition'')
             else Inr (p\<lparr>p_RefundedAmount := decAdd D (p_RefundedAmount p) amount, p_Status := action\<rparr>))
      else Inl (Err ''unsupported amount action''))"

definition Postgres_ApplyAmount ::
  "'d decimal_pkg \<Rightarrow> 'd Pg \<Rightarrow> 'd PgContext \<Rightarrow> string \<Rightarrow> PaymentStatus \<Rightarrow> 'd \<Rightarrow> ('d PgStore, 'd Payment) op" where
  "Postgres_ApplyAmount D P c ident action amount =
     transaction c
       (andThen (exec c 2 (lock_payment P ident)) (\<lambda>p.
        andThen (lift (apply_amount D action amount p)) (\<lambda>p'.
        andThen (exec c 3
          (andThen (val_numeric P (p_CapturedAmount p')) (\<lambda>captured.
           andThen (val_numeric P (p_RefundedAmount p')) (\<lambda>refunded.
             update_payment D P ident (\<lambda>r. r\<lparr>py_status := p_Status p', py_captured_amount := captured,
               py_refunded_amount := refunded\<rparr>))))) (\<lambda>_.
        give p'))))"

definition Postgres_update ::
  "'d decimal_pkg \<Rightarrow> 'd Pg \<Rightarrow> 'd PgContext \<Rightarrow> string \<Rightarrow> PaymentStatus \<Rightarrow> string \<Rightarrow> ('d PgStore, 'd Payment) op" where
  "Postgres_update D P c ident status reference =
     statement c 1
       (andThen (val_text P reference) (\<lambda>_.
        andThen (check (status \<noteq> PaymentStatusZero) invalid_value) (\<lambda>_.
        andThen (update_payment D P ident (\<lambda>r. r\<lparr>py_status := status,
          py_provider_reference := nullif reference\<rparr>)) (\<lambda>_.
        lock_payment P ident))))"

text \<open>Two statements without a lock: other transactions may commit between them.\<close>

definition Postgres_Transition ::
  "'d decimal_pkg \<Rightarrow> 'd Pg \<Rightarrow> 'd PgContext \<Rightarrow> string \<Rightarrow> PaymentStatus \<Rightarrow> string \<Rightarrow> ('d PgStore, 'd Payment) op" where
  "Postgres_Transition D P c ident to reference s =
     (case Postgres_GetPayment P c ident s of
        Inl e \<Rightarrow> (Inl e, s)
      | Inr p \<Rightarrow>
          if \<not> CanTransition p to then (Inl (Err ''invalid payment state transition''), s)
          else Postgres_update D P c ident to reference (cx_between c s))"

text \<open>The checks of \<open>CommitPaymentCommand\<close> and the payment it is about to write.\<close>

definition commit_payment :: "'d decimal_pkg \<Rightarrow> 'd PaymentCommand \<Rightarrow> 'd Payment \<Rightarrow> 'd Payment result" where
  "commit_payment D command p =
     (if \<not> CanTransition p (cmd_Status command) then Inl (Err ''invalid payment state transition'')
      else
        (case (if cmd_Status command = PaymentCaptured then
                 (case ValidateCapture D p (cmd_Amount command) of
                    Inl e \<Rightarrow> Inl e
                  | Inr _ \<Rightarrow> Inr (p\<lparr>p_CapturedAmount := decAdd D (p_CapturedAmount p) (cmd_Amount command)\<rparr>))
               else Inr p) of
           Inl e \<Rightarrow> Inl e
         | Inr p1 \<Rightarrow>
        (case (if cmd_Status command = PaymentRefunded then
                 (case ValidateRefund D p1 (cmd_Amount command) of
                    Inl e \<Rightarrow> Inl e
                  | Inr _ \<Rightarrow> Inr (p1\<lparr>p_RefundedAmount := decAdd D (p_RefundedAmount p1) (cmd_Amount command)\<rparr>))
               else Inr p1) of
           Inl e \<Rightarrow> Inl e
         | Inr p2 \<Rightarrow>
        (case ValidateBalanced D (cmd_Ledger command) of
           Inl e \<Rightarrow> Inl e
         | Inr _ \<Rightarrow>
             (let p3 = p2\<lparr>p_Status := cmd_Status command\<rparr>
              in Inr (if cmd_ProviderReference command \<noteq> []
                      then p3\<lparr>p_ProviderReference := cmd_ProviderReference command\<rparr> else p3))))))"

definition write_payment :: "'d decimal_pkg \<Rightarrow> 'd Pg \<Rightarrow> 'd Payment \<Rightarrow> ('d PgStore, unit) stmt" where
  "write_payment D P p =
     andThen (val_text P (p_ProviderReference p)) (\<lambda>_.
     andThen (val_numeric P (p_CapturedAmount p)) (\<lambda>captured.
     andThen (val_numeric P (p_RefundedAmount p)) (\<lambda>refunded.
       update_payment D P (p_ID p) (\<lambda>r. r\<lparr>py_status := p_Status p, py_captured_amount := captured,
         py_refunded_amount := refunded, py_provider_reference := nullif (p_ProviderReference p)\<rparr>))))"

definition Postgres_CommitPaymentCommand ::
  "'d decimal_pkg \<Rightarrow> 'd Pg \<Rightarrow> 'd PgContext \<Rightarrow> 'd PaymentCommand \<Rightarrow> ('d PgStore, 'd Payment) op" where
  "Postgres_CommitPaymentCommand D P c command =
     transaction c
       (andThen (exec c 2 (lock_payment P (cmd_PaymentID command))) (\<lambda>p.
        andThen (lift (commit_payment D command p)) (\<lambda>p'.
        andThen (exec c 3 (write_payment D P p')) (\<lambda>_.
        andThen (insert_entries D P c 5 True (cmd_Ledger command)) (\<lambda>_.
        andThen (exec c 4 (insert_event P (cx_now c) (ev_ID (cmd_Event command)) (p_ID p') (cmd_Event command))) (\<lambda>_.
        give p'))))))"

section \<open>Ledger, outbox and webhook registry\<close>

definition Postgres_AppendLedger ::
  "'d decimal_pkg \<Rightarrow> 'd Pg \<Rightarrow> 'd PgContext \<Rightarrow> 'd LedgerEntry list \<Rightarrow> ('d PgStore, unit) op" where
  "Postgres_AppendLedger D P c entries s =
     (case ValidateBalanced D entries of
        Inl e \<Rightarrow> (Inl e, s)
      | Inr _ \<Rightarrow> transaction c (insert_entries D P c 2 True entries) s)"

definition Postgres_Enqueue :: "'d Pg \<Rightarrow> 'd PgContext \<Rightarrow> OutboxEvent \<Rightarrow> ('d PgStore, unit) op" where
  "Postgres_Enqueue P c ev =
     statement c 0 (insert_event P (cx_now c) (ev_ID ev) (ev_AggregateID ev) ev)"

text \<open>An event is claimable when it is unpublished and no claim of the last minute holds it.\<close>

definition lease_free :: "int \<Rightarrow> OutboxRow \<Rightarrow> bool" where
  "lease_free now r \<longleftrightarrow> or_published_at r = None \<and>
     (case or_claimed_at r of None \<Rightarrow> True | Some t \<Rightarrow> t < now - 60000000)"

definition candidates :: "'d PgContext \<Rightarrow> nat \<Rightarrow> (string \<rightharpoonup> OutboxRow) \<Rightarrow> string list" where
  "candidates c n m =
     take n (filter (\<lambda>i. i \<notin> cx_locked c \<and> (case m i of None \<Rightarrow> False | Some r \<Rightarrow> lease_free (cx_now c) r))
       (sort_key (\<lambda>i. case m i of None \<Rightarrow> 0 | Some r \<Rightarrow> or_created_at r) (cx_rows c)))"

definition row_event :: "string \<Rightarrow> OutboxRow \<Rightarrow> OutboxEvent" where
  "row_event i r = \<lparr>ev_ID = i, ev_AggregateID = or_aggregate_id r, ev_EventType = or_event_type r,
     ev_Payload = or_payload r, ev_Published = False\<rparr>"

definition Postgres_ClaimOutbox ::
  "'d PgContext \<Rightarrow> int \<Rightarrow> ('d PgStore, OutboxEvent list) op" where
  "Postgres_ClaimOutbox c n =
     statement c 0 (\<lambda>s.
       if n < 0 then Inl (ExternalErr ''2201W'')
       else
         (let m = t_outbox s; ids = candidates c (nat n) m
          in Inr (cx_returning c (map (\<lambda>i. row_event i (the (m i))) ids),
                  s\<lparr>t_outbox := (\<lambda>i. if i \<in> set ids
                      then map_option (\<lambda>r. r\<lparr>or_claimed_at := Some (cx_now c)\<rparr>) (m i) else m i)\<rparr>)))"

definition Postgres_MarkPublished :: "'d Pg \<Rightarrow> 'd PgContext \<Rightarrow> string \<Rightarrow> ('d PgStore, unit) op" where
  "Postgres_MarkPublished P c ident =
     statement c 0 (andThen (val_uuid P ident) (\<lambda>i s.
       Inr ((), s\<lparr>t_outbox := (t_outbox s)(i :=
         map_option (\<lambda>r. r\<lparr>or_published_at := Some (cx_now c)\<rparr>) (t_outbox s i))\<rparr>)))"

definition Postgres_RegisterWebhook :: "'d Pg \<Rightarrow> 'd PgContext \<Rightarrow> string \<Rightarrow> ('d PgStore, bool) op" where
  "Postgres_RegisterWebhook P c ident =
     statement c 0 (andThen (val_text P ident) (\<lambda>_ s.
       Inr (ident \<notin> t_webhooks s, s\<lparr>t_webhooks := insert ident (t_webhooks s)\<rparr>)))"

section \<open>Payouts\<close>

definition Postgres_AvailableBalance ::
  "'d decimal_pkg \<Rightarrow> 'd Pg \<Rightarrow> 'd PgContext \<Rightarrow> string \<Rightarrow> string \<Rightarrow> 'd PgStore \<Rightarrow> 'd result" where
  "Postgres_AvailableBalance D P c merchant currency s =
     (case exec c 0 (select_balance D P (acct_available merchant) currency) s of
        Inl e \<Rightarrow> Inl e
      | Inr (balance, _) \<Rightarrow> Inr balance)"

definition insert_payout :: "'d decimal_pkg \<Rightarrow> 'd Pg \<Rightarrow> 'd Payout \<Rightarrow> ('d PgStore, unit) stmt" where
  "insert_payout D P p =
     andThen (val_uuid P (po_ID p)) (\<lambda>i.
     andThen (val_text P (po_MerchantID p)) (\<lambda>_.
     andThen (val_char3 P (po_Currency p)) (\<lambda>cur.
     andThen (val_numeric P (po_Amount p)) (\<lambda>amount.
     andThen (check (decGreaterThan D amount (decZero D)) check_violation) (\<lambda>_ s.
       if t_payouts s i \<noteq> None then Inl unique_violation
       else Inr ((), s\<lparr>t_payouts := (t_payouts s)(i \<mapsto>
         \<lparr>yo_merchant_id = po_MerchantID p, yo_currency = cur, yo_amount = amount,
          yo_status = po_Status p, yo_provider_reference = None\<rparr>)\<rparr>))))))"

text \<open>
  Statement 2 takes the advisory lock of the merchant and currency; it changes no table. It keeps other
  payouts of the merchant away, but refunds and disputes do not take it: they may commit between the
  read of the balance and the inserts.
\<close>

definition Postgres_readAvailable ::
  "'d decimal_pkg \<Rightarrow> 'd Pg \<Rightarrow> 'd PgContext \<Rightarrow> 'd Payout \<Rightarrow> 'd LedgerEntry list \<Rightarrow> ('d PgStore, unit) stmt" where
  "Postgres_readAvailable D P c p entries =
     andThen (exec c 2 (val_text P (''payout:'' @ po_MerchantID p @ '':'' @ po_Currency p))) (\<lambda>_.
     andThen (exec c 3 (select_balance D P (acct_available (po_MerchantID p)) (po_Currency p))) (\<lambda>balance.
     andThen (check (\<not> decLessThan D balance (po_Amount p)) (Err ''insufficient available balance'')) (\<lambda>_.
     lift (ValidateBalanced D entries))))"

definition Postgres_insertPayout ::
  "'d decimal_pkg \<Rightarrow> 'd Pg \<Rightarrow> 'd PgContext \<Rightarrow> 'd Payout \<Rightarrow> 'd LedgerEntry list \<Rightarrow> OutboxEvent
    \<Rightarrow> ('d PgStore, 'd Payout) op" where
  "Postgres_insertPayout D P c p entries ev =
     transaction c
       (andThen (exec c 4 (insert_payout D P p)) (\<lambda>_.
        andThen (insert_entries D P c 6 False entries) (\<lambda>_.
        andThen (exec c 5 (insert_event P (cx_now c) (ev_ID ev) (po_ID p) ev)) (\<lambda>_.
        give p))))"

definition Postgres_CreatePayout ::
  "'d decimal_pkg \<Rightarrow> 'd Pg \<Rightarrow> 'd PgContext \<Rightarrow> 'd Payout \<Rightarrow> 'd LedgerEntry list \<Rightarrow> OutboxEvent
    \<Rightarrow> ('d PgStore, 'd Payout) op" where
  "Postgres_CreatePayout D P c p entries ev s =
     (case exec c 0 (Postgres_readAvailable D P c p entries) s of
        Inl e \<Rightarrow> (Inl e, s)
      | Inr _ \<Rightarrow> Postgres_insertPayout D P c p entries ev (cx_between c s))"

definition row_payout :: "string \<Rightarrow> 'd PayoutRow \<Rightarrow> 'd Payout" where
  "row_payout i r = \<lparr>po_ID = i, po_MerchantID = yo_merchant_id r, po_Currency = yo_currency r,
     po_Amount = yo_amount r, po_ProviderReference = coalesce (yo_provider_reference r),
     po_Status = yo_status r\<rparr>"

definition select_payout :: "'d Pg \<Rightarrow> string \<Rightarrow> ('d PgStore, 'd Payout) stmt" where
  "select_payout P ident =
     andThen (val_uuid P ident) (\<lambda>i s.
       case t_payouts s i of None \<Rightarrow> Inl ErrNotFound | Some r \<Rightarrow> Inr (row_payout i r, s))"

definition Postgres_GetPayout :: "'d Pg \<Rightarrow> 'd PgContext \<Rightarrow> string \<Rightarrow> 'd PgStore \<Rightarrow> 'd Payout result" where
  "Postgres_GetPayout P c ident s =
     (case exec c 0 (select_payout P ident) s of Inl e \<Rightarrow> Inl e | Inr (p, _) \<Rightarrow> Inr p)"

definition update_payout ::
  "'d Pg \<Rightarrow> string \<Rightarrow> ('d PayoutRow \<Rightarrow> 'd PayoutRow) \<Rightarrow> ('d PgStore, unit) stmt" where
  "update_payout P ident f =
     andThen (val_uuid P ident) (\<lambda>i s.
       Inr ((), s\<lparr>t_payouts := (t_payouts s)(i := map_option f (t_payouts s i))\<rparr>))"

definition Postgres_TransitionPayout ::
  "'d decimal_pkg \<Rightarrow> 'd Pg \<Rightarrow> 'd PgContext \<Rightarrow> string \<Rightarrow> PayoutStatus \<Rightarrow> string \<Rightarrow> 'd LedgerEntry list
    \<Rightarrow> OutboxEvent \<Rightarrow> ('d PgStore, 'd Payout) op" where
  "Postgres_TransitionPayout D P c ident status reference entries ev =
     transaction c
       (andThen (exec c 2 (select_payout P ident)) (\<lambda>p.
        andThen (check (po_Status p = PayoutPending \<and> (status = PayoutPaid \<or> status = PayoutFailed))
          (Err ''invalid payout transition'')) (\<lambda>_.
        andThen (lift (ValidateBalanced D entries)) (\<lambda>_.
        andThen (exec c 3
          (andThen (val_text P reference) (\<lambda>_.
             update_payout P ident (\<lambda>r. r\<lparr>yo_status := status, yo_provider_reference := nullif reference\<rparr>)))) (\<lambda>_.
        andThen (insert_entries D P c 5 False entries) (\<lambda>_.
        andThen (exec c 4 (insert_event P (cx_now c) (ev_ID ev) ident ev)) (\<lambda>_.
        give (p\<lparr>po_Status := status, po_ProviderReference := reference\<rparr>))))))))"

section \<open>Disputes\<close>

definition insert_dispute :: "'d decimal_pkg \<Rightarrow> 'd Pg \<Rightarrow> 'd Dispute \<Rightarrow> ('d PgStore, unit) stmt" where
  "insert_dispute D P d =
     andThen (val_uuid P (di_ID d)) (\<lambda>i.
     andThen (val_uuid P (di_PaymentID d)) (\<lambda>pid.
     andThen (val_text P (di_MerchantID d)) (\<lambda>_.
     andThen (val_char3 P (di_Currency d)) (\<lambda>cur.
     andThen (val_numeric P (di_Amount d)) (\<lambda>amount.
     andThen (val_text P (di_Reason d)) (\<lambda>_.
     andThen (check (decGreaterThan D amount (decZero D)) check_violation) (\<lambda>_ s.
       if t_disputes s i \<noteq> None then Inl unique_violation
       else if t_payments s pid = None then Inl foreign_key_violation
       else Inr ((), s\<lparr>t_disputes := (t_disputes s)(i \<mapsto>
         \<lparr>dr_payment_id = pid, dr_merchant_id = di_MerchantID d, dr_currency = cur, dr_amount = amount,
          dr_reason = di_Reason d, dr_status = di_Status d\<rparr>)\<rparr>))))))))"

definition Postgres_CreateDispute ::
  "'d decimal_pkg \<Rightarrow> 'd Pg \<Rightarrow> 'd PgContext \<Rightarrow> 'd Dispute \<Rightarrow> 'd LedgerEntry list \<Rightarrow> OutboxEvent
    \<Rightarrow> ('d PgStore, 'd Dispute) op" where
  "Postgres_CreateDispute D P c d entries ev =
     transaction c
       (andThen (lift (ValidateBalanced D entries)) (\<lambda>_.
        andThen (exec c 2 (insert_dispute D P d)) (\<lambda>_.
        andThen (insert_entries D P c 4 True entries) (\<lambda>_.
        andThen (exec c 3 (insert_event P (cx_now c) (ev_ID ev) (di_ID d) ev)) (\<lambda>_.
        give d)))))"

definition row_dispute :: "string \<Rightarrow> 'd DisputeRow \<Rightarrow> 'd Dispute" where
  "row_dispute i r = \<lparr>di_ID = i, di_PaymentID = dr_payment_id r, di_MerchantID = dr_merchant_id r,
     di_Currency = dr_currency r, di_Reason = dr_reason r, di_Amount = dr_amount r,
     di_Status = dr_status r\<rparr>"

definition select_dispute :: "'d Pg \<Rightarrow> string \<Rightarrow> ('d PgStore, 'd Dispute) stmt" where
  "select_dispute P ident =
     andThen (val_uuid P ident) (\<lambda>i s.
       case t_disputes s i of None \<Rightarrow> Inl ErrNotFound | Some r \<Rightarrow> Inr (row_dispute i r, s))"

definition Postgres_GetDispute :: "'d Pg \<Rightarrow> 'd PgContext \<Rightarrow> string \<Rightarrow> 'd PgStore \<Rightarrow> 'd Dispute result" where
  "Postgres_GetDispute P c ident s =
     (case exec c 0 (select_dispute P ident) s of Inl e \<Rightarrow> Inl e | Inr (d, _) \<Rightarrow> Inr d)"

definition Postgres_ResolveDispute ::
  "'d decimal_pkg \<Rightarrow> 'd Pg \<Rightarrow> 'd PgContext \<Rightarrow> string \<Rightarrow> DisputeStatus \<Rightarrow> 'd LedgerEntry list \<Rightarrow> OutboxEvent
    \<Rightarrow> ('d PgStore, 'd Dispute) op" where
  "Postgres_ResolveDispute D P c ident status entries ev =
     transaction c
       (andThen (exec c 2 (select_dispute P ident)) (\<lambda>d.
        andThen (check (di_Status d = DisputeOpen \<and> (status = DisputeWon \<or> status = DisputeLost))
          (Err ''invalid dispute transition'')) (\<lambda>_.
        andThen (lift (ValidateBalanced D entries)) (\<lambda>_.
        andThen (exec c 3
          (andThen (val_uuid P ident) (\<lambda>i s.
             Inr ((), s\<lparr>t_disputes := (t_disputes s)(i :=
               map_option (\<lambda>r. r\<lparr>dr_status := status\<rparr>) (t_disputes s i))\<rparr>)))) (\<lambda>_.
        andThen (insert_entries D P c 5 True entries) (\<lambda>_.
        andThen (exec c 4 (insert_event P (cx_now c) (ev_ID ev) ident ev)) (\<lambda>_.
        give (d\<lparr>di_Status := status\<rparr>))))))))"

section \<open>The store\<close>

definition postgresStore :: "'d decimal_pkg \<Rightarrow> 'd Pg \<Rightarrow> ('d PgContext, 'd PgStore, 'd) Store" where
  "postgresStore D P = \<lparr>
     S_CreatePayment = Postgres_CreatePayment D P,
     S_GetPayment = Postgres_GetPayment P,
     S_GetPaymentByProviderReference = Postgres_GetPaymentByProviderReference P,
     S_Transition = Postgres_Transition D P,
     S_ApplyAmount = Postgres_ApplyAmount D P,
     S_AppendLedger = Postgres_AppendLedger D P,
     S_Enqueue = Postgres_Enqueue P,
     S_ClaimOutbox = Postgres_ClaimOutbox,
     S_MarkPublished = Postgres_MarkPublished P,
     S_RegisterWebhook = Postgres_RegisterWebhook P,
     S_CommitPaymentCommand = Postgres_CommitPaymentCommand D P,
     S_CreatePayout = Postgres_CreatePayout D P,
     S_GetPayout = Postgres_GetPayout P,
     S_AvailableBalance = Postgres_AvailableBalance D P,
     S_TransitionPayout = Postgres_TransitionPayout D P,
     S_CreateDispute = Postgres_CreateDispute D P,
     S_GetDispute = Postgres_GetDispute P,
     S_ResolveDispute = Postgres_ResolveDispute D P\<rparr>"

lemma postgresStore_simps [simp, store_simps]:
  "S_CreatePayment (postgresStore D P) = Postgres_CreatePayment D P"
  "S_GetPayment (postgresStore D P) = Postgres_GetPayment P"
  "S_GetPaymentByProviderReference (postgresStore D P) = Postgres_GetPaymentByProviderReference P"
  "S_Transition (postgresStore D P) = Postgres_Transition D P"
  "S_ApplyAmount (postgresStore D P) = Postgres_ApplyAmount D P"
  "S_AppendLedger (postgresStore D P) = Postgres_AppendLedger D P"
  "S_Enqueue (postgresStore D P) = Postgres_Enqueue P"
  "S_ClaimOutbox (postgresStore D P) = Postgres_ClaimOutbox"
  "S_MarkPublished (postgresStore D P) = Postgres_MarkPublished P"
  "S_RegisterWebhook (postgresStore D P) = Postgres_RegisterWebhook P"
  "S_CommitPaymentCommand (postgresStore D P) = Postgres_CommitPaymentCommand D P"
  "S_CreatePayout (postgresStore D P) = Postgres_CreatePayout D P"
  "S_GetPayout (postgresStore D P) = Postgres_GetPayout P"
  "S_AvailableBalance (postgresStore D P) = Postgres_AvailableBalance D P"
  "S_TransitionPayout (postgresStore D P) = Postgres_TransitionPayout D P"
  "S_CreateDispute (postgresStore D P) = Postgres_CreateDispute D P"
  "S_GetDispute (postgresStore D P) = Postgres_GetDispute P"
  "S_ResolveDispute (postgresStore D P) = Postgres_ResolveDispute D P"
  by (simp_all add: postgresStore_def)

end
