(* ===== verification/Postgres_Contract.thy ===== *)
theory Postgres_Contract
  imports Postgres_Store Store_Contract
begin

text \<open>
  The PostgreSQL store keeps the store contract for calls whose identifiers are canonical UUIDs,
  whose currencies are three characters and whose amounts fit the columns, when no other
  transaction commits between what \<open>CreatePayment\<close>, \<open>Transition\<close> and \<open>CreatePayout\<close> read and what they then
  write. \<open>canonicalStore\<close> is the store restricted to such calls. Statements may fail and answers may
  be lost anywhere.
\<close>

section \<open>The calls\<close>

definition calm :: "'d PgContext \<Rightarrow> 'd PgContext" where
  "calm c = c\<lparr>cx_between := (\<lambda>s. s)\<rparr>"

definition canonical_id :: "'d Pg \<Rightarrow> string \<Rightarrow> bool" where
  "canonical_id P i \<longleftrightarrow> pg_uuid P i = Some i"

definition canonical_currency :: "'d Pg \<Rightarrow> string \<Rightarrow> bool" where
  "canonical_currency P cur \<longleftrightarrow> pg_char3 P cur = Some cur"

definition canonical_entries :: "'d Pg \<Rightarrow> bool \<Rightarrow> 'd LedgerEntry list \<Rightarrow> bool" where
  "canonical_entries P with_payment es \<longleftrightarrow>
     list_all (\<lambda>e. (if with_payment then canonical_id P (le_PaymentID e) else le_PaymentID e = []) \<and>
       canonical_currency P (le_Currency e)) es"

text \<open>A call that is not canonical is refused before it reaches the database.\<close>

definition guarded :: "bool \<Rightarrow> ('s, 'a) op \<Rightarrow> ('s, 'a) op" where
  "guarded ok f s = (if ok then f s else (Inl (Err ''not canonical''), s))"

definition canonicalStore :: "'d decimal_pkg \<Rightarrow> 'd Pg \<Rightarrow> ('d PgContext, 'd PgStore, 'd) Store" where
  "canonicalStore D P = (postgresStore D P)\<lparr>
     S_CreatePayment := (\<lambda>c p key.
       guarded (canonical_id P (p_ID p) \<and> canonical_currency P (p_Currency p))
         (Postgres_CreatePayment D P (calm c) p key)),
     S_GetPayment := (\<lambda>c i s.
       if canonical_id P i then Postgres_GetPayment P c i s else Inl (Err ''not canonical'')),
     S_Transition := (\<lambda>c i to reference.
       guarded (canonical_id P i) (Postgres_Transition D P (calm c) i to reference)),
     S_CommitPaymentCommand := (\<lambda>c cmd.
       guarded (canonical_id P (cmd_PaymentID cmd) \<and> canonical_id P (ev_ID (cmd_Event cmd)) \<and>
           canonical_entries P True (cmd_Ledger cmd))
         (Postgres_CommitPaymentCommand D P c cmd)),
     S_CreatePayout := (\<lambda>c p es ev.
       guarded (canonical_id P (po_ID p) \<and> canonical_currency P (po_Currency p) \<and> canonical_id P (ev_ID ev) \<and>
           canonical_entries P False es)
         (Postgres_CreatePayout D P (calm c) p es ev)),
     S_GetPayout := (\<lambda>c i s.
       if canonical_id P i then Postgres_GetPayout P c i s else Inl (Err ''not canonical'')),
     S_TransitionPayout := (\<lambda>c i status reference es ev.
       guarded (canonical_id P i \<and> canonical_id P (ev_ID ev) \<and> canonical_entries P False es)
         (Postgres_TransitionPayout D P c i status reference es ev)),
     S_CreateDispute := (\<lambda>c d es ev.
       guarded (canonical_id P (di_ID d) \<and> canonical_id P (di_PaymentID d) \<and>
           canonical_currency P (di_Currency d) \<and> canonical_id P (ev_ID ev) \<and> canonical_entries P True es)
         (Postgres_CreateDispute D P c d es ev)),
     S_GetDispute := (\<lambda>c i s.
       if canonical_id P i then Postgres_GetDispute P c i s else Inl (Err ''not canonical'')),
     S_ResolveDispute := (\<lambda>c i status es ev.
       guarded (canonical_id P i \<and> canonical_id P (ev_ID ev) \<and> canonical_entries P True es)
         (Postgres_ResolveDispute D P c i status es ev))\<rparr>"

section \<open>Statements that succeed\<close>

lemma andThen_Inr [simp]:
  "andThen m f s = Inr (b, s'') \<longleftrightarrow> (\<exists>a s'. m s = Inr (a, s') \<and> f a s' = Inr (b, s''))"
  by (auto simp: andThen_def split: sum.splits prod.splits)

lemma exec_Inr [simp]: "exec c n m s = Inr x \<longleftrightarrow> cx_fail c n = None \<and> m s = Inr x"
  by (auto simp: exec_def split: option.splits)

lemma lift_Inr [simp]: "lift r s = Inr (a, s') \<longleftrightarrow> r = Inr a \<and> s' = s"
  by (auto simp: lift_def split: sum.splits)

lemma check_Inr [simp]: "check ok e s = Inr (u, s') \<longleftrightarrow> ok \<and> s' = s"
  by (auto simp: check_def)

lemma give_Inr [simp]: "give a s = Inr (b, s') \<longleftrightarrow> b = a \<and> s' = s"
  by (auto simp: give_def)

lemma orError_Inr [simp]: "orError e x = Inr a \<longleftrightarrow> x = Some a"
  by (auto simp: orError_def split: option.splits)

lemma answer_Inr [simp]: "answer c a = Inr b \<longleftrightarrow> cx_lost c = None \<and> b = a"
  by (auto simp: answer_def split: option.splits)

text \<open>
  A call that changes the tables has done all its work; its answer may be lost. An error that is not a
  lost answer leaves the tables alone.
\<close>

lemma transaction_cases:
  assumes "transaction c m s = (r, s')"
  obtains (aborted) e where "r = Inl e" "s' = s"
  | (committed) a where "m s = Inr (a, s')" "r = answer c a"
  using assms
  by (auto simp: transaction_def exec_def split: option.splits sum.splits prod.splits)

lemma statement_cases:
  assumes "statement c n m s = (r, s')"
  obtains (aborted) e where "r = Inl e" "s' = s"
  | (committed) a where "m s = Inr (a, s')" "r = answer c a"
  using assms by (auto simp: statement_def exec_def split: option.splits sum.splits prod.splits)

lemma calm_fields [simp]: "cx_between (calm c) = (\<lambda>s. s)" "cx_now (calm c) = cx_now c"
  by (simp_all add: calm_def)

lemma outcome_all: "all \<Longrightarrow> outcome r nothing all"
  by (simp add: outcome_def)

section \<open>Abstraction and invariant\<close>

definition numeric_fits :: "rat \<Rightarrow> bool" where
  "numeric_fits v \<longleftrightarrow> (\<exists>k :: int. v = of_int k / 10 ^ 6) \<and> \<bar>v\<bar> < 10 ^ 14"

text \<open>The book does not use the identifier inside a row's structure, only the key of the table.\<close>

definition abs_ledger_row :: "('d \<Rightarrow> rat) \<Rightarrow> 'd LedgerRow \<Rightarrow> Posting" where
  "abs_ledger_row val r = \<lparr>pst_payment = coalesce (lr_payment_id r), pst_account = lr_account_id r,
     pst_currency = lr_currency r, pst_debit = val (lr_debit r), pst_credit = val (lr_credit r)\<rparr>"

definition absP :: "('d \<Rightarrow> rat) \<Rightarrow> 'd PgStore \<Rightarrow> Book" where
  "absP val s = \<lparr>b_payments = map_option (abs_payment val \<circ> row_payment []) \<circ> t_payments s,
     b_payouts = map_option (abs_payout val \<circ> row_payout []) \<circ> t_payouts s,
     b_disputes = map_option (abs_dispute val \<circ> row_dispute []) \<circ> t_disputes s,
     b_ledger = map (abs_ledger_row val) (t_ledger s),
     b_events = card (dom (t_outbox s))\<rparr>"

definition pg_inv :: "'d decimal_pkg \<Rightarrow> ('d \<Rightarrow> rat) \<Rightarrow> 'd PgStore \<Rightarrow> bool" where
  "pg_inv D val s \<longleftrightarrow>
     (\<forall>i r. t_payments s i = Some r \<longrightarrow> numeric_fits (val (py_amount r)) \<and>
        numeric_fits (val (py_captured_amount r)) \<and> numeric_fits (val (py_refunded_amount r)) \<and> row_amounts_ok D r) \<and>
     (\<forall>i r. t_payouts s i = Some r \<longrightarrow> numeric_fits (val (yo_amount r))) \<and>
     (\<forall>i r. t_disputes s i = Some r \<longrightarrow> numeric_fits (val (dr_amount r))) \<and>
     finite (dom (t_outbox s))"

lemma abs_row_payment: "abs_payment val (row_payment i r) = abs_payment val (row_payment [] r)"
  by (simp add: abs_payment_def row_payment_def)

lemma abs_row_payout: "abs_payout val (row_payout i r) = abs_payout val (row_payout [] r)"
  by (simp add: abs_payout_def row_payout_def)

lemma abs_row_dispute: "abs_dispute val (row_dispute i r) = abs_dispute val (row_dispute [] r)"
  by (simp add: abs_dispute_def row_dispute_def)

lemma absP_fields [simp]:
  "b_payments (absP val s) i = map_option (abs_payment val \<circ> row_payment []) (t_payments s i)"
  "b_payouts (absP val s) i = map_option (abs_payout val \<circ> row_payout []) (t_payouts s i)"
  "b_disputes (absP val s) i = map_option (abs_dispute val \<circ> row_dispute []) (t_disputes s i)"
  "b_ledger (absP val s) = map (abs_ledger_row val) (t_ledger s)"
  "b_events (absP val s) = card (dom (t_outbox s))"
  by (simp_all add: absP_def)

lemma pg_inv_New: "pg_inv D val NewPgStore"
  by (simp add: pg_inv_def NewPgStore_def)

lemma absP_New: "absP val NewPgStore = empty_book"
  by (simp add: absP_def NewPgStore_def empty_book_def)

section \<open>Laws of the column types\<close>

locale pg_laws = decimal_laws D val for D :: "'d decimal_pkg" and val :: "'d \<Rightarrow> rat" +
  fixes P :: "'d Pg"
  assumes numeric_range: "pg_numeric P x = Some y \<Longrightarrow> numeric_fits (val y)"
    and numeric_exact: "numeric_fits (val x) \<Longrightarrow> pg_numeric P x = Some y \<Longrightarrow> val y = val x"
begin

abbreviation fits :: "'d \<Rightarrow> bool" where
  "fits x \<equiv> numeric_fits (val x)"

lemma fits_zero: "numeric_fits 0"
  by (auto simp: numeric_fits_def intro: exI [of _ 0])

lemma fits_add:
  assumes "numeric_fits a" "numeric_fits b" "\<bar>a + b\<bar> < 10 ^ 14"
  shows "numeric_fits (a + b)"
proof -
  from assms obtain j k :: int where "a = of_int j / 10 ^ 6" "b = of_int k / 10 ^ 6"
    by (auto simp: numeric_fits_def)
  then have "a + b = of_int (j + k) / 10 ^ 6" by (simp add: add_divide_distrib)
  with assms(3) show ?thesis unfolding numeric_fits_def by blast
qed

lemma insert_entry_ok:
  assumes "insert_entry D P w e s = Inr (u, s')" "canonical_entries P w [e]" "fits (le_Debit e)" "fits (le_Credit e)"
  shows "\<exists>row. s' = s\<lparr>t_ledger := t_ledger s @ [row]\<rparr> \<and> abs_ledger_row val row = abs_entry val e"
proof -
  from assms(1,2) obtain i d cr where row: "pg_numeric P (le_Debit e) = Some d" "pg_numeric P (le_Credit e) = Some cr"
    "s' = s\<lparr>t_ledger := t_ledger s @ [\<lparr>lr_id = i, lr_payment_id = (if w then Some (le_PaymentID e) else None),
        lr_account_id = le_AccountID e, lr_currency = le_Currency e, lr_debit = d, lr_credit = cr\<rparr>]\<rparr>"
    by (auto simp: insert_entry_def canonical_entries_def canonical_id_def canonical_currency_def split: if_splits)
  show ?thesis
    unfolding row(3)
    by (rule exI, rule conjI, rule refl)
      (use numeric_exact [OF assms(3) row(1)] numeric_exact [OF assms(4) row(2)] assms(2) in
        \<open>auto simp: abs_ledger_row_def abs_entry_def coalesce_def canonical_entries_def\<close>)
qed

lemma insert_entries_ok:
  assumes "insert_entries D P c n w es s = Inr (u, s')" "canonical_entries P w es" "entries_repr fits es"
  shows "\<exists>rows. s' = s\<lparr>t_ledger := t_ledger s @ rows\<rparr> \<and> map (abs_ledger_row val) rows = map (abs_entry val) es"
  using assms
proof (induction es arbitrary: n s)
  case (Cons e es)
  from Cons.prems(1) obtain s1 where s1: "insert_entry D P w e s = Inr ((), s1)"
    "insert_entries D P c (Suc n) w es s1 = Inr (u, s')" by auto
  have "canonical_entries P w [e]" "canonical_entries P w es" "entries_repr fits es"
    "fits (le_Debit e)" "fits (le_Credit e)"
    using Cons.prems(2,3) by (auto simp: canonical_entries_def entries_repr_def)
  from insert_entry_ok [OF s1(1) this(1,4,5)] Cons.IH [OF s1(2) this(2,3)]
  obtain row rows where "s1 = s\<lparr>t_ledger := t_ledger s @ [row]\<rparr>" "abs_ledger_row val row = abs_entry val e"
    "s' = s1\<lparr>t_ledger := t_ledger s1 @ rows\<rparr>" "map (abs_ledger_row val) rows = map (abs_entry val) es" by blast
  then show ?case by (auto intro!: exI [of _ "row # rows"])
qed (auto intro: exI [of _ "[]"])

lemma insert_event_ok:
  assumes "insert_event P now i a ev s = Inr (u, s')" "canonical_id P i"
  shows "\<exists>row. t_outbox s i = None \<and> s' = s\<lparr>t_outbox := (t_outbox s)(i \<mapsto> row)\<rparr>"
  using assms by (auto simp: insert_event_def canonical_id_def split: if_splits)

text \<open>The entries and the event of a movement, after the record was written in \<open>s1\<close>.\<close>

definition recorded :: "'d LedgerEntry list \<Rightarrow> string \<Rightarrow> 'd PgStore \<Rightarrow> 'd PgStore \<Rightarrow> bool" where
  "recorded es i s1 s' \<longleftrightarrow> (\<exists>rows row. t_outbox s1 i = None \<and>
     s' = s1\<lparr>t_ledger := t_ledger s1 @ rows, t_outbox := (t_outbox s1)(i \<mapsto> row)\<rparr> \<and>
     map (abs_ledger_row val) rows = map (abs_entry val) es)"

lemma recordedI:
  assumes "insert_entries D P c n w es s1 = Inr (u, s2)" "insert_event P now i a ev s2 = Inr (u', s')"
    and "canonical_entries P w es" "entries_repr fits es" "canonical_id P i"
  shows "recorded es i s1 s'"
proof -
  from insert_entries_ok [OF assms(1,3,4)] obtain rows where rows: "s2 = s1\<lparr>t_ledger := t_ledger s1 @ rows\<rparr>"
    "map (abs_ledger_row val) rows = map (abs_entry val) es" by blast
  moreover from insert_event_ok [OF assms(2,5)] obtain row where
    "t_outbox s2 i = None" "s' = s2\<lparr>t_outbox := (t_outbox s2)(i \<mapsto> row)\<rparr>" by blast
  ultimately show ?thesis by (auto simp: recorded_def)
qed

lemma recorded_abs:
  assumes "recorded es i s1 s'" "finite (dom (t_outbox s1))"
  shows "absP val s' = record_entries (map (abs_entry val) es) (absP val s1)"
    and "dom (t_outbox s') = insert i (dom (t_outbox s1))"
    and "pg_inv D val s1 \<Longrightarrow> pg_inv D val s'"
proof -
  from assms(1) obtain rows row where r: "t_outbox s1 i = None"
    "s' = s1\<lparr>t_ledger := t_ledger s1 @ rows, t_outbox := (t_outbox s1)(i \<mapsto> row)\<rparr>"
    "map (abs_ledger_row val) rows = map (abs_entry val) es" unfolding recorded_def by blast
  have "card (dom (t_outbox s')) = Suc (card (dom (t_outbox s1)))"
    using card_dom_new [OF assms(2) r(1)] by (simp add: r(2))
  then show "absP val s' = record_entries (map (abs_entry val) es) (absP val s1)"
    by (simp add: absP_def record_entries_def r)
  show "dom (t_outbox s') = insert i (dom (t_outbox s1))" by (simp add: r(2))
  show "pg_inv D val s1 \<Longrightarrow> pg_inv D val s'" by (simp add: pg_inv_def r(2))
qed

section \<open>Payments\<close>

lemma select_payment_ok:
  assumes "select_payment P i s = Inr (x, s')" "canonical_id P i"
  shows "s' = s" "x = map_option (row_payment i) (t_payments s i)"
  using assms by (auto simp: select_payment_def canonical_id_def)

lemma lock_payment_ok:
  assumes "lock_payment P i s = Inr (p, s')" "canonical_id P i"
  shows "s' = s \<and> (\<exists>r. t_payments s i = Some r \<and> p = row_payment i r)"
  using assms by (auto simp: lock_payment_def select_payment_def canonical_id_def)

lemma pg_get_payment:
  assumes "pg_inv D val s" "Postgres_GetPayment P c i s = Inr p" "canonical_id P i"
  shows "p_ID p = i \<and> fits (p_Amount p) \<and> b_payments (absP val s) i = Some (abs_payment val p)"
proof -
  from assms(2,3) obtain r where r: "t_payments s i = Some r" "p = row_payment i r"
    by (auto simp: Postgres_GetPayment_def exec_def select_payment_def canonical_id_def andThen_def lift_def
        orError_def split: option.splits sum.splits)
  with assms(1) show ?thesis
    by (auto simp: pg_inv_def row_payment_def abs_payment_def)
qed

lemma insert_payment_ok:
  assumes inv: "pg_inv D val s" and call: "Postgres_insertPayment D P c p key s = (r, s')"
    and canon: "canonical_id P (p_ID p)" "canonical_currency P (p_Currency p)"
    and new: "new_payment val p" "fits (p_Amount p)"
  shows "pg_inv D val s' \<and> dom (t_outbox s') = dom (t_outbox s) \<and> (\<forall>q. r \<noteq> Inr (q, True)) \<and>
     outcome r (absP val s' = absP val s) (absP val s' = set_payment (p_ID p) (abs_payment val p) (absP val s))"
  using call unfolding Postgres_insertPayment_def
proof (cases rule: transaction_cases)
  case aborted
  with inv show ?thesis by simp
next
  case (committed a)
  from committed(1) canon obtain y where y: "a = (p, False)" "pg_numeric P (p_Amount p) = Some y"
    "s' = s\<lparr>t_payments := (t_payments s)(p_ID p \<mapsto>
     \<lparr>py_merchant_id = p_MerchantID p, py_customer_id = p_CustomerID p, py_currency = p_Currency p,
      py_amount = y, py_captured_amount = decZero D, py_refunded_amount = decZero D,
      py_status = p_Status p, py_provider_reference = None\<rparr>), t_keys := (t_keys s)(key \<mapsto> p_ID p)\<rparr>"
    by (auto simp: insert_payment_def insert_key_def canonical_id_def canonical_currency_def split: if_splits)
  have val: "val y = val (p_Amount p)" using numeric_exact [OF new(2) y(2)] .
  have "pg_inv D val s' \<and> absP val s' = set_payment (p_ID p) (abs_payment val p) (absP val s)"
    using inv new val fits_zero numeric_range [OF y(2)] unfolding y(3)
    by (auto simp: pg_inv_def row_amounts_ok_def absP_def set_defs new_payment_def abs_payment_def
        row_payment_def fun_eq_iff)
  moreover have "\<forall>q. r \<noteq> Inr (q, True)" using committed(2) y(1) by (auto simp: answer_def split: option.splits)
  ultimately show ?thesis using y(3) by (simp add: outcome_all)
qed

lemma pg_create_payment:
  assumes inv: "pg_inv D val s" and call: "Postgres_CreatePayment D P (calm c) p key s = (r, s')"
    and canon: "canonical_id P (p_ID p)" "canonical_currency P (p_Currency p)"
    and new: "new_payment val p" "fits (p_Amount p)"
  shows "pg_inv D val s' \<and> dom (t_outbox s') = dom (t_outbox s) \<and>
     (case r of Inr (q, True) \<Rightarrow> absP val s' = absP val s
      | _ \<Rightarrow> outcome r (absP val s' = absP val s)
          (absP val s' = set_payment (p_ID p) (abs_payment val p) (absP val s)))"
proof -
  from call consider (failed) e where "r = Inl e" "s' = s" | (replay) q where "r = Inr (q, True)" "s' = s"
    | (insert) "Postgres_insertPayment D P (calm c) p key s = (r, s')"
    by (auto simp: Postgres_CreatePayment_def split: sum.splits prod.splits option.splits)
  then show ?thesis
  proof cases
    case insert
    from insert_payment_ok [OF inv insert canon new] show ?thesis
      by (auto split: sum.splits bool.splits)
  qed (use inv in simp_all)
qed

lemma update_payment_ok:
  assumes "update_payment D P i f s = Inr (u, s')" "canonical_id P i" "t_payments s i = Some r"
  shows "row_amounts_ok D (f r) \<and> s' = s\<lparr>t_payments := (t_payments s)(i \<mapsto> f r)\<rparr>"
  using assms by (auto simp: update_payment_def canonical_id_def split: if_splits)

lemma pg_fail_payment:
  assumes inv: "pg_inv D val s" and call: "Postgres_Transition D P (calm c) i PaymentFailed reference s = (r, s')"
    and canon: "canonical_id P i"
  shows "pg_inv D val s' \<and> dom (t_outbox s') = dom (t_outbox s) \<and>
     outcome r (absP val s' = absP val s)
       (\<exists>p. b_payments (absP val s) i = Some p \<and> transition_table (bp_status p) PaymentFailed \<and>
          absP val s' = set_payment i (p\<lparr>bp_status := PaymentFailed\<rparr>) (absP val s))"
proof (cases "Postgres_GetPayment P (calm c) i s")
  case (Inl e)
  with call have "r = Inl e" "s' = s" by (simp_all add: Postgres_Transition_def)
  with inv show ?thesis by simp
next
  case (Inr p)
  note got = pg_get_payment [OF inv Inr canon]
  show ?thesis
  proof (cases "CanTransition p PaymentFailed")
    case False
    with call Inr inv show ?thesis by (auto simp: Postgres_Transition_def)
  next
    case True
    with call Inr have "Postgres_update D P (calm c) i PaymentFailed reference s = (r, s')"
      by (simp add: Postgres_Transition_def)
    then show ?thesis
      unfolding Postgres_update_def
    proof (cases rule: statement_cases)
      case aborted
      with inv show ?thesis by simp
    next
      case (committed a)
      from got obtain row where row: "t_payments s i = Some row" "abs_payment val p = abs_payment val (row_payment [] row)"
        by auto
      define row' where "row' = row\<lparr>py_status := PaymentFailed, py_provider_reference := nullif reference\<rparr>"
      from committed(1) obtain s1 where s1: "update_payment D P i (\<lambda>r. r\<lparr>py_status := PaymentFailed,
          py_provider_reference := nullif reference\<rparr>) s = Inr ((), s1)" "lock_payment P i s1 = Inr (a, s')" by auto
      have s': "s' = s\<lparr>t_payments := (t_payments s)(i \<mapsto> row')\<rparr>"
        using update_payment_ok [OF s1(1) canon row(1)] lock_payment_ok [OF s1(2) canon] by (simp add: row'_def)
      have "pg_inv D val s'"
        using inv row(1) unfolding s' by (auto simp: pg_inv_def row_amounts_ok_def row'_def)
      moreover have "transition_table (bp_status (abs_payment val p)) PaymentFailed"
        using True by (simp add: CanTransition_def)
      moreover have "abs_payment val (row_payment [] row') = (abs_payment val p)\<lparr>bp_status := PaymentFailed\<rparr>"
        using row(2) by (simp add: row'_def abs_payment_def row_payment_def)
      ultimately show ?thesis
        using got unfolding s' by (auto simp: absP_def set_defs fun_eq_iff intro!: outcome_all)
    qed
  qed
qed

text \<open>The amounts a commit writes fit their columns, so the rows hold them exactly.\<close>

lemma commit_amounts_fit:
  assumes row: "fits (py_amount r)" "fits (py_captured_amount r)" "fits (py_refunded_amount r)" "row_amounts_ok D r"
    and a: "fits a"
  shows "ValidateCapture D (row_payment i r) a = Inr () \<Longrightarrow> fits (decAdd D (py_captured_amount r) a)"
    and "ValidateRefund D (row_payment i r) a = Inr () \<Longrightarrow> fits (decAdd D (py_refunded_amount r) a)"
proof -
  note fit = row(1-3)
  have nonneg: "0 \<le> val (py_captured_amount r)" "0 \<le> val (py_refunded_amount r)"
    using row(4) by (auto simp: row_amounts_ok_def not_less)
  from fit have bound: "val (py_amount r) < 10 ^ 14" "val (py_captured_amount r) < 10 ^ 14"
    by (auto simp: numeric_fits_def)
  show "fits (decAdd D (py_captured_amount r) a)" if "ValidateCapture D (row_payment i r) a = Inr ()"
    using that nonneg bound fits_add [OF fit(2) a]
    by (auto simp: ValidateCapture_iff row_payment_def)
  show "fits (decAdd D (py_refunded_amount r) a)" if "ValidateRefund D (row_payment i r) a = Inr ()"
    using that nonneg bound fits_add [OF fit(3) a]
    by (auto simp: ValidateRefund_iff row_payment_def)
qed

lemma commit_payment_ok:
  assumes "commit_payment D cmd p = Inr p'"
  shows "commit_guard (cmd_Status cmd) (val (cmd_Amount cmd)) (abs_payment val p) \<and>
    abs_payment val p' = commit_effect (cmd_Status cmd) (val (cmd_Amount cmd)) (abs_payment val p) \<and>
    ValidateBalanced D (cmd_Ledger cmd) = Inr () \<and> p_ID p' = p_ID p \<and>
    p_MerchantID p' = p_MerchantID p \<and> p_Currency p' = p_Currency p \<and> p_Amount p' = p_Amount p \<and>
    p_Status p' = cmd_Status cmd \<and>
    (p_CapturedAmount p' = p_CapturedAmount p \<or> ValidateCapture D p (cmd_Amount cmd) = Inr () \<and>
       p_CapturedAmount p' = decAdd D (p_CapturedAmount p) (cmd_Amount cmd)) \<and>
    (p_RefundedAmount p' = p_RefundedAmount p \<or> ValidateRefund D p (cmd_Amount cmd) = Inr () \<and>
       p_RefundedAmount p' = decAdd D (p_RefundedAmount p) (cmd_Amount cmd))"
  using assms
  by (auto simp: commit_payment_def CanTransition_def commit_guard_def commit_effect_def abs_payment_def
      ValidateCapture_iff ValidateRefund_iff Let_def split: if_splits sum.splits)

lemma write_payment_ok:
  assumes "write_payment D P p s = Inr (u, s')" "canonical_id P (p_ID p)" "t_payments s (p_ID p) = Some r"
    and "fits (p_CapturedAmount p)" "fits (p_RefundedAmount p)"
    and "p_MerchantID p = py_merchant_id r" "p_Currency p = py_currency r" "p_Amount p = py_amount r"
  shows "\<exists>row'. s' = s\<lparr>t_payments := (t_payments s)(p_ID p \<mapsto> row')\<rparr> \<and>
    abs_payment val (row_payment [] row') = abs_payment val p \<and> row_amounts_ok D row' \<and>
    py_amount row' = py_amount r \<and> fits (py_captured_amount row') \<and> fits (py_refunded_amount row')"
proof -
  from assms(1) obtain x y where xy: "pg_numeric P (p_CapturedAmount p) = Some x" "pg_numeric P (p_RefundedAmount p) = Some y"
    "update_payment D P (p_ID p) (\<lambda>r. r\<lparr>py_status := p_Status p, py_captured_amount := x,
         py_refunded_amount := y, py_provider_reference := nullif (p_ProviderReference p)\<rparr>) s = Inr ((), s')"
    by (auto simp: write_payment_def)
  note upd = update_payment_ok [OF xy(3) assms(2,3)]
  have "val x = val (p_CapturedAmount p)" "val y = val (p_RefundedAmount p)"
    using numeric_exact assms(4,5) xy(1,2) by blast+
  then show ?thesis
    using upd assms(6-8) numeric_range [OF xy(1)] numeric_range [OF xy(2)]
    by (intro exI [of _ "r\<lparr>py_status := p_Status p, py_captured_amount := x, py_refunded_amount := y,
        py_provider_reference := nullif (p_ProviderReference p)\<rparr>"]) (auto simp: abs_payment_def row_payment_def)
qed

lemma pg_commit_ok:
  assumes inv: "pg_inv D val s" and call: "Postgres_CommitPaymentCommand D P c cmd s = (r, s')"
    and made: "\<not> (isl r \<and> s' = s)"
    and canon: "canonical_id P (cmd_PaymentID cmd)" "canonical_id P (ev_ID (cmd_Event cmd))"
      "canonical_entries P True (cmd_Ledger cmd)"
    and fit: "entries_repr fits (cmd_Ledger cmd)" "fits (cmd_Amount cmd)"
  obtains p row' where "b_payments (absP val s) (cmd_PaymentID cmd) = Some p"
    and "commit_guard (cmd_Status cmd) (val (cmd_Amount cmd)) p"
    and "abs_payment val (row_payment [] row') = commit_effect (cmd_Status cmd) (val (cmd_Amount cmd)) p"
    and "ValidateBalanced D (cmd_Ledger cmd) = Inr ()"
    and "pg_inv D val (s\<lparr>t_payments := (t_payments s)(cmd_PaymentID cmd \<mapsto> row')\<rparr>)"
    and "recorded (cmd_Ledger cmd) (ev_ID (cmd_Event cmd))
      (s\<lparr>t_payments := (t_payments s)(cmd_PaymentID cmd \<mapsto> row')\<rparr>) s'"
proof -
  let ?i = "cmd_PaymentID cmd"
  from call [unfolded Postgres_CommitPaymentCommand_def] obtain p p' s0 s1 s2 where
    run: "lock_payment P ?i s = Inr (p, s0)" "commit_payment D cmd p = Inr p'"
      "write_payment D P p' s0 = Inr ((), s1)" "insert_entries D P c 5 True (cmd_Ledger cmd) s1 = Inr ((), s2)"
      "insert_event P (cx_now c) (ev_ID (cmd_Event cmd)) (p_ID p') (cmd_Event cmd) s2 = Inr ((), s')"
    by (cases rule: transaction_cases) (use made in auto)
  from lock_payment_ok [OF run(1) canon(1)] obtain r where
    r: "t_payments s ?i = Some r" "p = row_payment ?i r" and s0: "s0 = s" by blast
  note ok = commit_payment_ok [OF run(2)]
  have ident: "p_ID p' = ?i" and same: "p_MerchantID p' = py_merchant_id r" "p_Currency p' = py_currency r"
    "p_Amount p' = py_amount r"
    using ok r(2) by (simp_all add: row_payment_def)
  have at: "canonical_id P (p_ID p')" "t_payments s (p_ID p') = Some r"
    using ident canon(1) r(1) by simp_all
  have "fits (p_CapturedAmount p')" "fits (p_RefundedAmount p')"
    using ok commit_amounts_fit [of r "cmd_Amount cmd" ?i] fit(2) inv r by (auto simp: pg_inv_def row_payment_def)
  from write_payment_ok [OF run(3) [unfolded s0] at this same, unfolded ident] obtain row' where
    "s1 = s\<lparr>t_payments := (t_payments s)(?i \<mapsto> row')\<rparr> \<and>
      abs_payment val (row_payment [] row') = abs_payment val p' \<and> row_amounts_ok D row' \<and>
      py_amount row' = py_amount r \<and> fits (py_captured_amount row') \<and> fits (py_refunded_amount row')" ..
  then have row': "s1 = s\<lparr>t_payments := (t_payments s)(?i \<mapsto> row')\<rparr>"
    "abs_payment val (row_payment [] row') = abs_payment val p'" "row_amounts_ok D row'"
    "py_amount row' = py_amount r" "fits (py_captured_amount row')" "fits (py_refunded_amount row')" by simp_all
  show thesis
  proof (rule that)
    show "b_payments (absP val s) ?i = Some (abs_payment val p)"
      using abs_row_payment [of val ?i r] r by simp
    show "pg_inv D val (s\<lparr>t_payments := (t_payments s)(?i \<mapsto> row')\<rparr>)"
      using inv row' r(1) by (auto simp: pg_inv_def)
    show "recorded (cmd_Ledger cmd) (ev_ID (cmd_Event cmd)) (s\<lparr>t_payments := (t_payments s)(?i \<mapsto> row')\<rparr>) s'"
      using recordedI [OF run(4,5) canon(3) fit(1) canon(2)] by (simp add: row'(1))
  qed (use ok row'(2) in simp_all)
qed

lemma pg_commit:
  assumes inv: "pg_inv D val s" and call: "Postgres_CommitPaymentCommand D P c cmd s = (r, s')"
    and canon: "canonical_id P (cmd_PaymentID cmd)" "canonical_id P (ev_ID (cmd_Event cmd))"
      "canonical_entries P True (cmd_Ledger cmd)"
    and fit: "entries_repr fits (cmd_Ledger cmd)" "fits (cmd_Amount cmd)"
  shows "pg_inv D val s' \<and>
     outcome r (absP val s' = absP val s \<and> dom (t_outbox s') = dom (t_outbox s))
       (dom (t_outbox s') = insert (ev_ID (cmd_Event cmd)) (dom (t_outbox s)) \<and>
         ValidateBalanced D (cmd_Ledger cmd) = Inr () \<and>
         (\<exists>p. b_payments (absP val s) (cmd_PaymentID cmd) = Some p \<and>
           commit_guard (cmd_Status cmd) (val (cmd_Amount cmd)) p \<and>
           absP val s' = record_entries (map (abs_entry val) (cmd_Ledger cmd))
             (set_payment (cmd_PaymentID cmd)
               (commit_effect (cmd_Status cmd) (val (cmd_Amount cmd)) p) (absP val s))))"
proof (cases "isl r \<and> s' = s")
  case True
  with inv show ?thesis by (simp add: outcome_def)
next
  case False
  let ?s1 = "\<lambda>row'. s\<lparr>t_payments := (t_payments s)(cmd_PaymentID cmd \<mapsto> row')\<rparr>"
  from pg_commit_ok [OF inv call False canon fit] obtain p row' where
    ok: "b_payments (absP val s) (cmd_PaymentID cmd) = Some p"
    "commit_guard (cmd_Status cmd) (val (cmd_Amount cmd)) p"
    "abs_payment val (row_payment [] row') = commit_effect (cmd_Status cmd) (val (cmd_Amount cmd)) p"
    "ValidateBalanced D (cmd_Ledger cmd) = Inr ()" "pg_inv D val (?s1 row')"
    "recorded (cmd_Ledger cmd) (ev_ID (cmd_Event cmd)) (?s1 row') s'" by blast
  have fin: "finite (dom (t_outbox (?s1 row')))" using inv by (simp add: pg_inv_def)
  have "absP val (?s1 row') = set_payment (cmd_PaymentID cmd)
      (commit_effect (cmd_Status cmd) (val (cmd_Amount cmd)) p) (absP val s)"
    by (simp add: absP_def set_defs ok(3))
  with recorded_abs [OF ok(6) fin] ok show ?thesis by (auto intro!: outcome_all)
qed

end

end
