(* ===== verification/Postgres_Records.thy ===== *)
theory Postgres_Records
  imports Postgres_Contract
begin

text \<open>
  Payouts, disputes, the outbox and the webhook registry of the PostgreSQL store, and the
  contract of the whole store: \<open>canonicalStore\<close> keeps \<open>store_contract\<close>, so that everything proved
  over a store that keeps it holds for PostgreSQL.
\<close>

lemma canonicalStore_simps [simp]:
  "S_CreatePayment (canonicalStore D P) c p key =
     guarded (canonical_id P (p_ID p) \<and> canonical_currency P (p_Currency p)) (Postgres_CreatePayment D P (calm c) p key)"
  "S_GetPayment (canonicalStore D P) c i s =
     (if canonical_id P i then Postgres_GetPayment P c i s else Inl (Err ''not canonical''))"
  "S_Transition (canonicalStore D P) c i to reference =
     guarded (canonical_id P i) (Postgres_Transition D P (calm c) i to reference)"
  "S_CommitPaymentCommand (canonicalStore D P) c cmd =
     guarded (canonical_id P (cmd_PaymentID cmd) \<and> canonical_id P (ev_ID (cmd_Event cmd)) \<and>
         canonical_entries P True (cmd_Ledger cmd))
       (Postgres_CommitPaymentCommand D P c cmd)"
  "S_CreatePayout (canonicalStore D P) c po es ev =
     guarded (canonical_id P (po_ID po) \<and> canonical_currency P (po_Currency po) \<and> canonical_id P (ev_ID ev) \<and>
         canonical_entries P False es)
       (Postgres_CreatePayout D P (calm c) po es ev)"
  "S_GetPayout (canonicalStore D P) c i s =
     (if canonical_id P i then Postgres_GetPayout P c i s else Inl (Err ''not canonical''))"
  "S_TransitionPayout (canonicalStore D P) c i status reference es ev =
     guarded (canonical_id P i \<and> canonical_id P (ev_ID ev) \<and> canonical_entries P False es)
       (Postgres_TransitionPayout D P c i status reference es ev)"
  "S_CreateDispute (canonicalStore D P) c d es ev =
     guarded (canonical_id P (di_ID d) \<and> canonical_id P (di_PaymentID d) \<and>
         canonical_currency P (di_Currency d) \<and> canonical_id P (ev_ID ev) \<and> canonical_entries P True es)
       (Postgres_CreateDispute D P c d es ev)"
  "S_GetDispute (canonicalStore D P) c i s =
     (if canonical_id P i then Postgres_GetDispute P c i s else Inl (Err ''not canonical''))"
  "S_ResolveDispute (canonicalStore D P) c i dstatus es ev =
     guarded (canonical_id P i \<and> canonical_id P (ev_ID ev) \<and> canonical_entries P True es)
       (Postgres_ResolveDispute D P c i dstatus es ev)"
  "S_ClaimOutbox (canonicalStore D P) = Postgres_ClaimOutbox"
  "S_MarkPublished (canonicalStore D P) = Postgres_MarkPublished P"
  "S_RegisterWebhook (canonicalStore D P) = Postgres_RegisterWebhook P"
  by (simp_all add: canonicalStore_def)

lemma guarded_cases:
  assumes "guarded ok f s = (r, s')"
  obtains (refused) e where "\<not> ok" "r = Inl e" "s' = s" | (called) "ok" "f s = (r, s')"
  using assms by (auto simp: guarded_def split: if_splits)

context pg_laws
begin

section \<open>Payouts\<close>

lemma foldl_balance:
  "val (foldl (\<lambda>b r. decAdd D b (decSub D (lr_credit r) (lr_debit r))) b rows) =
     val b + sum_list (map (\<lambda>r. val (lr_credit r) - val (lr_debit r)) rows)"
  by (induction rows arbitrary: b) simp_all

lemma select_balance_ok:
  assumes "select_balance D P account cur s = Inr (x, s')" "canonical_currency P cur"
  shows "s' = s \<and> val x = bal (absP val s) account cur"
proof -
  have eq: "sum_list (map (\<lambda>r. val (lr_credit r) - val (lr_debit r))
        (filter (\<lambda>r. lr_account_id r = account \<and> lr_currency r = cur) rows)) =
      posting_sum (\<lambda>p. pst_account p = account \<and> pst_currency p = cur) (map (abs_ledger_row val) rows)" for rows
    by (induction rows) (simp_all add: posting_sum_def abs_ledger_row_def)
  from assms show ?thesis
    by (auto simp: select_balance_def canonical_currency_def foldl_balance bal_def eq [symmetric])
qed

lemma select_payout_ok:
  assumes "select_payout P i s = Inr (p, s')" "canonical_id P i"
  shows "s' = s \<and> (\<exists>r. t_payouts s i = Some r \<and> p = row_payout i r)"
  using assms by (auto simp: select_payout_def canonical_id_def split: option.splits)

lemma pg_get_payout:
  assumes "pg_inv D val s" "Postgres_GetPayout P c i s = Inr p" "canonical_id P i"
  shows "fits (po_Amount p) \<and> b_payouts (absP val s) i = Some (abs_payout val p)"
proof -
  from assms(2) obtain s' where "select_payout P i s = Inr (p, s')"
    by (auto simp: Postgres_GetPayout_def exec_def split: option.splits sum.splits)
  from select_payout_ok [OF this assms(3)] obtain r where r: "t_payouts s i = Some r" "p = row_payout i r" by blast
  with assms(1) abs_row_payout [of val i r] show ?thesis by (auto simp: pg_inv_def row_payout_def)
qed

lemma insert_payout_ok:
  assumes "insert_payout D P p s = Inr (u, s')" "canonical_id P (po_ID p)" "canonical_currency P (po_Currency p)"
    and "fits (po_Amount p)" "pg_inv D val s"
  shows "absP val s' = set_payout (po_ID p) (abs_payout val p) (absP val s) \<and> pg_inv D val s' \<and>
    t_outbox s' = t_outbox s"
proof -
  from assms(1-3) obtain y where y: "pg_numeric P (po_Amount p) = Some y"
    "s' = s\<lparr>t_payouts := (t_payouts s)(po_ID p \<mapsto> \<lparr>yo_merchant_id = po_MerchantID p,
       yo_currency = po_Currency p, yo_amount = y, yo_status = po_Status p, yo_provider_reference = None\<rparr>)\<rparr>"
    by (auto simp: insert_payout_def canonical_id_def canonical_currency_def split: if_splits)
  with assms(5) numeric_range [OF y(1)] numeric_exact [OF assms(4) y(1)] show ?thesis
    by (auto simp: pg_inv_def absP_def set_defs abs_payout_def row_payout_def fun_eq_iff)
qed

lemma finite_events: "pg_inv D val s \<Longrightarrow> finite (dom (t_outbox s))"
  by (simp add: pg_inv_def)

lemma insert_payout_call:
  assumes inv: "pg_inv D val s" and call: "Postgres_insertPayout D P c po es ev s = (r, s')"
    and canon: "canonical_id P (po_ID po)" "canonical_currency P (po_Currency po)" "canonical_id P (ev_ID ev)"
      "canonical_entries P False es"
    and fit: "entries_repr fits es" "fits (po_Amount po)"
  shows "pg_inv D val s' \<and>
     outcome r (absP val s' = absP val s \<and> dom (t_outbox s') = dom (t_outbox s))
       (dom (t_outbox s') = insert (ev_ID ev) (dom (t_outbox s)) \<and>
         absP val s' = record_entries (map (abs_entry val) es)
           (set_payout (po_ID po) (abs_payout val po) (absP val s)))"
  using call unfolding Postgres_insertPayout_def
proof (cases rule: transaction_cases)
  case aborted
  with inv show ?thesis by simp
next
  case (committed a)
  then obtain s1 s2 where
    run: "insert_payout D P po s = Inr ((), s1)" "insert_entries D P c 6 False es s1 = Inr ((), s2)"
      "insert_event P (cx_now c) (ev_ID ev) (po_ID po) ev s2 = Inr ((), s')"
    by auto
  note s1 = insert_payout_ok [OF run(1) canon(1,2) fit(2) inv]
  then have "finite (dom (t_outbox s1))" by (blast intro: finite_events)
  from recorded_abs [OF recordedI [OF run(2,3) canon(4) fit(1) canon(3)] this] s1
  show ?thesis by (simp add: outcome_all)
qed

lemma read_available_ok:
  assumes "Postgres_readAvailable D P c po es s = Inr (u, s')" "canonical_currency P (po_Currency po)"
  shows "val (po_Amount po) \<le> bal (absP val s) (acct_available (po_MerchantID po)) (po_Currency po)"
proof -
  from assms(1) obtain b s0 where "select_balance D P (acct_available (po_MerchantID po)) (po_Currency po) s = Inr (b, s0)"
    "\<not> decLessThan D b (po_Amount po)" by (auto simp: Postgres_readAvailable_def)
  with select_balance_ok [OF this(1) assms(2)] show ?thesis by simp
qed

lemma pg_create_payout:
  assumes inv: "pg_inv D val s" and call: "Postgres_CreatePayout D P (calm c) po es ev s = (r, s')"
    and canon: "canonical_id P (po_ID po)" "canonical_currency P (po_Currency po)" "canonical_id P (ev_ID ev)"
      "canonical_entries P False es"
    and fit: "entries_repr fits es" "fits (po_Amount po)"
  shows "pg_inv D val s' \<and>
     outcome r (absP val s' = absP val s \<and> dom (t_outbox s') = dom (t_outbox s))
       (dom (t_outbox s') = insert (ev_ID ev) (dom (t_outbox s)) \<and>
         val (po_Amount po) \<le> bal (absP val s) (acct_available (po_MerchantID po)) (po_Currency po) \<and>
         absP val s' = record_entries (map (abs_entry val) es)
           (set_payout (po_ID po) (abs_payout val po) (absP val s)))"
proof (cases "exec (calm c) 0 (Postgres_readAvailable D P (calm c) po es) s")
  case (Inl e)
  with call inv show ?thesis by (auto simp: Postgres_CreatePayout_def)
next
  case (Inr x)
  then have "Postgres_readAvailable D P (calm c) po es s = Inr (fst x, snd x)"
    by (cases x) simp
  note covered = read_available_ok [OF this canon(2)]
  from call Inr have "Postgres_insertPayout D P (calm c) po es ev s = (r, s')"
    by (simp add: Postgres_CreatePayout_def)
  from insert_payout_call [OF inv this canon fit] covered show ?thesis by (auto simp: outcome_def)
qed

lemma update_payout_ok:
  assumes "update_payout P i f s = Inr (u, s')" "canonical_id P i" "t_payouts s i = Some r"
  shows "s' = s\<lparr>t_payouts := (t_payouts s)(i \<mapsto> f r)\<rparr>"
  using assms by (auto simp: update_payout_def canonical_id_def)

lemma pg_transition_payout:
  assumes inv: "pg_inv D val s" and call: "Postgres_TransitionPayout D P c i status reference es ev s = (r, s')"
    and canon: "canonical_id P i" "canonical_id P (ev_ID ev)" "canonical_entries P False es"
    and fit: "entries_repr fits es"
  shows "pg_inv D val s' \<and>
     outcome r (absP val s' = absP val s \<and> dom (t_outbox s') = dom (t_outbox s))
       (dom (t_outbox s') = insert (ev_ID ev) (dom (t_outbox s)) \<and> status \<noteq> PayoutPending \<and>
         (\<exists>q. b_payouts (absP val s) i = Some q \<and> bo_status q = PayoutPending \<and>
           absP val s' = record_entries (map (abs_entry val) es)
             (set_payout i (q\<lparr>bo_status := status\<rparr>) (absP val s))))"
  using call unfolding Postgres_TransitionPayout_def
proof (cases rule: transaction_cases)
  case aborted
  with inv show ?thesis by simp
next
  case (committed a)
  define f where "f = (\<lambda>r :: 'd PayoutRow. r\<lparr>yo_status := status, yo_provider_reference := nullif reference\<rparr>)"
  from committed obtain p s0 s1 s2 where
    run: "select_payout P i s = Inr (p, s0)" "po_Status p = PayoutPending" "status = PayoutPaid \<or> status = PayoutFailed"
      "update_payout P i f s0 = Inr ((), s1)" "insert_entries D P c 5 False es s1 = Inr ((), s2)"
      "insert_event P (cx_now c) (ev_ID ev) i ev s2 = Inr ((), s')"
    by (auto simp: f_def)
  from select_payout_ok [OF run(1) canon(1)] obtain r0 where
    r0: "t_payouts s i = Some r0" "p = row_payout i r0" and s0: "s0 = s" by blast
  have s1: "s1 = s\<lparr>t_payouts := (t_payouts s)(i \<mapsto> f r0)\<rparr>"
    using update_payout_ok [OF run(4) canon(1)] r0(1) s0 by simp
  have inv1: "pg_inv D val s1" using inv r0(1) by (auto simp: s1 pg_inv_def f_def)
  have "absP val s1 = set_payout i ((abs_payout val (row_payout [] r0))\<lparr>bo_status := status\<rparr>) (absP val s)"
    by (auto simp: s1 f_def absP_def set_defs abs_payout_def row_payout_def fun_eq_iff)
  with recorded_abs [OF recordedI [OF run(5,6) canon(3) fit canon(2)] finite_events [OF inv1]]
    inv1 r0 run(2,3)
  show ?thesis by (auto simp: s1 row_payout_def intro!: outcome_all)
qed

section \<open>Disputes\<close>

lemma select_dispute_ok:
  assumes "select_dispute P i s = Inr (d, s')" "canonical_id P i"
  shows "s' = s \<and> (\<exists>r. t_disputes s i = Some r \<and> d = row_dispute i r)"
  using assms by (auto simp: select_dispute_def canonical_id_def split: option.splits)

lemma pg_get_dispute:
  assumes "pg_inv D val s" "Postgres_GetDispute P c i s = Inr d" "canonical_id P i"
  shows "fits (di_Amount d) \<and> b_disputes (absP val s) i = Some (abs_dispute val d)"
proof -
  from assms(2) obtain s' where "select_dispute P i s = Inr (d, s')"
    by (auto simp: Postgres_GetDispute_def exec_def split: option.splits sum.splits)
  from select_dispute_ok [OF this assms(3)] obtain r where r: "t_disputes s i = Some r" "d = row_dispute i r" by blast
  with assms(1) abs_row_dispute [of val i r] show ?thesis by (auto simp: pg_inv_def row_dispute_def)
qed

lemma insert_dispute_ok:
  assumes "insert_dispute D P d s = Inr (u, s')" "canonical_id P (di_ID d)" "canonical_id P (di_PaymentID d)"
    "canonical_currency P (di_Currency d)" and "fits (di_Amount d)" "pg_inv D val s"
  shows "absP val s' = set_dispute (di_ID d) (abs_dispute val d) (absP val s) \<and> pg_inv D val s' \<and>
    t_outbox s' = t_outbox s \<and> t_disputes s (di_ID d) = None"
proof -
  from assms(1-4) obtain y where y: "pg_numeric P (di_Amount d) = Some y" "t_disputes s (di_ID d) = None"
    "s' = s\<lparr>t_disputes := (t_disputes s)(di_ID d \<mapsto> \<lparr>dr_payment_id = di_PaymentID d,
       dr_merchant_id = di_MerchantID d, dr_currency = di_Currency d, dr_amount = y,
       dr_reason = di_Reason d, dr_status = di_Status d\<rparr>)\<rparr>"
    by (auto simp: insert_dispute_def canonical_id_def canonical_currency_def split: if_splits)
  with assms(6) numeric_range [OF y(1)] numeric_exact [OF assms(5) y(1)] show ?thesis
    by (auto simp: pg_inv_def absP_def set_defs abs_dispute_def row_dispute_def fun_eq_iff)
qed

lemma pg_create_dispute:
  assumes inv: "pg_inv D val s" and call: "Postgres_CreateDispute D P c d es ev s = (r, s')"
    and canon: "canonical_id P (di_ID d)" "canonical_id P (di_PaymentID d)" "canonical_currency P (di_Currency d)"
      "canonical_id P (ev_ID ev)" "canonical_entries P True es"
    and fit: "entries_repr fits es" "fits (di_Amount d)"
  shows "pg_inv D val s' \<and>
     outcome r (absP val s' = absP val s \<and> dom (t_outbox s') = dom (t_outbox s))
       (dom (t_outbox s') = insert (ev_ID ev) (dom (t_outbox s)) \<and> b_disputes (absP val s) (di_ID d) = None \<and>
         absP val s' = record_entries (map (abs_entry val) es)
           (set_dispute (di_ID d) (abs_dispute val d) (absP val s)))"
  using call unfolding Postgres_CreateDispute_def
proof (cases rule: transaction_cases)
  case aborted
  with inv show ?thesis by simp
next
  case (committed a)
  then obtain s1 s2 where
    run: "insert_dispute D P d s = Inr ((), s1)" "insert_entries D P c 4 True es s1 = Inr ((), s2)"
      "insert_event P (cx_now c) (ev_ID ev) (di_ID d) ev s2 = Inr ((), s')"
    by auto
  note s1 = insert_dispute_ok [OF run(1) canon(1-3) fit(2) inv]
  then have "finite (dom (t_outbox s1))" by (blast intro: finite_events)
  from recorded_abs [OF recordedI [OF run(2,3) canon(5) fit(1) canon(4)] this] s1
  show ?thesis by (simp add: outcome_all)
qed

lemma pg_resolve_dispute:
  assumes inv: "pg_inv D val s" and call: "Postgres_ResolveDispute D P c i status es ev s = (r, s')"
    and canon: "canonical_id P i" "canonical_id P (ev_ID ev)" "canonical_entries P True es"
    and fit: "entries_repr fits es"
  shows "pg_inv D val s' \<and>
     outcome r (absP val s' = absP val s \<and> dom (t_outbox s') = dom (t_outbox s))
       (dom (t_outbox s') = insert (ev_ID ev) (dom (t_outbox s)) \<and> status \<noteq> DisputeOpen \<and>
         (\<exists>d. b_disputes (absP val s) i = Some d \<and> bd_status d = DisputeOpen \<and>
           absP val s' = record_entries (map (abs_entry val) es)
             (set_dispute i (d\<lparr>bd_status := status\<rparr>) (absP val s))))"
  using call unfolding Postgres_ResolveDispute_def
proof (cases rule: transaction_cases)
  case aborted
  with inv show ?thesis by simp
next
  case (committed a)
  then obtain d s0 s1 s2 where
    run: "select_dispute P i s = Inr (d, s0)" "di_Status d = DisputeOpen" "status = DisputeWon \<or> status = DisputeLost"
      "s1 = s0\<lparr>t_disputes := (t_disputes s0)(i := map_option (\<lambda>r. r\<lparr>dr_status := status\<rparr>) (t_disputes s0 i))\<rparr>"
      "insert_entries D P c 5 True es s1 = Inr ((), s2)"
      "insert_event P (cx_now c) (ev_ID ev) i ev s2 = Inr ((), s')"
    using canon(1) by (auto simp: canonical_id_def)
  from select_dispute_ok [OF run(1) canon(1)] obtain r0 where
    r0: "t_disputes s i = Some r0" "d = row_dispute i r0" and s0: "s0 = s" by blast
  have s1: "s1 = s\<lparr>t_disputes := (t_disputes s)(i \<mapsto> r0\<lparr>dr_status := status\<rparr>)\<rparr>"
    using run(4) r0(1) s0 by simp
  have inv1: "pg_inv D val s1" using inv r0(1) by (auto simp: s1 pg_inv_def)
  have "absP val s1 = set_dispute i ((abs_dispute val (row_dispute [] r0))\<lparr>bd_status := status\<rparr>) (absP val s)"
    by (auto simp: s1 absP_def set_defs abs_dispute_def row_dispute_def fun_eq_iff)
  with recorded_abs [OF recordedI [OF run(5,6) canon(3) fit canon(2)] finite_events [OF inv1]]
    inv1 r0 run(2,3)
  show ?thesis by (auto simp: s1 row_dispute_def intro!: outcome_all)
qed

section \<open>Outbox and webhook registry\<close>

text \<open>None of the three changes the book or the set of events.\<close>

lemma outbox_update_abs:
  assumes "pg_inv D val s" "dom m = dom (t_outbox s)"
  shows "pg_inv D val (s\<lparr>t_outbox := m\<rparr>) \<and> absP val (s\<lparr>t_outbox := m\<rparr>) = absP val s"
  using assms by (simp add: pg_inv_def absP_def)

lemma pg_claim:
  assumes "pg_inv D val s" "Postgres_ClaimOutbox c n s = (r, s')"
  shows "pg_inv D val s' \<and> dom (t_outbox s') = dom (t_outbox s) \<and> absP val s' = absP val s"
  using assms(2) unfolding Postgres_ClaimOutbox_def
proof (cases rule: statement_cases)
  case aborted
  with assms(1) show ?thesis by simp
next
  case (committed a)
  then obtain ids where s': "s' = s\<lparr>t_outbox := (\<lambda>i. if i \<in> ids
      then map_option (\<lambda>r. r\<lparr>or_claimed_at := Some (cx_now c)\<rparr>) (t_outbox s i) else t_outbox s i)\<rparr>"
    by (auto simp: Let_def split: if_splits)
  have "dom (t_outbox s') = dom (t_outbox s)" by (auto simp: s' dom_def)
  with outbox_update_abs [OF assms(1), of "t_outbox s'"] show ?thesis by (simp add: s')
qed

lemma pg_mark_published:
  assumes "pg_inv D val s" "Postgres_MarkPublished P c i s = (r, s')"
  shows "pg_inv D val s' \<and> dom (t_outbox s') = dom (t_outbox s) \<and> absP val s' = absP val s"
  using assms(2) unfolding Postgres_MarkPublished_def
proof (cases rule: statement_cases)
  case aborted
  with assms(1) show ?thesis by simp
next
  case (committed a)
  then obtain j where s': "s' = s\<lparr>t_outbox := (t_outbox s)(j :=
      map_option (\<lambda>r. r\<lparr>or_published_at := Some (cx_now c)\<rparr>) (t_outbox s j))\<rparr>" by auto
  have "dom (t_outbox s') = dom (t_outbox s)" by (auto simp: s' dom_def)
  with outbox_update_abs [OF assms(1), of "t_outbox s'"] show ?thesis by (simp add: s')
qed

lemma pg_register:
  assumes "pg_inv D val s" "Postgres_RegisterWebhook P c i s = (r, s')"
  shows "pg_inv D val s' \<and> dom (t_outbox s') = dom (t_outbox s) \<and> absP val s' = absP val s"
  using assms(2) unfolding Postgres_RegisterWebhook_def
  by (cases rule: statement_cases) (use assms(1) in \<open>auto simp: pg_inv_def absP_def\<close>)

end

section \<open>The contract\<close>

sublocale pg_laws \<subseteq> pg: store_contract D val "canonicalStore D P" "absP val" "pg_inv D val"
  "\<lambda>s. dom (t_outbox s)" "\<lambda>x. numeric_fits (val x)"
proof (unfold_locales, goal_cases)
  case 1
  then show ?case by (simp add: fits_zero)
next
  case 2
  then show ?case by (simp add: fits_zero)
next
  case (3 s c i p)
  then show ?case using pg_get_payment by (simp split: if_splits)
next
  case (4 s c i po)
  then show ?case using pg_get_payout by (simp split: if_splits)
next
  case (5 s c i di)
  then show ?case using pg_get_dispute by (simp split: if_splits)
next
  case (6 s c p key r0 s')
  from 6(2) [unfolded canonicalStore_simps] show ?case
    by (cases rule: guarded_cases) (use 6 pg_create_payment in auto)
next
  case (7 s c i reference r s')
  from 7(2) [unfolded canonicalStore_simps] show ?case
    by (cases rule: guarded_cases) (use 7(1) pg_fail_payment in auto)
next
  case (8 s c cmd r s')
  from 8(2) [unfolded canonicalStore_simps] show ?case
  proof (cases rule: guarded_cases)
    case called
    then show ?thesis using pg_commit [OF 8(1) called(2)] 8(4,5) by simp
  qed (use 8(1) in simp)
next
  case (9 s c po es ev rp s')
  from 9(2) [unfolded canonicalStore_simps] show ?case
  proof (cases rule: guarded_cases)
    case called
    then show ?thesis using pg_create_payout [OF 9(1) called(2)] 9(5,6) by simp
  qed (use 9(1) in simp)
next
  case (10 s c i pst reference es ev rp s')
  from 10(2) [unfolded canonicalStore_simps] show ?case
  proof (cases rule: guarded_cases)
    case called
    then show ?thesis using pg_transition_payout [OF 10(1) called(2)] 10(4) by simp
  qed (use 10(1) in simp)
next
  case (11 s c di es ev rd s')
  from 11(2) [unfolded canonicalStore_simps] show ?case
  proof (cases rule: guarded_cases)
    case called
    then show ?thesis using pg_create_dispute [OF 11(1) called(2)] 11(4,5) by simp
  qed (use 11(1) in simp)
next
  case (12 s c i dst es ev rd s')
  from 12(2) [unfolded canonicalStore_simps] show ?case
  proof (cases rule: guarded_cases)
    case called
    then show ?thesis using pg_resolve_dispute [OF 12(1) called(2)] 12(4) by simp
  qed (use 12(1) in simp)
next
  case (13 s c n r' s')
  then show ?case using pg_claim by simp
next
  case (14 s c i u s')
  then show ?case using pg_mark_published by simp
next
  case (15 s c i w s')
  then show ?case using pg_register by simp
qed

end
