(* ===== verification/Postgres_Schema.thy ===== *)
theory Postgres_Schema
  imports Postgres_Records
begin

text \<open>
  The schema of src/migrations as a type invariant of the tables: primary keys and foreign keys,
  the column types and the check constraints. Every statement keeps it, so every method of the
  PostgreSQL store does, whatever its arguments, whatever fails and whatever other transactions
  commit in between.
\<close>

section \<open>The schema\<close>

definition payment_row_ok :: "'d decimal_pkg \<Rightarrow> 'd Pg \<Rightarrow> ('d \<Rightarrow> rat) \<Rightarrow> string \<Rightarrow> 'd PaymentRow \<Rightarrow> bool" where
  "payment_row_ok D P val i r \<longleftrightarrow>
     canonical_id P i \<and> pg_text P (py_merchant_id r) \<and> pg_text P (py_customer_id r) \<and>
     canonical_currency P (py_currency r) \<and> py_status r \<noteq> PaymentStatusZero \<and>
     numeric_fits (val (py_amount r)) \<and> numeric_fits (val (py_captured_amount r)) \<and>
     numeric_fits (val (py_refunded_amount r)) \<and>
     decGreaterThan D (py_amount r) (decZero D) \<and> row_amounts_ok D r"

definition ledger_row_ok ::
  "'d decimal_pkg \<Rightarrow> 'd Pg \<Rightarrow> ('d \<Rightarrow> rat) \<Rightarrow> (string \<rightharpoonup> 'd PaymentRow) \<Rightarrow> 'd LedgerRow \<Rightarrow> bool" where
  "ledger_row_ok D P val pays r \<longleftrightarrow>
     canonical_id P (lr_id r) \<and> (\<forall>i. lr_payment_id r = Some i \<longrightarrow> pays i \<noteq> None) \<and>
     pg_text P (lr_account_id r) \<and> canonical_currency P (lr_currency r) \<and>
     numeric_fits (val (lr_debit r)) \<and> numeric_fits (val (lr_credit r)) \<and>
     \<not> decIsNegative D (lr_debit r) \<and> \<not> decIsNegative D (lr_credit r) \<and>
     decIsZero D (lr_debit r) \<noteq> decIsZero D (lr_credit r)"

definition canonical_json :: "'d Pg \<Rightarrow> string \<Rightarrow> bool" where
  "canonical_json P t \<longleftrightarrow> pg_jsonb P t = Some t"

definition outbox_row_ok :: "'d Pg \<Rightarrow> string \<Rightarrow> OutboxRow \<Rightarrow> bool" where
  "outbox_row_ok P i r \<longleftrightarrow> canonical_id P i \<and> canonical_id P (or_aggregate_id r) \<and>
     pg_text P (or_event_type r) \<and> canonical_json P (or_payload r)"

definition payout_row_ok :: "'d decimal_pkg \<Rightarrow> 'd Pg \<Rightarrow> ('d \<Rightarrow> rat) \<Rightarrow> string \<Rightarrow> 'd PayoutRow \<Rightarrow> bool" where
  "payout_row_ok D P val i r \<longleftrightarrow>
     canonical_id P i \<and> pg_text P (yo_merchant_id r) \<and> canonical_currency P (yo_currency r) \<and>
     numeric_fits (val (yo_amount r)) \<and> decGreaterThan D (yo_amount r) (decZero D)"

definition dispute_row_ok ::
  "'d decimal_pkg \<Rightarrow> 'd Pg \<Rightarrow> ('d \<Rightarrow> rat) \<Rightarrow> (string \<rightharpoonup> 'd PaymentRow) \<Rightarrow> string \<Rightarrow> 'd DisputeRow \<Rightarrow> bool" where
  "dispute_row_ok D P val pays i r \<longleftrightarrow>
     canonical_id P i \<and> pays (dr_payment_id r) \<noteq> None \<and> pg_text P (dr_merchant_id r) \<and>
     canonical_currency P (dr_currency r) \<and> pg_text P (dr_reason r) \<and>
     numeric_fits (val (dr_amount r)) \<and> decGreaterThan D (dr_amount r) (decZero D)"

definition schema_ok :: "'d decimal_pkg \<Rightarrow> 'd Pg \<Rightarrow> ('d \<Rightarrow> rat) \<Rightarrow> 'd PgStore \<Rightarrow> bool" where
  "schema_ok D P val s \<longleftrightarrow>
     (\<forall>i r. t_payments s i = Some r \<longrightarrow> payment_row_ok D P val i r) \<and>
     (\<forall>k i. t_keys s k = Some i \<longrightarrow> pg_text P k \<and> t_payments s i \<noteq> None) \<and>
     (\<forall>r \<in> set (t_ledger s). ledger_row_ok D P val (t_payments s) r) \<and> distinct (map lr_id (t_ledger s)) \<and>
     (\<forall>i r. t_outbox s i = Some r \<longrightarrow> outbox_row_ok P i r) \<and>
     (\<forall>i. i \<in> t_webhooks s \<longrightarrow> pg_text P i) \<and>
     (\<forall>i r. t_payouts s i = Some r \<longrightarrow> payout_row_ok D P val i r) \<and>
     (\<forall>i r. t_disputes s i = Some r \<longrightarrow> dispute_row_ok D P val (t_payments s) i r)"

section \<open>Programs that keep an invariant\<close>

definition keeps :: "('s \<Rightarrow> bool) \<Rightarrow> ('s, 'a) stmt \<Rightarrow> bool" where
  "keeps Q m \<longleftrightarrow> (\<forall>s a s'. Q s \<longrightarrow> m s = Inr (a, s') \<longrightarrow> Q s')"

lemma keepsI: "(\<And>s a s'. Q s \<Longrightarrow> m s = Inr (a, s') \<Longrightarrow> Q s') \<Longrightarrow> keeps Q m"
  by (auto simp: keeps_def)

lemma keepsD: "keeps Q m \<Longrightarrow> m s = Inr (a, s') \<Longrightarrow> Q s \<Longrightarrow> Q s'"
  by (auto simp: keeps_def)

lemma keeps_andThen: "keeps Q m \<Longrightarrow> (\<And>a. keeps Q (f a)) \<Longrightarrow> keeps Q (andThen m f)"
  unfolding keeps_def andThen_Inr by blast

text \<open>A value that was checked or converted is known in the rest of the program.\<close>

lemma keeps_lift: "(\<And>a. r = Inr a \<Longrightarrow> keeps Q (f a)) \<Longrightarrow> keeps Q (andThen (lift r) f)"
  by (auto simp: keeps_def)

lemma keeps_check: "(ok \<Longrightarrow> keeps Q (f ())) \<Longrightarrow> keeps Q (andThen (check ok e) f)"
  by (auto simp: keeps_def)

lemma keeps_give: "keeps Q (give a)"
  by (auto simp: keeps_def)

lemma keeps_value: "keeps Q (lift r)" "keeps Q (check ok e)"
  by (auto simp: keeps_def)

lemma keeps_exec: "keeps Q m \<Longrightarrow> keeps Q (exec c n m)"
  by (auto simp: keeps_def)

lemmas keeps_rules = keeps_exec keeps_lift keeps_check keeps_give keeps_value

lemma transaction_keeps: "keeps Q m \<Longrightarrow> transaction c m s = (r, s') \<Longrightarrow> Q s \<Longrightarrow> Q s'"
  by (auto elim!: transaction_cases dest: keepsD)

lemma statement_keeps: "keeps Q m \<Longrightarrow> statement c n m s = (r, s') \<Longrightarrow> Q s \<Longrightarrow> Q s'"
  by (auto elim!: statement_cases dest: keepsD)

section \<open>The column types\<close>

text \<open>
  What a column holds is in the form its type prints: a second conversion changes nothing. The
  conversion of a text into jsonb gives the text of the value.
\<close>

locale pg_types = pg_laws D val P for D :: "'d decimal_pkg" and val :: "'d \<Rightarrow> rat" and P :: "'d Pg" +
  assumes uuid_canonical: "pg_uuid P i = Some j \<Longrightarrow> pg_uuid P j = Some j"
    and char3_canonical: "pg_char3 P a = Some b \<Longrightarrow> pg_char3 P b = Some b"
    and jsonb_canonical: "pg_jsonb P t = Some u \<Longrightarrow> pg_jsonb P u = Some u"
begin

abbreviation schema :: "'d PgStore \<Rightarrow> bool" where
  "schema \<equiv> schema_ok D P val"

lemma column_values:
  "pg_uuid P i = Some j \<Longrightarrow> canonical_id P j"
  "pg_char3 P a = Some b \<Longrightarrow> canonical_currency P b"
  "pg_jsonb P t = Some u \<Longrightarrow> canonical_json P u"
  "pg_numeric P x = Some y \<Longrightarrow> numeric_fits (val y)"
  using uuid_canonical char3_canonical jsonb_canonical numeric_range
  by (auto simp: canonical_id_def canonical_currency_def canonical_json_def)

lemma keeps_reads:
  "keeps schema (select_payment P i)" "keeps schema (lock_payment P i)" "keeps schema (select_payout P i)"
  "keeps schema (select_dispute P i)" "keeps schema (select_balance D P a cur)" "keeps schema (select_replay D P key)"
  by (auto simp: keeps_def select_payment_def lock_payment_def select_payout_def select_dispute_def
      select_balance_def select_replay_def split: option.splits sum.splits)

lemma schema_New: "schema NewPgStore"
  by (simp add: schema_ok_def NewPgStore_def)

section \<open>One row\<close>

text \<open>Rows of payments are added and changed, never removed, so foreign keys stay valid.\<close>

lemma schema_row: "schema s \<Longrightarrow> t_payments s i = Some r \<Longrightarrow> payment_row_ok D P val i r"
  by (simp add: schema_ok_def)

lemma schema_payments:
  assumes "schema s" "payment_row_ok D P val i r"
  shows "schema (s\<lparr>t_payments := (t_payments s)(i \<mapsto> r)\<rparr>)"
  using assms by (auto simp: schema_ok_def ledger_row_ok_def dispute_row_ok_def)

lemma schema_keys:
  assumes "schema s" "pg_text P k" "t_payments s i = Some r"
  shows "schema (s\<lparr>t_keys := (t_keys s)(k \<mapsto> i)\<rparr>)"
  using assms by (auto simp: schema_ok_def)

lemma schema_ledger:
  assumes "schema s" "ledger_row_ok D P val (t_payments s) r" "lr_id r \<notin> lr_id ` set (t_ledger s)"
  shows "schema (s\<lparr>t_ledger := t_ledger s @ [r]\<rparr>)"
  using assms by (simp add: schema_ok_def)

lemma schema_outbox:
  assumes "schema s" "\<And>j r. m j = Some r \<Longrightarrow> t_outbox s j \<noteq> Some r \<Longrightarrow> outbox_row_ok P j r"
  shows "schema (s\<lparr>t_outbox := m\<rparr>)"
  using assms by (auto simp: schema_ok_def) blast

lemma schema_payouts:
  assumes "schema s" "\<And>j r. m j = Some r \<Longrightarrow> t_payouts s j \<noteq> Some r \<Longrightarrow> payout_row_ok D P val j r"
  shows "schema (s\<lparr>t_payouts := m\<rparr>)"
  using assms by (auto simp: schema_ok_def) blast

lemma schema_disputes:
  assumes "schema s" "\<And>j r. m j = Some r \<Longrightarrow> t_disputes s j \<noteq> Some r \<Longrightarrow> dispute_row_ok D P val (t_payments s) j r"
  shows "schema (s\<lparr>t_disputes := m\<rparr>)"
  using assms by (auto simp: schema_ok_def) blast

section \<open>One statement\<close>

lemma keeps_insert_payment: "keeps schema (insert_payment D P p)"
  unfolding insert_payment_def
  by (intro keeps_rules keepsI)
    (auto split: if_splits simp: payment_row_ok_def row_amounts_ok_def fits_zero
      intro!: schema_payments dest!: column_values)

lemma keeps_insert_key: "keeps schema (insert_key P key i)"
  unfolding insert_key_def
  by (intro keeps_rules keepsI) (auto split: if_splits intro: schema_keys)

lemma keeps_update_payment:
  assumes "\<And>i r. payment_row_ok D P val i r \<Longrightarrow> row_amounts_ok D (f r) \<Longrightarrow> payment_row_ok D P val i (f r)"
  shows "keeps schema (update_payment D P i f)"
  unfolding update_payment_def
  by (intro keeps_rules keepsI)
    (auto split: if_splits option.splits intro!: schema_payments assms intro: schema_row)

lemma keeps_update_status:
  "status \<noteq> PaymentStatusZero \<Longrightarrow> keeps schema
     (update_payment D P i (\<lambda>r. r\<lparr>py_status := status, py_provider_reference := reference\<rparr>))"
  by (rule keeps_update_payment) (simp add: payment_row_ok_def)

lemma keeps_update_amounts:
  assumes "status \<noteq> PaymentStatusZero" "numeric_fits (val x)" "numeric_fits (val y)"
  shows "keeps schema (update_payment D P i (\<lambda>r. r\<lparr>py_status := status, py_captured_amount := x,
      py_refunded_amount := y, py_provider_reference := reference\<rparr>))"
    and "keeps schema (update_payment D P i (\<lambda>r. r\<lparr>py_status := status, py_captured_amount := x,
      py_refunded_amount := y\<rparr>))"
  by (rule keeps_update_payment, use assms in \<open>simp add: payment_row_ok_def\<close>)+

lemma keeps_insert_entry: "keeps schema (insert_entry D P w e)"
  unfolding insert_entry_def
proof (intro keeps_rules keeps_andThen)
  fix i pid u cur debit credit
  assume "orError invalid_value (pg_uuid P (le_ID e)) = Inr i" "pg_text P (le_AccountID e)"
    "orError invalid_value (pg_char3 P (le_Currency e)) = Inr cur"
    "orError invalid_value (pg_numeric P (le_Debit e)) = Inr debit"
    "orError invalid_value (pg_numeric P (le_Credit e)) = Inr credit"
  then show "keeps schema (\<lambda>s. if decIsNegative D debit \<or> decIsNegative D credit \<or> decIsZero D debit = decIsZero D credit
       then Inl check_violation
       else if i \<in> lr_id ` set (t_ledger s) then Inl unique_violation
       else if (case pid of None \<Rightarrow> False | Some u \<Rightarrow> t_payments s u = None) then Inl foreign_key_violation
       else Inr ((), s\<lparr>t_ledger := t_ledger s @
         [\<lparr>lr_id = i, lr_payment_id = pid, lr_account_id = le_AccountID e, lr_currency = cur,
           lr_debit = debit, lr_credit = credit\<rparr>]\<rparr>))"
    by (intro keepsI)
      (auto split: if_splits option.splits intro!: schema_ledger simp: ledger_row_ok_def fits_zero
        dest!: column_values)
qed (auto intro: keepsI)

lemma keeps_insert_entries: "keeps schema (insert_entries D P c n w es)"
  by (induction es arbitrary: n) (auto intro!: keeps_rules keeps_andThen keeps_insert_entry)

lemma keeps_insert_event: "keeps schema (insert_event P now i a ev)"
  unfolding insert_event_def
  by (intro keeps_rules keepsI)
    (auto split: if_splits simp: outbox_row_ok_def intro!: schema_outbox dest!: column_values)

lemma keeps_insert_payout: "keeps schema (insert_payout D P p)"
  unfolding insert_payout_def
  by (intro keeps_rules keepsI)
    (auto split: if_splits simp: payout_row_ok_def intro!: schema_payouts dest!: column_values)

lemma keeps_insert_dispute: "keeps schema (insert_dispute D P d)"
  unfolding insert_dispute_def
  by (intro keeps_rules keepsI)
    (auto split: if_splits simp: dispute_row_ok_def intro!: schema_disputes dest!: column_values)

lemma schema_other_rows:
  "schema s \<Longrightarrow> t_payouts s i = Some r \<Longrightarrow> payout_row_ok D P val i r"
  "schema s \<Longrightarrow> t_disputes s i = Some q \<Longrightarrow> dispute_row_ok D P val (t_payments s) i q"
  "schema s \<Longrightarrow> t_outbox s i = Some e \<Longrightarrow> outbox_row_ok P i e"
  by (simp_all add: schema_ok_def)

lemma row_status [simp]:
  "payout_row_ok D P val i (r\<lparr>yo_status := a, yo_provider_reference := b\<rparr>) = payout_row_ok D P val i r"
  "dispute_row_ok D P val pays i (q\<lparr>dr_status := d\<rparr>) = dispute_row_ok D P val pays i q"
  "outbox_row_ok P i (e\<lparr>or_claimed_at := t\<rparr>) = outbox_row_ok P i e"
  "outbox_row_ok P i (e\<lparr>or_published_at := t\<rparr>) = outbox_row_ok P i e"
  by (simp_all add: payout_row_ok_def dispute_row_ok_def outbox_row_ok_def)

lemma keeps_update_payout:
  "keeps schema (update_payout P i (\<lambda>r. r\<lparr>yo_status := status, yo_provider_reference := reference\<rparr>))"
  unfolding update_payout_def
  by (intro keeps_rules keepsI)
    (auto intro!: schema_payouts split: if_splits, blast intro: schema_other_rows(1))

lemma keeps_update_dispute:
  "keeps schema (andThen (val_uuid P i) (\<lambda>j s. Inr ((), s\<lparr>t_disputes := (t_disputes s)(j :=
     map_option (\<lambda>r. r\<lparr>dr_status := status\<rparr>) (t_disputes s j))\<rparr>)))"
  by (intro keeps_rules keepsI)
    (auto intro!: schema_disputes split: if_splits, blast intro: schema_other_rows(2))

lemmas keeps_statements = keeps_reads keeps_insert_payment keeps_insert_key keeps_insert_entry
  keeps_insert_entries keeps_insert_event keeps_insert_payout keeps_insert_dispute keeps_update_payout
  keeps_update_dispute keeps_update_status keeps_update_amounts

section \<open>One method\<close>

lemma create_payment_schema:
  assumes "Postgres_insertPayment D P c p key s = (r, s')" "schema s"
  shows "schema s'"
  using assms(1) unfolding Postgres_insertPayment_def
  by (rule transaction_keeps [rotated]) (intro keeps_rules keeps_andThen keeps_statements assms(2))+

lemma commit_status: "commit_payment D cmd p = Inr p' \<Longrightarrow> p_Status p' \<noteq> PaymentStatusZero"
  using commit_payment_ok [of cmd p p']
  by (auto simp: commit_guard_def elim: transition_table.elims)

lemma schema_transaction:
  "transaction c m s = (r, s') \<Longrightarrow> schema s \<Longrightarrow> keeps schema m \<Longrightarrow> schema s'"
  by (rule transaction_keeps)

lemma schema_statement:
  "statement c n m s = (r, s') \<Longrightarrow> schema s \<Longrightarrow> keeps schema m \<Longrightarrow> schema s'"
  by (rule statement_keeps)

lemma keeps_write_payment: "p_Status p \<noteq> PaymentStatusZero \<Longrightarrow> keeps schema (write_payment D P p)"
  by (auto simp: write_payment_def intro!: keeps_rules keeps_update_amounts dest!: column_values)

lemma commit_schema:
  assumes "Postgres_CommitPaymentCommand D P c cmd s = (r, s')" "schema s"
  shows "schema s'"
  by (rule schema_transaction [OF assms [unfolded Postgres_CommitPaymentCommand_def]])
    (intro keeps_rules keeps_andThen keeps_statements keeps_write_payment commit_status)

lemma applied_status: "apply_amount D action amount p = Inr p' \<Longrightarrow> p_Status p' \<noteq> PaymentStatusZero"
  by (auto simp: apply_amount_def split: if_splits sum.splits)

lemma apply_amount_schema:
  assumes "Postgres_ApplyAmount D P c i action amount s = (r, s')" "schema s"
  shows "schema s'"
  by (rule schema_transaction [OF assms [unfolded Postgres_ApplyAmount_def]])
    (intro keeps_rules keeps_andThen keeps_reads keeps_update_amounts applied_status column_values(4)
      orError_Inr [THEN iffD1])

lemma update_schema:
  assumes "Postgres_update D P c i status reference s = (r, s')" "schema s"
  shows "schema s'"
  by (rule schema_statement [OF assms [unfolded Postgres_update_def]])
    (intro keeps_rules keeps_andThen keeps_reads keeps_update_status)

lemma append_schema:
  assumes "Postgres_AppendLedger D P c es s = (r, s')" "schema s"
  shows "schema s'"
  using assms schema_transaction [OF _ _ keeps_insert_entries]
  by (auto simp: Postgres_AppendLedger_def split: sum.splits)

lemma enqueue_schema:
  assumes "Postgres_Enqueue P c ev s = (r, s')" "schema s"
  shows "schema s'"
  by (rule schema_statement [OF assms [unfolded Postgres_Enqueue_def] keeps_insert_event])

lemma claim_schema:
  assumes "Postgres_ClaimOutbox c n s = (r, s')" "schema s"
  shows "schema s'"
  using assms(1) unfolding Postgres_ClaimOutbox_def
proof (cases rule: statement_cases)
  case (committed a)
  then obtain ids where "s' = s\<lparr>t_outbox := (\<lambda>i. if i \<in> ids
      then map_option (\<lambda>r. r\<lparr>or_claimed_at := Some (cx_now c)\<rparr>) (t_outbox s i) else t_outbox s i)\<rparr>"
    by (auto simp: Let_def split: if_splits)
  with assms(2) show ?thesis
    by (auto intro!: schema_outbox split: if_splits) (blast intro: schema_other_rows(3))
qed (use assms(2) in simp)

lemma mark_schema:
  assumes "Postgres_MarkPublished P c i s = (r, s')" "schema s"
  shows "schema s'"
  using assms(1) unfolding Postgres_MarkPublished_def
proof (cases rule: statement_cases)
  case (committed a)
  then obtain j where "s' = s\<lparr>t_outbox := (t_outbox s)(j :=
      map_option (\<lambda>r. r\<lparr>or_published_at := Some (cx_now c)\<rparr>) (t_outbox s j))\<rparr>" by auto
  with assms(2) show ?thesis
    by (auto intro!: schema_outbox split: if_splits) (blast intro: schema_other_rows(3))
qed (use assms(2) in simp)

lemma register_schema:
  assumes "Postgres_RegisterWebhook P c i s = (r, s')" "schema s"
  shows "schema s'"
  using assms(1) unfolding Postgres_RegisterWebhook_def
  by (cases rule: statement_cases) (use assms(2) in \<open>auto simp: schema_ok_def\<close>)

lemma payout_schema:
  assumes "schema s"
  shows "Postgres_insertPayout D P c po es ev s = (r, s') \<Longrightarrow> schema s'"
    and "Postgres_TransitionPayout D P c i status reference es ev s = (r, s') \<Longrightarrow> schema s'"
  unfolding Postgres_insertPayout_def Postgres_TransitionPayout_def
  by (erule schema_transaction [OF _ assms], intro keeps_rules keeps_andThen keeps_statements)+

lemma dispute_schema:
  assumes "schema s"
  shows "Postgres_CreateDispute D P c d es ev s = (r, s') \<Longrightarrow> schema s'"
    and "Postgres_ResolveDispute D P c i status es ev s = (r, s') \<Longrightarrow> schema s'"
  unfolding Postgres_CreateDispute_def Postgres_ResolveDispute_def
  by (erule schema_transaction [OF _ assms], intro keeps_rules keeps_andThen keeps_statements)+

end

section \<open>Any sequence of calls\<close>

text \<open>
  One call of a method by any client, at a time of the server's clock. \<open>CreatePayment\<close>, \<open>Transition\<close> and
  \<open>CreatePayout\<close> read and then write; the read changes nothing and other calls may come in between, so
  the step is what they write.
\<close>

inductive pg_call :: "'d decimal_pkg \<Rightarrow> 'd Pg \<Rightarrow> int \<Rightarrow> 'd PgStore \<Rightarrow> 'd PgStore \<Rightarrow> bool" for D P where
  call_create: "Postgres_insertPayment D P c p key s = (r0, s') \<Longrightarrow> pg_call D P (cx_now c) s s'"
| call_apply: "Postgres_ApplyAmount D P c i action amount s = (r, s') \<Longrightarrow> pg_call D P (cx_now c) s s'"
| call_update: "Postgres_update D P c i status reference s = (r, s') \<Longrightarrow> pg_call D P (cx_now c) s s'"
| call_append: "Postgres_AppendLedger D P c es s = (ru, s') \<Longrightarrow> pg_call D P (cx_now c) s s'"
| call_enqueue: "Postgres_Enqueue P c ev s = (ru, s') \<Longrightarrow> pg_call D P (cx_now c) s s'"
| call_claim: "Postgres_ClaimOutbox c n s = (re, s') \<Longrightarrow> pg_call D P (cx_now c) s s'"
| call_mark: "Postgres_MarkPublished P c i s = (ru, s') \<Longrightarrow> pg_call D P (cx_now c) s s'"
| call_register: "Postgres_RegisterWebhook P c i s = (rb, s') \<Longrightarrow> pg_call D P (cx_now c) s s'"
| call_commit: "Postgres_CommitPaymentCommand D P c cmd s = (r, s') \<Longrightarrow> pg_call D P (cx_now c) s s'"
| call_payout: "Postgres_insertPayout D P c po es ev s = (rp, s') \<Longrightarrow> pg_call D P (cx_now c) s s'"
| call_complete: "Postgres_TransitionPayout D P c i pst reference es ev s = (rp, s') \<Longrightarrow>
    pg_call D P (cx_now c) s s'"
| call_dispute: "Postgres_CreateDispute D P c di es ev s = (rd, s') \<Longrightarrow> pg_call D P (cx_now c) s s'"
| call_resolve: "Postgres_ResolveDispute D P c i dst es ev s = (rd, s') \<Longrightarrow> pg_call D P (cx_now c) s s'"

text \<open>A run of calls on a clock that does not go back.\<close>

inductive pg_run :: "'d decimal_pkg \<Rightarrow> 'd Pg \<Rightarrow> int \<Rightarrow> 'd PgStore \<Rightarrow> int \<Rightarrow> 'd PgStore \<Rightarrow> bool"
  for D P t0 s0 where
  run_start: "pg_run D P t0 s0 t0 s0"
| run_call: "pg_run D P t0 s0 t s \<Longrightarrow> t \<le> u \<Longrightarrow> pg_call D P u s s' \<Longrightarrow> pg_run D P t0 s0 u s'"

context pg_types
begin

lemma call_schema: "pg_call D P t s s' \<Longrightarrow> schema s \<Longrightarrow> schema s'"
  by (induction rule: pg_call.induct)
    (blast intro: create_payment_schema apply_amount_schema update_schema append_schema enqueue_schema
      claim_schema mark_schema register_schema commit_schema payout_schema dispute_schema)+

lemma run_schema: "pg_run D P t s t' s' \<Longrightarrow> schema s \<Longrightarrow> schema s'"
  by (induction rule: pg_run.induct) (blast intro: call_schema)+

end

end
