(* ===== verification/Demo_Postgres.thy ===== *)
theory Demo_Postgres
  imports Postgres_Schema Demo_Run
begin

text \<open>
  Column types for decimals made of a coefficient and an exponent, which satisfy the laws, and a
  concrete run of the platform over the PostgreSQL store.
\<close>

section \<open>Column types\<close>

text \<open>\<open>numeric(20,6)\<close> rounds half away from zero to six places and holds less than \<open>10 ^ 14\<close>.\<close>

definition round_div :: "int \<Rightarrow> int \<Rightarrow> int" where
  "round_div c d = sgn c * ((\<bar>c\<bar> + d div 2) div d)"

fun ce_numeric :: "coef_exp \<Rightarrow> coef_exp option" where
  "ce_numeric (Dec c e) =
     (let k = (if - 6 \<le> e then c * 10 ^ nat (e + 6) else round_div c (10 ^ nat (- 6 - e)))
      in if \<bar>k\<bar> < 10 ^ 20 then Some (Dec k (- 6)) else None)"

definition uuid_text :: "string \<Rightarrow> bool" where
  "uuid_text t \<longleftrightarrow> t \<noteq> [] \<and> list_all (\<lambda>c. c \<in> set ''0123456789abcdef-'') t"

definition no_NUL :: "string \<Rightarrow> bool" where
  "no_NUL t \<longleftrightarrow> list_all (\<lambda>c. c \<noteq> CHR 0x00) t"

definition demo_pg :: "coef_exp Pg" where
  "demo_pg = \<lparr>
     pg_uuid = (\<lambda>t. if uuid_text t then Some t else None),
     pg_text = no_NUL,
     pg_char3 = (\<lambda>t. if length t \<le> 3 \<and> no_NUL t
       then Some (t @ replicate (3 - length t) CHR '' '') else None),
     pg_numeric = ce_numeric,
     pg_jsonb = Some,
     pg_null = Inl (ExternalErr ''cannot scan NULL into *string'')\<rparr>"

lemma round_div_exact:
  assumes d: "0 < d"
  shows "round_div (j * d) d = j"
proof -
  have "(\<bar>j\<bar> * d + d div 2) div d = \<bar>j\<bar> + d div 2 div d" using d by (intro div_mult_self3) simp
  moreover have "d div 2 div d = 0" using d by (intro div_pos_pos_trivial) auto
  moreover have "\<bar>j * d\<bar> = \<bar>j\<bar> * d" "sgn (j * d) = sgn j" using d by (simp_all add: abs_mult sgn_mult)
  ultimately have "round_div (j * d) d = sgn j * \<bar>j\<bar>" by (simp only: round_div_def add_0_right)
  then show ?thesis by (simp only: sgn_mult_abs)
qed

lemma no_NUL_pad: "no_NUL (t @ replicate n CHR '' '') = no_NUL t"
  by (induction n) (simp_all add: no_NUL_def)

lemma powi_micro: "(10 :: rat) powi (- 6) = 1 / 10 ^ 6"
  by (simp add: power_int_def power_one_over)

lemma ce_val_micro: "ce_val (Dec k (- 6)) = of_int k / 10 ^ 6"
  by (simp only: ce_val.simps powi_micro times_divide_eq_right mult_1_right)

lemma ce_numeric_range: "ce_numeric x = Some y \<Longrightarrow> numeric_fits (ce_val y)"
proof (cases x)
  case (Dec c e)
  assume "ce_numeric x = Some y"
  with Dec obtain k where k: "y = Dec k (- 6)" "\<bar>k\<bar> < 10 ^ 20" by (auto simp: Let_def split: if_splits)
  have "\<bar>of_int k :: rat\<bar> < 10 ^ 20" using k(2) by (metis of_int_abs of_int_less_iff of_int_numeral of_int_power)
  then show ?thesis unfolding numeric_fits_def k(1) ce_val_micro by (auto simp: abs_if field_simps)
qed

lemma ce_numeric_exact:
  assumes "numeric_fits (ce_val x)" "ce_numeric x = Some y"
  shows "ce_val y = ce_val x"
proof (cases x)
  case (Dec c e)
  show ?thesis
  proof (cases "- 6 \<le> e")
    case True
    have "(10 :: rat) powi e = 10 ^ nat (e + 6) / 10 ^ 6"
    proof -
      have "(10 :: rat) powi e = 10 powi (e + 6) * 10 powi (- 6)"
        using power_int_add [of "10 :: rat" "e + 6" "- 6"] by simp
      moreover have "(10 :: rat) powi (e + 6) = 10 ^ nat (e + 6)" using True by (simp add: power_int_def)
      ultimately show ?thesis by (simp only: powi_micro times_divide_eq_right mult_1_right)
    qed
    with True assms(2) Dec show ?thesis by (auto simp: Let_def ce_val_micro split: if_splits)
  next
    case False
    define n where "n = nat (- 6 - e)"
    have p: "(10 :: rat) powi e * 10 ^ 6 * 10 ^ n = 1"
    proof -
      have "(10 :: rat) powi e = inverse (10 ^ nat (- e))"
        using False by (simp add: power_int_def power_one_over inverse_eq_divide)
      moreover have "nat (- e) = 6 + n" using False by (simp add: n_def)
      ultimately show ?thesis by (simp only: power_add) simp
    qed
    from assms(1) Dec obtain j :: int where j: "of_int c * 10 powi e = (of_int j :: rat) / 10 ^ 6"
      by (auto simp: numeric_fits_def)
    have "(of_int c :: rat) = of_int c * (10 powi e * 10 ^ 6 * 10 ^ n)" by (simp only: p mult_1_right)
    also have "\<dots> = of_int c * 10 powi e * 10 ^ 6 * 10 ^ n" by (simp only: mult.assoc)
    also have "\<dots> = of_int (j * 10 ^ n)" using j by simp
    finally have "c = j * 10 ^ n" by (simp only: of_int_eq_iff)
    with False assms(2) Dec j show ?thesis
      by (auto simp: Let_def n_def round_div_exact ce_val_micro split: if_splits)
  qed
qed

interpretation demo_pg: pg_types ce_pkg ce_val demo_pg
proof
  fix x y :: coef_exp
  show "pg_numeric demo_pg x = Some y \<Longrightarrow> numeric_fits (ce_val y)"
    by (rule ce_numeric_range) (simp add: demo_pg_def)
  show "numeric_fits (ce_val x) \<Longrightarrow> pg_numeric demo_pg x = Some y \<Longrightarrow> ce_val y = ce_val x"
    by (rule ce_numeric_exact) (simp_all add: demo_pg_def)
next
  fix i j :: string
  show "pg_uuid demo_pg i = Some j \<Longrightarrow> pg_uuid demo_pg j = Some j"
    by (simp add: demo_pg_def split: if_splits)
  show "pg_char3 demo_pg i = Some j \<Longrightarrow> pg_char3 demo_pg j = Some j"
    by (auto simp: demo_pg_def no_NUL_pad split: if_splits)
qed (simp add: demo_pg_def)

section \<open>A run\<close>

definition demo_cx :: "coef_exp PgContext" where
  "demo_cx = \<lparr>cx_fail = (\<lambda>_. None), cx_lost = None, cx_now = 0, cx_rows = [], cx_locked = {}, cx_returning = (\<lambda>es. es),
     cx_between = (\<lambda>s. s)\<rparr>"

definition pg_svc :: "(coef_exp PgContext, coef_exp PgStore, coef_exp) PaymentService" where
  "pg_svc = \<lparr>svc_Store = canonicalStore ce_pkg demo_pg, svc_Provider = DeterministicProvider,
     svc_Risk = Some (ThresholdRisk_Check ce_pkg ''10000''), svc_Metrics = False\<rparr>"

definition pg_w0 :: "(coef_exp PgStore, coef_exp) World" where
  "pg_w0 = \<lparr>w_store = NewPgStore, w_next = 0, w_calls = [], w_metrics = NewCounterMetrics\<rparr>"

definition pg_w1 :: "(coef_exp PgStore, coef_exp) World" where
  "pg_w1 = snd (PaymentService_Create demo_env pg_svc (\<lambda>_. demo_cx) demo_input ''order'' pg_w0)"

definition pg_w2 :: "(coef_exp PgStore, coef_exp) World" where
  "pg_w2 = snd (PaymentService_Authorize demo_env pg_svc (\<lambda>_. demo_cx) demo_id pg_w1)"

definition pg_w3 :: "(coef_exp PgStore, coef_exp) World" where
  "pg_w3 = snd (PaymentService_Capture demo_env pg_svc (\<lambda>_. demo_cx) demo_id (Dec 30 0) pg_w2)"

lemma demo_columns [simp]:
  "pg_uuid demo_pg (env_uuid demo_env n) = Some (env_uuid demo_env n)"
  "pg_uuid demo_pg demo_id = Some demo_id" "pg_char3 demo_pg ''USD'' = Some ''USD''"
  "pg_text demo_pg = no_NUL" "pg_jsonb demo_pg = Some"
  "pg_numeric demo_pg = ce_numeric"
proof -
  have "uuid_text (env_uuid demo_env n)"
    by (simp add: demo_env_def uuid_text_def list_all_iff)
  moreover have "uuid_text demo_id" "no_NUL ''USD''" by code_simp+
  ultimately show "pg_uuid demo_pg (env_uuid demo_env n) = Some (env_uuid demo_env n)"
  "pg_uuid demo_pg demo_id = Some demo_id" "pg_char3 demo_pg ''USD'' = Some ''USD''"
  "pg_text demo_pg = no_NUL" "pg_jsonb demo_pg = Some"
  "pg_numeric demo_pg = ce_numeric"
    by (simp_all add: demo_pg_def)
qed

lemma demo_canonical [simp]:
  "canonical_id demo_pg (env_uuid demo_env n)" "canonical_id demo_pg demo_id"
  "canonical_currency demo_pg ''USD''"
  by (simp_all add: canonical_id_def canonical_currency_def)

lemma demo_cx_simps [simp]:
  "cx_fail demo_cx n = None" "cx_lost demo_cx = None" "cx_now demo_cx = 0" "cx_between demo_cx = (\<lambda>s. s)"
  "calm demo_cx = demo_cx"
  by (simp_all add: demo_cx_def calm_def)

definition demo_row :: "coef_exp PaymentRow" where
  "demo_row = \<lparr>py_merchant_id = ''m'', py_customer_id = ''c'', py_currency = ''USD'',
     py_amount = Dec 49900000 (- 6), py_captured_amount = Dec 0 1, py_refunded_amount = Dec 0 1,
     py_status = PaymentCreated, py_provider_reference = None\<rparr>"

lemma NewPgStore_fields [simp]:
  "t_payments NewPgStore = Map.empty" "t_keys NewPgStore = Map.empty" "t_ledger NewPgStore = []"
  "t_outbox NewPgStore = Map.empty" "t_webhooks NewPgStore = {}" "t_payouts NewPgStore = Map.empty"
  "t_disputes NewPgStore = Map.empty"
  by (simp_all add: NewPgStore_def)

lemmas stmt_defs = transaction_def statement_def exec_def andThen_def lift_def check_def give_def orError_def
  answer_def

definition pg_s1 :: "coef_exp PgStore" where
  "pg_s1 = NewPgStore\<lparr>t_payments := [demo_id \<mapsto> demo_row], t_keys := [''order'' \<mapsto> demo_id]\<rparr>"

lemma demo_statements:
  "insert_payment ce_pkg demo_pg demo_payment NewPgStore = Inr ((), NewPgStore\<lparr>t_payments := [demo_id \<mapsto> demo_row]\<rparr>)"
  "select_replay ce_pkg demo_pg ''order'' NewPgStore = Inr (None, NewPgStore)"
  "no_NUL ''order''"
  by (simp_all add: insert_payment_def select_replay_def stmt_defs no_NUL_def demo_row_def
      demo_payment_def) (simp_all add: ce_pkg_def ce_shift_def)

lemma demo_create:
  "Postgres_CreatePayment ce_pkg demo_pg demo_cx demo_payment ''order'' NewPgStore =
     (Inr (demo_payment, False), pg_s1)"
  using demo_statements by (simp add: Postgres_CreatePayment_def Postgres_insertPayment_def stmt_defs insert_key_def pg_s1_def)

lemma pg_w1_eq [code]:
  "pg_w1 = \<lparr>w_store = pg_s1, w_next = 1, w_calls = [], w_metrics = NewCounterMetrics\<rparr>"
proof -
  have "env_uuid demo_env 0 = demo_id" by (simp add: demo_env_def)
  then show ?thesis
    by (simp add: pg_w1_def pg_w0_def PaymentService_Create_def pg_svc_def on_store_def
        demo_NewPayment guarded_def demo_create)
qed

lemma pg_svc_store [simp]: "svc_Store pg_svc = canonicalStore ce_pkg demo_pg"
  by (simp add: pg_svc_def)

lemma demo_fits: "numeric_fits (ce_val (Dec 4990 (- 2)))" "numeric_fits (ce_val (Dec 30 0))"
  using ce_numeric_range [of "Dec 4990 (- 2)" "Dec 49900000 (- 6)"] ce_numeric_range [of "Dec 30 0" "Dec 30000000 (- 6)"]
  by (simp_all add: power_int_def power_one_over)

lemma pg_reachable:
  "platform_reachable demo_env (canonicalStore ce_pkg demo_pg) (\<lambda>x. numeric_fits (ce_val x)) NewPgStore (pg_w1, {#})"
  "platform_reachable demo_env (canonicalStore ce_pkg demo_pg) (\<lambda>x. numeric_fits (ce_val x)) NewPgStore (pg_w2, {#})"
  "platform_reachable demo_env (canonicalStore ce_pkg demo_pg) (\<lambda>x. numeric_fits (ce_val x)) NewPgStore (pg_w3, {#})"
  unfolding pg_w0_def pg_w1_def pg_w2_def pg_w3_def
  by (intro run_services platform_start pg_svc_store demo_fits; simp add: demo_input_def demo_fits del: ce_val.simps)+

end
