(* ===== verification/Postgres_Platform.thy ===== *)
theory Postgres_Platform
  imports Demo_Postgres Ledger_Totals
begin

text \<open>
  The platform over the PostgreSQL store: the refinement of the book and the balances carry over
  from the store contract. Then what happens outside its conditions: identifiers that are not UUIDs,
  and the reads of \<open>Transition\<close> and \<open>CreatePayout\<close> that no lock protects.
\<close>

section \<open>The platform over PostgreSQL\<close>

locale pg_platform = pg_laws D val P + ledger_env D val env
  for D :: "'d decimal_pkg" and val :: "'d \<Rightarrow> rat" and P :: "'d Pg" and env :: "'d Env"

sublocale pg_platform \<subseteq> pp: platform D val "canonicalStore D P" "absP val" "pg_inv D val"
  "\<lambda>s. dom (t_outbox s)" "\<lambda>x. numeric_fits (val x)" env
  by unfold_locales

interpretation demo_pp: pg_platform ce_pkg ce_val demo_pg demo_env
  by unfold_locales

definition settled_rows :: "('d \<Rightarrow> rat) \<Rightarrow> string \<Rightarrow> string \<Rightarrow> 'd PgStore \<Rightarrow> rat" where
  "settled_rows val m c s = dom_sum (\<lambda>r. if py_merchant_id r = m \<and> py_currency r = c
     then val (py_captured_amount r) - val (py_refunded_amount r) else 0) (t_payments s)"

definition payout_rows :: "('d \<Rightarrow> rat) \<Rightarrow> PayoutStatus set \<Rightarrow> string \<Rightarrow> string \<Rightarrow> 'd PgStore \<Rightarrow> rat" where
  "payout_rows val X m c s = dom_sum (\<lambda>r. if yo_merchant_id r = m \<and> yo_currency r = c \<and> yo_status r \<in> X
     then val (yo_amount r) else 0) (t_payouts s)"

definition dispute_rows :: "('d \<Rightarrow> rat) \<Rightarrow> DisputeStatus set \<Rightarrow> string \<Rightarrow> string \<Rightarrow> 'd PgStore \<Rightarrow> rat" where
  "dispute_rows val X m c s = dom_sum (\<lambda>r. if dr_merchant_id r = m \<and> dr_currency r = c \<and> dr_status r \<in> X
     then val (dr_amount r) else 0) (t_disputes s)"

lemma rows_abs:
  "dom_sum (settled m c) (b_payments (absP val s)) = settled_rows val m c s"
  "dom_sum (payout_in X m c) (b_payouts (absP val s)) = payout_rows val X m c s"
  "dom_sum (dispute_in Y m c) (b_disputes (absP val s)) = dispute_rows val Y m c s"
  by (simp_all add: absP_def dom_sum_comp settled_rows_def payout_rows_def dispute_rows_def
      settled_def payout_in_def dispute_in_def row_payment_def row_payout_def row_dispute_def cong: if_cong)

context pg_platform
begin

abbreviation pg_reach :: "('d PgStore, 'd) World \<Rightarrow> 'd Task multiset \<Rightarrow> bool" where
  "pg_reach w ts \<equiv> platform_reachable env (canonicalStore D P) (\<lambda>x. numeric_fits (val x)) NewPgStore (w, ts)"

lemma pg_reach_book:
  assumes "pg_reach w ts"
  shows "pg_inv D val (w_store w)" "book_inv (absP val (w_store w))"
  using pp.platform_book_inv [OF assms] pg_inv_New [of D val] absP_New [of val] by simp_all

lemma pg_reach_step:
  assumes "pg_reach w ts"
    and "platform_step env (canonicalStore D P) (\<lambda>x. numeric_fits (val x)) (w, ts) (w', ts')"
  shows "absP val (w_store w') = absP val (w_store w) \<or>
     book_step (upper_currency (env_U env)) (absP val (w_store w)) (absP val (w_store w'))"
  using pp.platform_step_moves [OF assms(2) pp.platform_reachable_inv [OF assms(1)]]
    pg_inv_New [of D val] absP_New [of val] by simp

lemma pg_reach_available:
  assumes "pg_reach w ts" "canonical_currency P c"
    and "Postgres_AvailableBalance D P cx m c (w_store w) = Inr b"
  shows "val b = settled_rows val m c (w_store w)
     - payout_rows val {PayoutPending, PayoutPaid} m c (w_store w)
     - dispute_rows val {DisputeOpen, DisputeLost} m c (w_store w)"
proof -
  from assms(3) obtain s' where "select_balance D P (acct_available m) c (w_store w) = Inr (b, s')"
    by (auto simp: Postgres_AvailableBalance_def exec_def split: sum.splits option.splits)
  from select_balance_ok [OF this assms(2)] pg_reach_book(2) [OF assms(1)] show ?thesis
    by (simp add: book_inv_def available_ok_def rows_abs)
qed

end

text \<open>
  C4: Over the PostgreSQL store too, every step of the platform is at most one move of the
  book or leaves the book as it was, whichever statement of a transaction fails and also when the
  answer to a commit is lost. This holds for calls whose identifiers are UUIDs in canonical form, whose
  currencies have three characters and whose amounts fit \<open>numeric(20,6)\<close>, when no other transaction
  commits between what \<open>CreatePayment\<close>, \<open>Transition\<close> and \<open>CreatePayout\<close> read without a lock and what they then write;
  between all other calls any interleaving of requests is allowed.
\<close>

theorem postgres_refines_book:
  assumes "pg_platform D val P env"
    and "platform_reachable env (canonicalStore D P) (\<lambda>x. numeric_fits (val x)) NewPgStore (w, ts)"
    and "platform_step env (canonicalStore D P) (\<lambda>x. numeric_fits (val x)) (w, ts) (w', ts')"
  shows "absP val (w_store w') = absP val (w_store w) \<or>
     book_step (upper_currency (env_U env)) (absP val (w_store w)) (absP val (w_store w'))"
  using assms by (rule pg_platform.pg_reach_step)

lemma pg_step_create:
  "platform_step demo_env (canonicalStore ce_pkg demo_pg) (\<lambda>x. numeric_fits (ce_val x)) (pg_w0, {#}) (pg_w1, {#})"
  unfolding pg_w1_def
  by (rule step_create [OF pg_svc_store, where inp = demo_input and ctx = "\<lambda>_. demo_cx" and key = "''order''"])
    (use demo_fits(1) in \<open>simp add: demo_input_def del: ce_val.simps\<close>, rule surjective_pairing)

theorem postgres_refines_book_witness:
  "book_step (upper_currency (env_U demo_env)) (absP ce_val (w_store pg_w0)) (absP ce_val (w_store pg_w1))"
proof -
  have "b_payments (absP ce_val (w_store pg_w1)) demo_id \<noteq> b_payments (absP ce_val (w_store pg_w0)) demo_id"
    by (simp add: pg_w1_eq pg_s1_def pg_w0_def)
  then have "absP ce_val (w_store pg_w1) \<noteq> absP ce_val (w_store pg_w0)" by metis
  moreover have "platform_reachable demo_env (canonicalStore ce_pkg demo_pg) (\<lambda>x. numeric_fits (ce_val x))
      NewPgStore (pg_w0, {#})"
    unfolding pg_w0_def by (rule platform_start)
  ultimately show ?thesis
    using postgres_refines_book [OF demo_pp.pg_platform_axioms _ pg_step_create] by blast
qed

text \<open>
  C5: In every state the platform reaches over the PostgreSQL store under the conditions of
  \<open>postgres_refines_book\<close> (canonical UUIDs, currencies of three characters, amounts that fit
  \<open>numeric(20,6)\<close>, no commit of others inside \<open>CreatePayment\<close>, \<open>Transition\<close> and \<open>CreatePayout\<close>), the
  balance that \<open>AvailableBalance\<close> reads from the ledger table for a currency of three characters is the
  captured and not refunded amount of the merchant's payments, less its payouts that are pending or
  paid, less its disputes that are open or lost. It is read whenever the connection works and the
  merchant and the currency are valid text.
\<close>

theorem postgres_balance:
  assumes "pg_platform D val P env"
    and "platform_reachable env (canonicalStore D P) (\<lambda>x. numeric_fits (val x)) NewPgStore (w, ts)"
    and "canonical_currency P c" "pg_text P (acct_available m)" "pg_text P c" "cx_fail cx 0 = None"
  shows "\<exists>b. Postgres_AvailableBalance D P cx m c (w_store w) = Inr b \<and>
     val b = settled_rows val m c (w_store w)
       - payout_rows val {PayoutPending, PayoutPaid} m c (w_store w)
       - dispute_rows val {DisputeOpen, DisputeLost} m c (w_store w)"
proof -
  obtain b where "Postgres_AvailableBalance D P cx m c (w_store w) = Inr b"
    using assms(4-6)
    by (simp add: Postgres_AvailableBalance_def exec_def select_balance_def andThen_def check_def)
  with pg_platform.pg_reach_available [OF assms(1-3) this] show ?thesis by blast
qed

theorem postgres_balance_witness:
  "\<exists>b. Postgres_AvailableBalance ce_pkg demo_pg demo_cx ''m'' ''USD'' (w_store pg_w3) = Inr b \<and>
     ce_val b = settled_rows ce_val ''m'' ''USD'' (w_store pg_w3)
       - payout_rows ce_val {PayoutPending, PayoutPaid} ''m'' ''USD'' (w_store pg_w3)
       - dispute_rows ce_val {DisputeOpen, DisputeLost} ''m'' ''USD'' (w_store pg_w3)"
proof (rule postgres_balance [OF demo_pp.pg_platform_axioms pg_reachable(3)])
  have "no_NUL (acct_available ''m'')" "no_NUL ''USD''" by code_simp+
  then show "pg_text demo_pg (acct_available ''m'')" "pg_text demo_pg ''USD''" by simp_all
qed simp_all

section \<open>Identifiers that are not UUIDs\<close>

text \<open>A text that is not a UUID is an error of the server, not \<open>ErrNotFound\<close>, which the handlers answer with 404.\<close>

lemma malformed_id:
  "pg_uuid P i = None \<Longrightarrow> cx_fail c 0 = None \<Longrightarrow> Postgres_GetPayment P c i s = Inl invalid_value"
  "invalid_value \<noteq> ErrNotFound"
  by (simp_all add: Postgres_GetPayment_def select_payment_def stmt_defs)

section \<open>The race of Transition\<close>

text \<open>
  \<open>Transition\<close> checks a payment it read without a lock. Whatever version of the payment another
  transaction commits before the update, the update overwrites its status.
\<close>

lemma transition_race:
  assumes "canonical_id P i" "cx_fail c = (\<lambda>_. None)" "cx_lost c = None" "pg_text P reference" "to \<noteq> PaymentStatusZero"
    and "t_payments s i = Some r" "transition_table (py_status r) to"
    and "t_payments (cx_between c s) i = Some r'" "row_amounts_ok D (r'\<lparr>py_status := to, py_provider_reference := nullif reference\<rparr>)"
  shows "Postgres_Transition D P c i to reference s =
     (Inr (row_payment i (r'\<lparr>py_status := to, py_provider_reference := nullif reference\<rparr>)),
      (cx_between c s)\<lparr>t_payments := (t_payments (cx_between c s))(i \<mapsto>
         r'\<lparr>py_status := to, py_provider_reference := nullif reference\<rparr>)\<rparr>)"
  using assms
  by (simp add: Postgres_Transition_def Postgres_GetPayment_def select_payment_def stmt_defs canonical_id_def
      CanTransition_def row_payment_def Postgres_update_def update_payment_def lock_payment_def)

text \<open>A captured payment is marked failed, although the state machine has no such transition.\<close>

theorem captured_marked_failed:
  "\<exists>c r'. t_payments (cx_between c pg_s1) demo_id = Some r' \<and> py_status r' = PaymentCaptured \<and>
     (\<exists>p. fst (Postgres_Transition ce_pkg demo_pg c demo_id PaymentFailed [] pg_s1) = Inr p \<and>
        p_Status p = PaymentFailed \<and> p_CapturedAmount p = Dec 30000000 (- 6)) \<and>
     \<not> transition_table PaymentCaptured PaymentFailed"
proof -
  define r' where "r' = demo_row\<lparr>py_status := PaymentCaptured, py_captured_amount := Dec 30000000 (- 6),
    py_provider_reference := Some ''demo_00000000''\<rparr>"
  define c where "c = demo_cx\<lparr>cx_between := (\<lambda>s. s\<lparr>t_payments := (t_payments s)(demo_id \<mapsto> r')\<rparr>)\<rparr>"
  have ok: "row_amounts_ok ce_pkg (r'\<lparr>py_status := PaymentFailed, py_provider_reference := nullif []\<rparr>)"
    unfolding r'_def demo_row_def nullif_def by code_simp
  have "Postgres_Transition ce_pkg demo_pg c demo_id PaymentFailed [] pg_s1 =
     (Inr (row_payment demo_id (r'\<lparr>py_status := PaymentFailed, py_provider_reference := nullif []\<rparr>)),
      (cx_between c pg_s1)\<lparr>t_payments := (t_payments (cx_between c pg_s1))(demo_id \<mapsto>
         r'\<lparr>py_status := PaymentFailed, py_provider_reference := nullif []\<rparr>)\<rparr>)"
    by (rule transition_race [where r = demo_row])
      (use ok in \<open>simp_all add: c_def pg_s1_def demo_row_def no_NUL_def fun_eq_iff\<close>)
  moreover have "t_payments (cx_between c pg_s1) demo_id = Some r'" by (simp add: c_def)
  ultimately show ?thesis
    by (intro exI [of _ c] exI [of _ r']) (simp add: r'_def row_payment_def)
qed

section \<open>The race of CreatePayout\<close>

text \<open>
  The advisory lock of \<open>CreatePayout\<close> keeps other payouts of the merchant away, but refunds and disputes do
  not take it. Here a refund of the whole balance commits between the read of the balance and the inserts:
  the payout of 10.00 is accepted although nothing is available any more.
\<close>

definition available_row :: "string \<Rightarrow> int \<Rightarrow> int \<Rightarrow> coef_exp LedgerRow" where
  "available_row i debit credit = \<lparr>lr_id = i, lr_payment_id = None, lr_account_id = acct_available ''m'',
     lr_currency = ''USD'', lr_debit = Dec debit 0, lr_credit = Dec credit 0\<rparr>"

theorem payout_uncovered:
  "\<exists>c s. Postgres_AvailableBalance ce_pkg demo_pg demo_cx ''m'' ''USD'' (cx_between c s) = Inr (Dec 0 0) \<and>
     fst (Postgres_CreatePayout ce_pkg demo_pg c demo_payout
       (entry_pair demo_env 8 [] (acct_available ''m'') (acct_payout_pending ''m'') ''USD'' (Dec 10 0))
       (demo_event 10 (env_uuid demo_env 7) ''payout.created'' ''{}'') s) = Inr demo_payout"
proof -
  let ?es = "entry_pair demo_env 8 [] (acct_available ''m'') (acct_payout_pending ''m'') ''USD'' (Dec 10 0)"
  let ?ev = "demo_event 10 (env_uuid demo_env 7) ''payout.created'' ''{}''"
  define s where "s = NewPgStore\<lparr>t_ledger := [available_row ''a'' 0 30]\<rparr>"
  define s1 where "s1 = NewPgStore\<lparr>t_ledger := [available_row ''a'' 0 30, available_row ''b'' 30 0]\<rparr>"
  define c where "c = demo_cx\<lparr>cx_between := (\<lambda>s. s\<lparr>t_ledger := t_ledger s @ [available_row ''b'' 30 0]\<rparr>)\<rparr>"
  have c [simp]: "cx_fail c n = None" "cx_lost c = None" "cx_between c s = s1" for n
    by (simp_all add: c_def s_def s1_def)
  have valid: "no_NUL (acct_available ''m'')" "no_NUL (acct_payout_pending ''m'')" "no_NUL ''USD''" "no_NUL ''m''"
    "no_NUL ''payout.created''" "no_NUL (''payout:'' @ ''m'' @ '':'' @ ''USD'')" by code_simp+
  have sum: "decAdd ce_pkg (decAdd ce_pkg (decZero ce_pkg) (decSub ce_pkg (Dec 30 0) (Dec 0 0)))
      (decSub ce_pkg (Dec 0 0) (Dec 30 0)) = Dec 0 0" by code_simp
  have balance: "Postgres_AvailableBalance ce_pkg demo_pg demo_cx ''m'' ''USD'' (cx_between c s) = Inr (Dec 0 0)"
    using valid sum by (simp add: Postgres_AvailableBalance_def select_balance_def stmt_defs s1_def available_row_def)
  have read: "Postgres_readAvailable ce_pkg demo_pg c demo_payout ?es s = Inr ((), s)"
    using valid by (simp add: Postgres_readAvailable_def select_balance_def s_def available_row_def demo_pair)
  have ids: "env_uuid demo_env n \<noteq> ''a''" "env_uuid demo_env n \<noteq> ''b''" for n by (simp_all add: demo_env_def)
  have nil: "ce_numeric (decNil ce_pkg) = Some (Dec 0 (- 6))" by code_simp
  have "\<exists>s2. insert_payout ce_pkg demo_pg demo_payout s1 = Inr ((), s2) \<and> t_ledger s2 = t_ledger s1 \<and> t_outbox s2 = Map.empty"
    using valid by (simp add: insert_payout_def stmt_defs s1_def)
  then obtain s2 where s2: "insert_payout ce_pkg demo_pg demo_payout s1 = Inr ((), s2)" "t_ledger s2 = t_ledger s1"
    "t_outbox s2 = Map.empty" by blast
  have "\<exists>s3. insert_entries ce_pkg demo_pg c 6 False ?es s2 = Inr ((), s3) \<and> t_outbox s3 = Map.empty"
    using valid ids s2(2,3) by (simp add: insert_entry_def stmt_defs entry_pair_def s1_def available_row_def nil)
  then obtain s3 where s3: "insert_entries ce_pkg demo_pg c 6 False ?es s2 = Inr ((), s3)" "t_outbox s3 = Map.empty" by blast
  have "\<exists>s4. insert_event demo_pg (cx_now c) (ev_ID ?ev) (po_ID demo_payout) ?ev s3 = Inr ((), s4)"
    using valid s3(2) by (simp add: insert_event_def stmt_defs demo_event_def)
  with s2(1) s3(1) read have "fst (Postgres_CreatePayout ce_pkg demo_pg c demo_payout ?es ?ev s) = Inr demo_payout"
    by (auto simp: Postgres_CreatePayout_def Postgres_insertPayout_def stmt_defs)
  with balance show ?thesis by blast
qed

end
