(* ===== verification/Postgres_Outbox.thy ===== *)
theory Postgres_Outbox
  imports Postgres_Platform Outbox_Delivery
begin

text \<open>
  The outbox of the PostgreSQL store: it keeps the contract of the worker, so deliveries are marked
  only after they were acknowledged, and a claim is a lease of one minute that keeps other workers away.
\<close>

section \<open>The contract of the worker\<close>

definition pg_events :: "'d PgStore \<Rightarrow> (string \<rightharpoonup> OutboxEvent)" where
  "pg_events s i = map_option (\<lambda>r. (row_event i r)\<lparr>ev_Published := or_published_at r \<noteq> None\<rparr>) (t_outbox s i)"

definition pg_ids :: "'d Pg \<Rightarrow> 'd PgStore \<Rightarrow> bool" where
  "pg_ids P s \<longleftrightarrow> (\<forall>i \<in> dom (t_outbox s). canonical_id P i)"

text \<open>What the server may choose: an order of the rows, and an order of the result.\<close>

definition pg_choice :: "'d PgStore \<Rightarrow> 'd PgContext \<Rightarrow> bool" where
  "pg_choice s c \<longleftrightarrow> visits (t_outbox s) (cx_rows c) \<and> (\<forall>es. mset (cx_returning c es) = mset es)"

lemma candidates_ok:
  assumes "distinct (cx_rows c)"
  shows "distinct (candidates c n m)"
    and "i \<in> set (candidates c n m) \<Longrightarrow> \<exists>r. m i = Some r \<and> lease_free (cx_now c) r"
    and "length (candidates c n m) \<le> n"
  using assms unfolding candidates_def
  by (auto simp: distinct_take split: option.splits dest!: in_set_takeD)

lemma row_event_ID [simp]: "ev_ID (row_event i r) = i" "\<not> ev_Published (row_event i r)"
  by (simp_all add: row_event_def)

lemma claim_cases:
  assumes "Postgres_ClaimOutbox c n s = (r, s')"
  obtains (failed) e where "r = Inl e" "s' = s"
  | (claimed) ids where "ids = candidates c (nat n) (t_outbox s)" "0 \<le> n"
      "r = answer c (cx_returning c (map (\<lambda>i. row_event i (the (t_outbox s i))) ids))"
      "s' = s\<lparr>t_outbox := (\<lambda>i. if i \<in> set ids
        then map_option (\<lambda>r. r\<lparr>or_claimed_at := Some (cx_now c)\<rparr>) (t_outbox s i) else t_outbox s i)\<rparr>"
  using assms unfolding Postgres_ClaimOutbox_def
  by (cases rule: statement_cases) (auto simp: Let_def split: if_splits)

lemma claimed_claimable:
  assumes "pg_choice s c"
  shows "claimable (pg_events s)
    (cx_returning c (map (\<lambda>i. row_event i (the (t_outbox s i))) (candidates c k (t_outbox s))))"
proof -
  let ?ids = "candidates c k (t_outbox s)" and ?f = "\<lambda>i. row_event i (the (t_outbox s i))"
  have dist: "distinct (cx_rows c)" using assms by (simp add: pg_choice_def visits_def)
  have perm: "mset (cx_returning c (map ?f ?ids)) = mset (map ?f ?ids)" using assms by (simp add: pg_choice_def)
  have "mset (map ev_ID (cx_returning c (map ?f ?ids))) = mset (map ev_ID (map ?f ?ids))"
    using perm by (simp only: mset_map)
  moreover have "map ev_ID (map ?f ?ids) = ?ids" by (simp add: comp_def)
  ultimately have "distinct (map ev_ID (cx_returning c (map ?f ?ids)))"
    using candidates_ok(1) [OF dist] by (metis mset_eq_imp_distinct_iff)
  moreover have "set (cx_returning c (map ?f ?ids)) = ?f ` set ?ids"
    using mset_eq_setD [OF perm] by simp
  moreover have "pg_events s i = Some (?f i) \<and> \<not> ev_Published (?f i)" if "i \<in> set ?ids" for i
    using candidates_ok(2) [OF dist that]
    by (auto simp: pg_events_def lease_free_def row_event_def)
  ultimately show ?thesis by (auto simp: claimable_def)
qed

interpretation po: outbox_store "postgresStore D P" pg_events "pg_ids P" pg_choice
proof
  fix s c n r s'
  assume inv: "pg_ids P s" "pg_choice s c" and "S_ClaimOutbox (postgresStore D P) c n s = (r, s')"
  then have "Postgres_ClaimOutbox c n s = (r, s')" by simp
  then show "pg_ids P s' \<and> pg_events s' = pg_events s \<and>
      (case r of Inl _ \<Rightarrow> True | Inr es \<Rightarrow> claimable (pg_events s) es)"
  proof (cases rule: claim_cases)
    case (claimed ids)
    have "pg_events s' = pg_events s"
      by (rule ext) (simp add: claimed(4) pg_events_def option.map_comp comp_def row_event_def)
    moreover have "dom (t_outbox s') = dom (t_outbox s)" by (auto simp: claimed(4) split: if_splits)
    moreover have "case r of Inl _ \<Rightarrow> True | Inr es \<Rightarrow> claimable (pg_events s) es"
      using claimed_claimable [OF inv(2), of "nat n"]
      by (simp add: claimed(1,3) answer_def split: option.splits)
    ultimately show ?thesis using inv(1) by (simp add: pg_ids_def)
  qed (use inv in simp)
next
  fix s i e c u s'
  assume inv: "pg_ids P s" "pg_events s i = Some e" and "S_MarkPublished (postgresStore D P) c i s = (u, s')"
  then have call: "Postgres_MarkPublished P c i s = (u, s')" by simp
  have canon: "pg_uuid P i = Some i" using inv by (auto simp: pg_ids_def pg_events_def canonical_id_def)
  from call show "pg_ids P s' \<and>
      outcome u (pg_events s' = pg_events s) (pg_events s' = (pg_events s)(i \<mapsto> e\<lparr>ev_Published := True\<rparr>))"
    unfolding Postgres_MarkPublished_def
  proof (cases rule: statement_cases)
    case (committed a)
    then have s': "s' = s\<lparr>t_outbox := (t_outbox s)(i :=
        map_option (\<lambda>r. r\<lparr>or_published_at := Some (cx_now c)\<rparr>) (t_outbox s i))\<rparr>"
      using canon by auto
    have "pg_events s' = (pg_events s)(i \<mapsto> e\<lparr>ev_Published := True\<rparr>)"
      using inv(2) by (auto simp: s' pg_events_def row_event_def fun_eq_iff)
    moreover have "dom (t_outbox s') = dom (t_outbox s)" using inv(2) by (auto simp: s' pg_events_def)
    ultimately show ?thesis using inv(1) by (simp add: pg_ids_def outcome_all)
  qed (use inv in simp)
qed

section \<open>Leases\<close>

definition leased :: "int \<Rightarrow> string set \<Rightarrow> (string \<rightharpoonup> OutboxRow) \<Rightarrow> bool" where
  "leased t ids m \<longleftrightarrow> (\<forall>i \<in> ids. \<exists>r u. m i = Some r \<and> or_claimed_at r = Some u \<and> t \<le> u)"

lemma keeps_leased_rows:
  fixes Q :: "(string \<rightharpoonup> OutboxRow) \<Rightarrow> bool"
  shows "keeps (\<lambda>s. Q (t_outbox s)) (insert_payment D P p)" "keeps (\<lambda>s. Q (t_outbox s)) (insert_key P key i)"
    "keeps (\<lambda>s. Q (t_outbox s)) (update_payment D P i f)" "keeps (\<lambda>s. Q (t_outbox s)) (insert_entry D P w e)"
    "keeps (\<lambda>s. Q (t_outbox s)) (insert_payout D P po)" "keeps (\<lambda>s. Q (t_outbox s)) (update_payout P i g)"
    "keeps (\<lambda>s. Q (t_outbox s)) (insert_dispute D P di)" "keeps (\<lambda>s. Q (t_outbox s)) (select_payment P i)"
    "keeps (\<lambda>s. Q (t_outbox s)) (lock_payment P i)" "keeps (\<lambda>s. Q (t_outbox s)) (select_payout P i)"
    "keeps (\<lambda>s. Q (t_outbox s)) (select_dispute P i)" "keeps (\<lambda>s. Q (t_outbox s)) (select_balance D P a cur)"
    "keeps (\<lambda>s. Q (t_outbox s)) (write_payment D P p)"
    "keeps (\<lambda>s. Q (t_outbox s)) (andThen (val_uuid P i) (\<lambda>j s. Inr ((), s\<lparr>t_disputes := (t_disputes s)(j :=
       map_option (\<lambda>r. r\<lparr>dr_status := status\<rparr>) (t_disputes s j))\<rparr>)))"
  by (auto simp: keeps_def insert_payment_def insert_key_def update_payment_def insert_entry_def insert_payout_def
      update_payout_def insert_dispute_def select_payment_def lock_payment_def select_payout_def select_dispute_def
      select_balance_def write_payment_def split: if_splits option.splits)

lemma leased_new: "leased t ids m \<Longrightarrow> m i = None \<Longrightarrow> leased t ids (m(i \<mapsto> r))"
  unfolding leased_def by (metis fun_upd_other option.distinct(1))

lemma leased_upd:
  assumes "leased t ids m" "\<And>i r. m i = Some r \<Longrightarrow> \<exists>r'. m' i = Some r' \<and>
    (or_claimed_at r' = or_claimed_at r \<or> (\<exists>u. or_claimed_at r' = Some u \<and> t \<le> u))"
  shows "leased t ids m'"
  using assms unfolding leased_def by metis

lemma keeps_leased_event: "keeps (\<lambda>s. leased t ids (t_outbox s)) (insert_event P now i a ev)"
  by (auto simp: keeps_def insert_event_def split: if_splits intro: leased_new)

lemma keeps_leased_entries: "keeps (\<lambda>s. leased t ids (t_outbox s)) (insert_entries D P c n w es)"
  by (induction es arbitrary: n) (auto intro!: keeps_rules keeps_andThen keeps_leased_rows)

lemmas keeps_leased = keeps_rules keeps_andThen keeps_leased_event keeps_leased_entries keeps_leased_rows

lemma leased_transaction:
  "transaction c m s = (r, s') \<Longrightarrow> leased t ids (t_outbox s) \<Longrightarrow>
     keeps (\<lambda>s. leased t ids (t_outbox s)) m \<Longrightarrow> leased t ids (t_outbox s')"
  using transaction_keeps [where Q = "\<lambda>s. leased t ids (t_outbox s)"] by blast

lemma leased_statement:
  "statement c n m s = (r, s') \<Longrightarrow> leased t ids (t_outbox s) \<Longrightarrow>
     keeps (\<lambda>s. leased t ids (t_outbox s)) m \<Longrightarrow> leased t ids (t_outbox s')"
  using statement_keeps [where Q = "\<lambda>s. leased t ids (t_outbox s)"] by blast

lemma leased_writers:
  assumes "leased t ids (t_outbox s)"
  shows "Postgres_ApplyAmount D P c i action amount s = (r, s') \<Longrightarrow> leased t ids (t_outbox s')"
    and "Postgres_CommitPaymentCommand D P c cmd s = (r, s') \<Longrightarrow> leased t ids (t_outbox s')"
    and "Postgres_insertPayment D P c p key s = (r0, s') \<Longrightarrow> leased t ids (t_outbox s')"
    and "Postgres_insertPayout D P c po es ev s = (rp, s') \<Longrightarrow> leased t ids (t_outbox s')"
    and "Postgres_TransitionPayout D P c i pst reference es ev s = (rp, s') \<Longrightarrow> leased t ids (t_outbox s')"
    and "Postgres_CreateDispute D P c di es ev s = (rd, s') \<Longrightarrow> leased t ids (t_outbox s')"
    and "Postgres_ResolveDispute D P c i dst es ev s = (rd, s') \<Longrightarrow> leased t ids (t_outbox s')"
  unfolding Postgres_ApplyAmount_def Postgres_CommitPaymentCommand_def Postgres_insertPayment_def Postgres_insertPayout_def
    Postgres_TransitionPayout_def Postgres_CreateDispute_def Postgres_ResolveDispute_def
  by (erule leased_transaction [OF _ assms], intro keeps_leased)+

lemma leased_statements:
  assumes "leased t ids (t_outbox s)"
  shows "Postgres_update D P c i status reference s = (r, s') \<Longrightarrow> leased t ids (t_outbox s')"
    and "Postgres_Enqueue P c ev s = (ru, s') \<Longrightarrow> leased t ids (t_outbox s')"
    and "Postgres_RegisterWebhook P c i s = (rb, s') \<Longrightarrow> leased t ids (t_outbox s')"
proof -
  show "Postgres_update D P c i status reference s = (r, s') \<Longrightarrow> leased t ids (t_outbox s')"
    unfolding Postgres_update_def by (erule leased_statement [OF _ assms], intro keeps_leased)
  show "Postgres_Enqueue P c ev s = (ru, s') \<Longrightarrow> leased t ids (t_outbox s')"
    unfolding Postgres_Enqueue_def by (erule leased_statement [OF _ assms], intro keeps_leased)
  show "Postgres_RegisterWebhook P c i s = (rb, s') \<Longrightarrow> leased t ids (t_outbox s')"
    unfolding Postgres_RegisterWebhook_def
    by (erule leased_statement [OF _ assms], intro keeps_check) (simp add: keeps_def)
qed

lemma leased_append:
  assumes "leased t ids (t_outbox s)" "Postgres_AppendLedger D P c es s = (r, s')"
  shows "leased t ids (t_outbox s')"
  using assms leased_transaction [OF _ assms(1) keeps_leased_entries]
  by (auto simp: Postgres_AppendLedger_def split: sum.splits)

lemma leased_mark:
  assumes "leased t ids (t_outbox s)" "Postgres_MarkPublished P c i s = (r, s')"
  shows "leased t ids (t_outbox s')"
  using assms(2) unfolding Postgres_MarkPublished_def
proof (cases rule: statement_cases)
  case (committed a)
  then obtain j where s': "s' = s\<lparr>t_outbox := (t_outbox s)(j :=
      map_option (\<lambda>r. r\<lparr>or_published_at := Some (cx_now c)\<rparr>) (t_outbox s j))\<rparr>" by auto
  show ?thesis by (rule leased_upd [OF assms(1)]) (auto simp: s')
qed (use assms(1) in simp)

lemma leased_claim:
  assumes "leased t ids (t_outbox s)" "Postgres_ClaimOutbox c n s = (r, s')" "t \<le> cx_now c"
  shows "leased t ids (t_outbox s')"
  using assms(2)
  by (cases rule: claim_cases) (use assms(1,3) in \<open>auto intro: leased_upd\<close>)

lemma leased_call:
  assumes "pg_call D P u s s'" "t \<le> u" "leased t ids (t_outbox s)"
  shows "leased t ids (t_outbox s')"
  using assms
  by (induction rule: pg_call.induct)
    (blast intro: leased_writers leased_statements leased_append leased_mark leased_claim)+

lemma leased_run:
  assumes "pg_run D P t s u s'" "leased t ids (t_outbox s)"
  shows "t \<le> u \<and> leased t ids (t_outbox s')"
  using assms by (induction rule: pg_run.induct) (auto intro: leased_call)

text \<open>A claim leases what it returns, and a leased event is not claimed for a minute.\<close>

lemma claimed_ids:
  assumes "\<And>es. set (cx_returning c es) = set es" "Postgres_ClaimOutbox c n s = (Inr es, s')"
  shows "ev_ID ` set es = set (candidates c (nat n) (t_outbox s))"
  using assms(2)
  by (cases rule: claim_cases) (auto simp: assms(1) image_image answer_def split: option.splits)

lemma candidates_free:
  "i \<in> set (candidates c k m) \<Longrightarrow> \<exists>r. m i = Some r \<and> lease_free (cx_now c) r"
  by (auto simp: candidates_def split: option.splits dest!: in_set_takeD)

lemma claim_leases:
  assumes "\<And>es. set (cx_returning c es) = set es" "Postgres_ClaimOutbox c n s = (Inr es, s')"
  shows "leased (cx_now c) (ev_ID ` set es) (t_outbox s')"
  using assms(2)
proof (cases rule: claim_cases)
  case (claimed ids)
  then have "\<exists>r. t_outbox s i = Some r" if "i \<in> set ids" for i
    using candidates_free [of i c "nat n" "t_outbox s"] that by blast
  then show ?thesis
    using claimed_ids [OF assms] claimed(1) by (fastforce simp: leased_def claimed(4))
qed simp

lemma leased_not_claimed:
  assumes "leased t ids (t_outbox s)" "\<And>es. set (cx_returning c es) = set es" "cx_now c \<le> t + 60000000"
    and "Postgres_ClaimOutbox c n s = (Inr es, s')"
  shows "ev_ID ` set es \<inter> ids = {}"
proof -
  have "i \<notin> ids" if "i \<in> set (candidates c (nat n) (t_outbox s))" for i
    using candidates_free [OF that] assms(1,3) by (auto simp: leased_def lease_free_def)
  then show ?thesis using claimed_ids [OF assms(2,4)] by blast
qed

section \<open>Properties\<close>

text \<open>
  C27: A claim of the outbox returns at most as many events as asked for, all unpublished, and leases
  them: for a minute, whatever calls other clients make in between and whether or not the events are
  published, no other claim returns any of them. So two workers do not deliver the same event within a minute.
\<close>

theorem claim_lease:
  assumes "\<And>es. mset (cx_returning c es) = mset es" "\<And>es. mset (cx_returning c' es) = mset es"
    and "0 \<le> n" "Postgres_ClaimOutbox c n s = (Inr es, s1)"
    and "pg_run D P (cx_now c) s1 t s2" "t \<le> cx_now c'" "cx_now c' \<le> cx_now c + 60000000"
    and "Postgres_ClaimOutbox c' n' s2 = (Inr es', s3)"
  shows "length es \<le> nat n \<and>
    (\<forall>e \<in> set es. \<exists>r. t_outbox s (ev_ID e) = Some r \<and> or_published_at r = None) \<and>
    ev_ID ` set es \<inter> ev_ID ` set es' = {}"
proof (intro conjI ballI)
  note sets = mset_eq_setD [OF assms(1)] mset_eq_setD [OF assms(2)]
  from assms(4) show "length es \<le> nat n"
  proof (cases rule: claim_cases)
    case (claimed ids)
    then have "mset es = mset (map (\<lambda>i. row_event i (the (t_outbox s i))) ids)"
      by (auto simp: assms(1) answer_def split: option.splits)
    from arg_cong [OF this, of size] have "length es = length ids" by simp
    moreover have "length ids \<le> nat n" by (simp add: claimed(1) candidates_def)
    ultimately show ?thesis by simp
  qed simp
  show "\<exists>r. t_outbox s (ev_ID e) = Some r \<and> or_published_at r = None" if "e \<in> set es" for e
    using that claimed_ids [OF sets(1) assms(4)] candidates_free [of "ev_ID e" c "nat n" "t_outbox s"]
    by (auto simp: lease_free_def)
  have "leased (cx_now c) (ev_ID ` set es) (t_outbox s2)"
    using leased_run [OF assms(5) claim_leases [OF sets(1) assms(4)]] by simp
  from leased_not_claimed [OF this sets(2) assms(7,8)]
  show "ev_ID ` set es \<inter> ev_ID ` set es' = {}" by blast
qed

text \<open>One event, and the claims of two workers half a minute apart.\<close>

definition pg_event_row :: OutboxRow where
  "pg_event_row = \<lparr>or_aggregate_id = demo_id, or_event_type = ''payment.created'', or_payload = ''{}'',
     or_claimed_at = None, or_published_at = None, or_created_at = 0\<rparr>"

definition pg_e0 :: "coef_exp PgStore" where
  "pg_e0 = NewPgStore\<lparr>t_outbox := [demo_id \<mapsto> pg_event_row]\<rparr>"

definition pg_e1 :: "coef_exp PgStore" where
  "pg_e1 = NewPgStore\<lparr>t_outbox := [demo_id \<mapsto> pg_event_row\<lparr>or_claimed_at := Some 0\<rparr>]\<rparr>"

definition claim_cx :: "int \<Rightarrow> coef_exp PgContext" where
  "claim_cx now = demo_cx\<lparr>cx_now := now, cx_rows := [demo_id]\<rparr>"

lemma claim_cx_simps [simp]: "cx_now (claim_cx now) = now" "cx_rows (claim_cx now) = [demo_id]"
  "cx_fail (claim_cx now) n = None" "cx_lost (claim_cx now) = None" "cx_locked (claim_cx now) = {}" "cx_returning (claim_cx now) = (\<lambda>es. es)"
  by (simp_all add: claim_cx_def demo_cx_def)

lemma demo_candidates:
  "candidates (claim_cx 0) 100 (t_outbox pg_e0) = [demo_id]"
  "candidates (claim_cx 30000000) 100 (t_outbox pg_e1) = []"
  by (simp_all add: candidates_def pg_e0_def pg_e1_def lease_free_def pg_event_row_def)

lemma demo_claims:
  "Postgres_ClaimOutbox (claim_cx 0) 100 pg_e0 = (Inr [row_event demo_id pg_event_row], pg_e1)"
  "Postgres_ClaimOutbox (claim_cx 30000000) 100 pg_e1 = (Inr [], pg_e1)"
proof -
  have "(\<lambda>i. if i = demo_id then map_option (or_claimed_at_update (\<lambda>_. Some (cx_now (claim_cx 0)))) (t_outbox pg_e0 i)
      else t_outbox pg_e0 i) = t_outbox pg_e1"
    by (rule ext) (simp add: pg_e0_def pg_e1_def)
  moreover have "the (t_outbox pg_e0 demo_id) = pg_event_row" "pg_e0\<lparr>t_outbox := t_outbox pg_e1\<rparr> = pg_e1"
    by (simp_all add: pg_e0_def pg_e1_def)
  ultimately show "Postgres_ClaimOutbox (claim_cx 0) 100 pg_e0 = (Inr [row_event demo_id pg_event_row], pg_e1)"
    by (simp add: Postgres_ClaimOutbox_def statement_def exec_def answer_def demo_candidates Let_def)
  show "Postgres_ClaimOutbox (claim_cx 30000000) 100 pg_e1 = (Inr [], pg_e1)"
    by (simp add: Postgres_ClaimOutbox_def statement_def exec_def answer_def demo_candidates Let_def)
qed

theorem claim_lease_witness:
  "demo_id \<notin> ev_ID ` set (projr (fst (Postgres_ClaimOutbox (claim_cx 30000000) 100 pg_e1))) \<and>
   demo_id \<in> ev_ID ` set (projr (fst (Postgres_ClaimOutbox (claim_cx 0) 100 pg_e0)))"
proof -
  have "ev_ID ` set [row_event demo_id pg_event_row] \<inter> ev_ID ` set ([] :: OutboxEvent list) = {}"
    using claim_lease [OF _ _ _ demo_claims(1) run_start _ _ demo_claims(2)] by simp
  then show ?thesis by (simp add: demo_claims)
qed

text \<open>
  C28: A round of the worker process over the PostgreSQL store, connected to the broker, marks an event
  published only after the broker acknowledged it and, when a webhook URL is configured, after the
  merchant's endpoint accepted it; it marks only events that were unpublished, changes
  no other content of the outbox, and marks all claimed events when it reports no error.
\<close>

theorem postgres_deliver:
  assumes "natsURL \<noteq> []" "pg_ids P s" "pg_choice s (ctx 0)"
    and "OutboxWorker_Deliver (postgresStore D P) ctx (worker_publisher net natsURL webhookURL secret) n (s, h)
           = (r, (s', h'))"
  shows "\<exists>es. claimable (pg_events s) es \<and> pg_events s' = mark_all es (pg_events s) \<and>
     pending (pg_events s') = pending (pg_events s) - ev_ID ` set es \<and>
     (\<forall>e \<in> set es. delivered net webhookURL secret e h') \<and>
     (r = Inr () \<longrightarrow> (\<exists>s1. Postgres_ClaimOutbox (ctx 0) n s = (Inr es, s1)))"
  using po.deliver_prefix [OF worker_establishes [OF assms(1)] assms(2-4)] pending_mark_all
  by (metis postgresStore_simps(8))

theorem postgres_deliver_witness:
  "\<exists>s' h'. OutboxWorker_Deliver (postgresStore ce_pkg demo_pg) (\<lambda>_. claim_cx 0)
       (worker_publisher demo_net ''nats'' [] []) 100 (pg_e0, []) = (Inr (), (s', h')) \<and>
     pending (pg_events s') = {}"
proof -
  have ids: "pg_ids demo_pg pg_e0" by (simp add: pg_ids_def pg_e0_def)
  have choice: "pg_choice pg_e0 (claim_cx 0)" by (simp add: pg_choice_def visits_def pg_e0_def)
  obtain s' h' where call: "OutboxWorker_Deliver (postgresStore ce_pkg demo_pg) (\<lambda>_. claim_cx 0)
       (worker_publisher demo_net ''nats'' [] []) 100 (pg_e0, []) = (Inr (), (s', h'))"
    by (simp add: OutboxWorker_Deliver_def demo_claims worker_publisher_def NATSPublisher_Publish_def
        js_Publish_def demo_net_def Postgres_MarkPublished_def stmt_defs)
  have "pending (pg_events pg_e0) = {demo_id}"
    by (auto simp: pending_def pg_events_def pg_e0_def pg_event_row_def split: if_splits)
  moreover have "\<exists>es. (\<exists>s1. Postgres_ClaimOutbox (claim_cx 0) 100 pg_e0 = (Inr es, s1)) \<and>
      pending (pg_events s') = pending (pg_events pg_e0) - ev_ID ` set es"
    using postgres_deliver [OF _ ids choice call] by auto
  ultimately have "pending (pg_events s') = {}" by (auto simp: demo_claims)
  with call show ?thesis by blast
qed

end
