(* ===== verification/Worker_Process.thy ===== *)
theory Worker_Process
  imports Postgres_Outbox
begin

text \<open>
  The worker process (src/cmd/worker/main.go) over the PostgreSQL store: its start-up, and the proof
  that its rounds drain the outbox when the publisher and the connection work.
\<close>

section \<open>The process\<close>

text \<open>
  \<open>newPool\<close> is \<open>pgxpool.New\<close>. The left result is the message of \<open>log.Fatal\<close>; the loop is cut after a
  number of rounds.
\<close>

definition worker_main ::
  "(string \<Rightarrow> string) \<Rightarrow> (string \<Rightarrow> 'p result) \<Rightarrow> NatsClient \<Rightarrow> Net \<Rightarrow> 'd decimal_pkg \<Rightarrow> 'd Pg
    \<Rightarrow> (nat \<Rightarrow> nat \<Rightarrow> 'd PgContext) \<Rightarrow> nat \<Rightarrow> 'd PgStore \<times> history \<Rightarrow> ('d PgStore \<times> history) result" where
  "worker_main getenv newPool nc net D P ctx rounds sh =
     (if getenv ''DATABASE_URL'' = [] then Inl (Err ''DATABASE_URL is required'')
      else case newPool (getenv ''DATABASE_URL'') of
        Inl e \<Rightarrow> Inl e
      | Inr pool \<Rightarrow>
     (case (if getenv ''NATS_URL'' = [] then Inr () else fst (NewNATSPublisher nc (getenv ''NATS_URL''))) of
        Inl e \<Rightarrow> Inl (Err (''NATS initialization failed: '' @ Error e))
      | Inr _ \<Rightarrow>
          Inr (worker_rounds (postgresStore D P) ctx
            (worker_publisher net (getenv ''NATS_URL'') (getenv ''MERCHANT_WEBHOOK_URL'')
              (getenv ''MERCHANT_WEBHOOK_SECRET'')) 100 rounds sh)))"

section \<open>One round\<close>

text \<open>No claim of the minute before \<open>t\<close> holds an unpublished event.\<close>

definition unleased :: "int \<Rightarrow> (string \<rightharpoonup> OutboxRow) \<Rightarrow> bool" where
  "unleased t m \<longleftrightarrow> (\<forall>i r. m i = Some r \<longrightarrow> or_published_at r = None \<longrightarrow> lease_free t r)"

definition round_ok :: "int \<Rightarrow> 'd Pg \<Rightarrow> 'd PgStore \<Rightarrow> bool" where
  "round_ok t P s \<longleftrightarrow> pg_ids P s \<and> finite (dom (t_outbox s)) \<and> unleased t (t_outbox s)"

text \<open>A connection that works and loses no answer, on an otherwise idle database, at a time not before \<open>t\<close>.\<close>

definition calm_call :: "int \<Rightarrow> 'd PgStore \<Rightarrow> 'd PgContext \<Rightarrow> bool" where
  "calm_call t s c \<longleftrightarrow> pg_choice s c \<and> t \<le> cx_now c \<and> cx_fail c = (\<lambda>_. None) \<and> cx_lost c = None \<and> cx_locked c = {}"

lemma lease_free_mono: "lease_free t r \<Longrightarrow> t \<le> u \<Longrightarrow> lease_free u r"
  by (auto simp: lease_free_def split: option.splits)

lemma pending_rows:
  "i \<in> pending (pg_events s) \<longleftrightarrow> (\<exists>r. t_outbox s i = Some r \<and> or_published_at r = None)"
  by (auto simp: pending_def pg_events_def)

lemma finite_pending: "finite (dom (t_outbox s)) \<Longrightarrow> finite (pending (pg_events s))"
  by (rule finite_subset [of _ "dom (t_outbox s)"]) (auto simp: pending_rows)

lemma candidates_all:
  assumes "unleased t (t_outbox s)" "calm_call t s c"
  shows "card (set (candidates c n (t_outbox s))) = min (card (pending (pg_events s))) n"
    and "set (candidates c n (t_outbox s)) \<subseteq> pending (pg_events s)"
proof -
  let ?free = "filter (\<lambda>i. i \<notin> cx_locked c \<and> (case t_outbox s i of None \<Rightarrow> False | Some r \<Rightarrow> lease_free (cx_now c) r))
       (sort_key (\<lambda>i. case t_outbox s i of None \<Rightarrow> 0 | Some r \<Rightarrow> or_created_at r) (cx_rows c))"
  have rows: "distinct (cx_rows c)" "set (cx_rows c) = dom (t_outbox s)" "cx_locked c = {}" "t \<le> cx_now c"
    using assms(2) by (auto simp: calm_call_def pg_choice_def visits_def)
  have dist: "distinct ?free" using rows(1) by simp
  have set: "set ?free = pending (pg_events s)"
  proof (intro set_eqI iffI)
    fix i assume "i \<in> set ?free"
    then show "i \<in> pending (pg_events s)" by (auto simp: pending_rows lease_free_def split: option.splits)
  next
    fix i assume "i \<in> pending (pg_events s)"
    then obtain r where r: "t_outbox s i = Some r" "or_published_at r = None" by (auto simp: pending_rows)
    with assms(1) rows(4) have "lease_free (cx_now c) r" by (auto simp: unleased_def intro: lease_free_mono)
    with r rows(2,3) show "i \<in> set ?free" by auto
  qed
  have "card (set (take n ?free)) = min (card (pending (pg_events s))) n"
    using distinct_card [OF dist] distinct_card [OF distinct_take [OF dist, of n]] unfolding set by simp
  then show "card (set (candidates c n (t_outbox s))) = min (card (pending (pg_events s))) n"
    by (simp add: candidates_def)
  show "set (candidates c n (t_outbox s)) \<subseteq> pending (pg_events s)"
    unfolding candidates_def set [symmetric] by (rule set_take_subset)
qed

text \<open>
  What a publication of the worker process leaves in the history: the acknowledgements of the broker and of
  the merchant's endpoint, or a line of the log when no broker is configured.
\<close>

definition published :: "Net \<Rightarrow> string \<Rightarrow> string \<Rightarrow> string \<Rightarrow> OutboxEvent \<Rightarrow> history \<Rightarrow> bool" where
  "published net natsURL webhookURL secret e h \<longleftrightarrow>
     (if natsURL = []
      then SentLog (''published event id='' @ ev_ID e @ '' type='' @ ev_EventType e @ '' aggregate='' @ ev_AggregateID e) \<in> set h
      else delivered net webhookURL secret e h)"

lemma published_established:
  "establishes (worker_publisher net natsURL webhookURL secret) (published net natsURL webhookURL secret)"
proof (cases "natsURL = []")
  case True
  then show ?thesis
    by (auto simp: establishes_def published_def worker_publisher_def LogPublisher_Publish_def)
next
  case False
  have "published net natsURL webhookURL secret = delivered net webhookURL secret"
    using False by (simp add: published_def fun_eq_iff)
  then show ?thesis using worker_establishes [OF False] by simp
qed

text \<open>The events that leave the set of pending ones between two states have the property \<open>Q\<close>.\<close>

definition sent_between :: "(OutboxEvent \<Rightarrow> bool) \<Rightarrow> 'd PgStore \<Rightarrow> 'd PgStore \<Rightarrow> bool" where
  "sent_between Q s s' \<longleftrightarrow> pending (pg_events s') \<subseteq> pending (pg_events s) \<and>
     (\<forall>i \<in> pending (pg_events s'). pg_events s' i = pg_events s i) \<and>
     (\<forall>i \<in> pending (pg_events s) - pending (pg_events s'). \<exists>e. pg_events s i = Some e \<and> Q e)"

lemma sent_between_trans:
  assumes "sent_between Q s s'" "sent_between Q s' s''"
  shows "sent_between Q s s''"
proof -
  have "\<exists>e. pg_events s i = Some e \<and> Q e" if "i \<in> pending (pg_events s)" "i \<notin> pending (pg_events s'')" for i
  proof (cases "i \<in> pending (pg_events s')")
    case True
    with assms that(2) have "pg_events s' i = pg_events s i" "\<exists>e. pg_events s' i = Some e \<and> Q e"
      by (auto simp: sent_between_def)
    then show ?thesis by simp
  next
    case False
    with assms(1) that(1) show ?thesis by (simp add: sent_between_def)
  qed
  then show ?thesis using assms by (auto simp: sent_between_def)
qed

lemma sent_between_mono: "sent_between Q s s' \<Longrightarrow> (\<And>e. Q e \<Longrightarrow> Q' e) \<Longrightarrow> sent_between Q' s s'"
  unfolding sent_between_def by blast

lemma mark_all_other: "i \<notin> ev_ID ` set es \<Longrightarrow> mark_all es m i = m i"
  by (induction es arbitrary: m) auto

lemma sent_between_marked:
  assumes "pg_events s' = mark_all es (pg_events s)" "claimable (pg_events s) es" "\<forall>e \<in> set es. Q e"
  shows "sent_between Q s s'"
proof -
  have "pending (pg_events s') = pending (pg_events s) - ev_ID ` set es"
    by (simp only: assms(1) pending_mark_all)
  moreover have "pg_events s' i = pg_events s i" if "i \<notin> ev_ID ` set es" for i
    using mark_all_other [OF that] by (simp only: assms(1))
  ultimately show ?thesis using assms(2,3) by (auto simp: sent_between_def claimable_def)
qed

text \<open>Delivering marks rows and changes no lease.\<close>

lemma deliver_loop_leases:
  "deliver_loop (postgresStore D P) ctx publisher es (s, h) = (r, (s', h')) \<Longrightarrow>
     dom (t_outbox s') = dom (t_outbox s) \<and>
     (\<forall>i q q'. t_outbox s i = Some q \<longrightarrow> t_outbox s' i = Some q' \<longrightarrow> or_claimed_at q' = or_claimed_at q)"
proof (induction es arbitrary: s h ctx)
  case (Cons e es)
  obtain r1 h1 where pub: "publisher e h = (r1, h1)" by fastforce
  obtain u s1 where mk: "Postgres_MarkPublished P (ctx 0) (ev_ID e) s = (u, s1)" by fastforce
  then have one: "dom (t_outbox s1) = dom (t_outbox s) \<and>
      (\<forall>i q q'. t_outbox s i = Some q \<longrightarrow> t_outbox s1 i = Some q' \<longrightarrow> or_claimed_at q' = or_claimed_at q)"
    unfolding Postgres_MarkPublished_def by (cases rule: statement_cases) (auto split: if_splits)
  show ?case
  proof (cases "\<exists>v w. r1 = Inr v \<and> u = Inr w")
    case True
    with Cons.prems pub mk have "deliver_loop (postgresStore D P) (\<lambda>k. ctx (Suc k)) publisher es (s1, h1) = (r, (s', h'))"
      by auto
    from Cons.IH [OF this] one show ?thesis by (metis domD domI)
  next
    case False
    with Cons.prems pub mk have "s' = s \<or> s' = s1" by (auto split: sum.splits)
    with one show ?thesis by auto
  qed
qed auto

lemma deliver_loop_ok:
  assumes "works publisher" "\<And>j. cx_fail (ctx j) = (\<lambda>_. None) \<and> cx_lost (ctx j) = None" "pg_ids P s" "claimable (pg_events s) es"
  shows "\<exists>s' h'. deliver_loop (postgresStore D P) ctx publisher es (s, h) = (Inr (), (s', h'))"
  using assms(2-4)
proof (induction es arbitrary: s h ctx)
  case (Cons e es)
  obtain h1 where h1: "publisher e h = (Inr (), h1)" using assms(1) by (auto simp: works_def)
  have ev: "pg_events s (ev_ID e) = Some e" using Cons.prems by simp
  then have "pg_uuid P (ev_ID e) = Some (ev_ID e)"
    using Cons.prems(2) by (auto simp: pg_ids_def pg_events_def canonical_id_def)
  then obtain s1 where s1: "Postgres_MarkPublished P (ctx 0) (ev_ID e) s = (Inr (), s1)"
    using Cons.prems(1) [of 0] by (simp add: Postgres_MarkPublished_def stmt_defs)
  then have "S_MarkPublished (postgresStore D P) (ctx 0) (ev_ID e) s = (Inr (), s1)" by simp
  from po.mark [OF Cons.prems(2) ev this] have "pg_ids P s1" "claimable (pg_events s1) es"
    using Cons.prems(3) by (auto simp: claimable_upd)
  from Cons.IH [OF _ this, of "\<lambda>k. ctx (Suc k)" h1] Cons.prems(1) h1 s1 show ?case by simp
qed simp

lemma calm_claim:
  assumes "calm_call t s c" "0 \<le> n"
  obtains es s1 where "Postgres_ClaimOutbox c n s = (Inr es, s1)"
    "ev_ID ` set es = set (candidates c (nat n) (t_outbox s))"
    "\<And>i. i \<notin> ev_ID ` set es \<Longrightarrow> t_outbox s1 i = t_outbox s i" "dom (t_outbox s1) = dom (t_outbox s)"
proof -
  have sets: "\<And>es. set (cx_returning c es) = set es"
    using assms(1) mset_eq_setD by (auto simp: calm_call_def pg_choice_def)
  obtain r s1 where call: "Postgres_ClaimOutbox c n s = (r, s1)" by fastforce
  moreover obtain es where "r = Inr es"
    using call assms
    by (auto simp: Postgres_ClaimOutbox_def statement_def exec_def answer_def calm_call_def Let_def)
  ultimately have claim: "Postgres_ClaimOutbox c n s = (Inr es, s1)" by simp
  note ids = claimed_ids [OF sets claim]
  from claim show thesis
  proof (cases rule: claim_cases)
    case (claimed ids')
    show thesis by (rule that [OF claim ids]) (auto simp: claimed(4) claimed(1) ids split: if_splits)
  qed simp
qed

lemma round_drains:
  assumes ok: "round_ok t P s" and calls: "\<And>j. calm_call t s (ctx j)" and n: "0 \<le> n" and works: "works publisher"
    and est: "establishes publisher Q"
  shows "\<exists>s' h'. OutboxWorker_Deliver (postgresStore D P) ctx publisher n (s, h) = (Inr (), (s', h')) \<and>
     round_ok t P s' \<and> dom (t_outbox s') = dom (t_outbox s) \<and>
     card (pending (pg_events s')) = card (pending (pg_events s)) - nat n \<and>
     sent_between (\<lambda>e. Q e h') s s' \<and> (\<forall>e. Q e h \<longrightarrow> Q e h')"
proof -
  have s: "pg_ids P s" "finite (dom (t_outbox s))" "unleased t (t_outbox s)" using ok by (auto simp: round_ok_def)
  from calm_claim [OF calls n] obtain es s1 where claim: "Postgres_ClaimOutbox (ctx 0) n s = (Inr es, s1)"
    "ev_ID ` set es = set (candidates (ctx 0) (nat n) (t_outbox s))"
    "\<And>i. i \<notin> ev_ID ` set es \<Longrightarrow> t_outbox s1 i = t_outbox s i" "dom (t_outbox s1) = dom (t_outbox s)" by metis
  have "S_ClaimOutbox (postgresStore D P) (ctx 0) n s = (Inr es, s1)" using claim(1) by simp
  from po.claim [OF s(1) _ this] calls
  have s1: "pg_ids P s1" "pg_events s1 = pg_events s" "claimable (pg_events s) es" by (auto simp: calm_call_def)
  have "\<exists>s' h'. deliver_loop (postgresStore D P) (\<lambda>k. ctx (Suc k)) publisher es (s1, h) = (Inr (), (s', h'))"
    by (rule deliver_loop_ok [OF works _ s1(1)]) (use s1(2,3) calls in \<open>simp_all add: calm_call_def\<close>)
  then obtain s' h' where loop: "deliver_loop (postgresStore D P) (\<lambda>k. ctx (Suc k)) publisher es (s1, h) = (Inr (), (s', h'))"
    by blast
  from po.deliver_loop_prefix [OF est s1(1) _ loop] s1(2,3)
  have s': "pg_ids P s'" "pg_events s' = mark_all es (pg_events s)" "\<forall>e \<in> set es. Q e h'" "\<forall>e. Q e h \<longrightarrow> Q e h'" by auto
  note sent = sent_between_marked [OF s'(2) s1(3) s'(3)]
  note leases = deliver_loop_leases [OF loop]
  have pending: "pending (pg_events s') = pending (pg_events s) - ev_ID ` set es"
    by (simp only: s'(2) pending_mark_all)
  have "unleased t (t_outbox s')"
    unfolding unleased_def
  proof (intro allI impI)
    fix i q' assume q': "t_outbox s' i = Some q'" "or_published_at q' = None"
    then have i: "i \<notin> ev_ID ` set es" "i \<in> pending (pg_events s)" using pending pending_rows by blast+
    then obtain q where "t_outbox s i = Some q" "or_published_at q = None" by (auto simp: pending_rows)
    with claim(3) [OF i(1)] leases q' s(3) show "lease_free t q'"
      by (fastforce simp: unleased_def lease_free_def)
  qed
  moreover have "card (pending (pg_events s')) = card (pending (pg_events s)) - nat n"
  proof -
    note all = candidates_all [OF s(3) calls [of 0], of "nat n"]
    have "card (pending (pg_events s')) = card (pending (pg_events s)) - card (set (candidates (ctx 0) (nat n) (t_outbox s)))"
      unfolding pending claim(2) by (rule card_Diff_subset [OF finite_set all(2)])
    then show ?thesis unfolding all(1) by simp
  qed
  moreover have "OutboxWorker_Deliver (postgresStore D P) ctx publisher n (s, h) = (Inr (), (s', h'))"
    using claim(1) loop by (simp add: OutboxWorker_Deliver_def)
  ultimately show ?thesis using s'(1,4) sent leases claim(4) s(2) by (auto simp: round_ok_def)
qed

lemma worker_rounds_drain:
  assumes "round_ok t P s" "\<And>i j. calm_call t s (ctx i j)" "0 \<le> n" "works publisher" "establishes publisher Q"
  shows "\<exists>s' h'. worker_rounds (postgresStore D P) ctx publisher n k (s, h) = (s', h') \<and>
     card (pending (pg_events s')) = card (pending (pg_events s)) - k * nat n \<and>
     sent_between (\<lambda>e. Q e h') s s' \<and> (\<forall>e. Q e h \<longrightarrow> Q e h')"
  using assms(1,2)
proof (induction k arbitrary: s h ctx)
  case (Suc k)
  from round_drains [where D = D and h = h and ctx = "ctx 0", OF Suc.prems(1) Suc.prems(2) [of 0] assms(3-5)] obtain s1 h1 where
    one: "OutboxWorker_Deliver (postgresStore D P) (ctx 0) publisher n (s, h) = (Inr (), (s1, h1))" "round_ok t P s1"
      "dom (t_outbox s1) = dom (t_outbox s)" "card (pending (pg_events s1)) = card (pending (pg_events s)) - nat n"
      "sent_between (\<lambda>e. Q e h1) s s1" "\<forall>e. Q e h \<longrightarrow> Q e h1"
    by blast
  have "calm_call t s1 (ctx (Suc i) j)" for i j
    using Suc.prems(2) [of "Suc i" j] one(3) by (simp add: calm_call_def pg_choice_def visits_def)
  with Suc.IH [OF one(2), of "\<lambda>i. ctx (Suc i)" h1] obtain s' h' where
    rest: "worker_rounds (postgresStore D P) (\<lambda>i. ctx (Suc i)) publisher n k (s1, h1) = (s', h')"
      "card (pending (pg_events s')) = card (pending (pg_events s1)) - k * nat n"
      "sent_between (\<lambda>e. Q e h') s1 s'" "\<forall>e. Q e h1 \<longrightarrow> Q e h'" by blast
  have "sent_between (\<lambda>e. Q e h') s s'"
    using sent_between_trans [OF sent_between_mono [OF one(5)] rest(3)] rest(4) by blast
  with one rest show ?case by (simp add: algebra_simps)
qed (simp add: sent_between_def)

section \<open>Properties\<close>

text \<open>
  C29: The worker process, started with a database and, when a broker is configured, with a connection to
  it, runs its rounds and each of them takes the next 100 events of the outbox table, so after enough rounds
  none is pending; and every event that left the pending ones was published: acknowledged by the
  broker and, when a webhook URL is configured, accepted by the merchant's endpoint, or written to
  the log when no broker is configured. The conditions are that the publisher never fails, no
  statement fails and no answer is lost, no other client holds rows of the outbox or adds to it, and no claim
  of the minute before holds an unpublished event.
\<close>

theorem worker_main_drains:
  fixes getenv :: "string \<Rightarrow> string"
  assumes "getenv ''DATABASE_URL'' \<noteq> []" "newPool (getenv ''DATABASE_URL'') = Inr pool"
    and "getenv ''NATS_URL'' = [] \<or> fst (NewNATSPublisher nc (getenv ''NATS_URL'')) = Inr ()"
    and "works (worker_publisher net (getenv ''NATS_URL'') (getenv ''MERCHANT_WEBHOOK_URL'')
      (getenv ''MERCHANT_WEBHOOK_SECRET''))"
    and "round_ok t P s" "\<And>i j. calm_call t s (ctx i j)"
  shows "\<exists>s' h'. worker_main getenv newPool nc net D P ctx rounds (s, h) = Inr (s', h') \<and>
    card (pending (pg_events s')) = card (pending (pg_events s)) - 100 * rounds \<and>
    pending (pg_events s') \<subseteq> pending (pg_events s) \<and>
    (\<forall>i \<in> pending (pg_events s) - pending (pg_events s'). \<exists>e. pg_events s i = Some e \<and>
       published net (getenv ''NATS_URL'') (getenv ''MERCHANT_WEBHOOK_URL'')
         (getenv ''MERCHANT_WEBHOOK_SECRET'') e h')"
proof -
  have run: "worker_main getenv newPool nc net D P ctx rounds (s, h) =
      Inr (worker_rounds (postgresStore D P) ctx (worker_publisher net (getenv ''NATS_URL'')
        (getenv ''MERCHANT_WEBHOOK_URL'') (getenv ''MERCHANT_WEBHOOK_SECRET'')) 100 rounds (s, h))"
    using assms(1-3) by (auto simp: worker_main_def)
  from worker_rounds_drain [where n = 100 and D = D and k = rounds and h = h and ctx = ctx,
      OF assms(5,6) _ assms(4) published_established]
  obtain s' h' where "worker_rounds (postgresStore D P) ctx (worker_publisher net (getenv ''NATS_URL'')
        (getenv ''MERCHANT_WEBHOOK_URL'') (getenv ''MERCHANT_WEBHOOK_SECRET'')) 100 rounds (s, h) = (s', h')"
    "card (pending (pg_events s')) = card (pending (pg_events s)) - 100 * rounds"
    "sent_between (\<lambda>e. published net (getenv ''NATS_URL'') (getenv ''MERCHANT_WEBHOOK_URL'')
         (getenv ''MERCHANT_WEBHOOK_SECRET'') e h') s s'"
    by (auto simp: mult.commute)
  with run show ?thesis by (simp add: sent_between_def)
qed

definition demo_nats :: NatsClient where
  "demo_nats = \<lparr>nc_Connect = (\<lambda>_. None), nc_JetStream = None, nc_StreamInfo = (\<lambda>_. None),
     nc_AddStream = (\<lambda>_ _. None), nc_ErrStreamNotFound = Err ''nats: stream not found''\<rparr>"

theorem worker_main_drains_witness:
  "\<exists>s' h'. worker_main (\<lambda>name. if name = ''DATABASE_URL'' then ''db'' else if name = ''NATS_URL'' then ''nats'' else [])
      (\<lambda>_. Inr ()) demo_nats demo_net ce_pkg demo_pg (\<lambda>_ _. claim_cx 0) 1 (pg_e0, []) = Inr (s', h') \<and>
    card (pending (pg_events s')) = 0 \<and>
    acknowledged demo_net ''payments.events'' (row_event demo_id pg_event_row) h'"
proof -
  let ?getenv = "\<lambda>name. if name = ''DATABASE_URL'' then ''db'' else if name = ''NATS_URL'' then ''nats'' else []"
  have works: "works (worker_publisher demo_net ''nats'' [] [])"
    by (simp add: works_def worker_publisher_def NATSPublisher_Publish_def js_Publish_def demo_net_def)
  have nats: "fst (NewNATSPublisher demo_nats ''nats'') = Inr ()" by code_simp
  have ok: "round_ok 0 demo_pg pg_e0"
    by (auto simp: round_ok_def pg_ids_def pg_e0_def unleased_def lease_free_def pg_event_row_def split: if_splits)
  have calm: "calm_call 0 pg_e0 (claim_cx 0)"
    by (simp add: calm_call_def pg_choice_def visits_def pg_e0_def fun_eq_iff)
  have event: "pending (pg_events pg_e0) = {demo_id}" "pg_events pg_e0 demo_id = Some (row_event demo_id pg_event_row)"
    by (auto simp: pending_def pg_events_def pg_e0_def pg_event_row_def row_event_def split: if_splits)
  obtain s' h' where run: "worker_main ?getenv (\<lambda>_. Inr ()) demo_nats demo_net ce_pkg demo_pg (\<lambda>_ _. claim_cx 0) 1 (pg_e0, []) = Inr (s', h')"
      "card (pending (pg_events s')) = 0" "pending (pg_events s') \<subseteq> {demo_id}"
      "\<forall>i \<in> {demo_id} - pending (pg_events s'). \<exists>e. pg_events pg_e0 i = Some e \<and> published demo_net ''nats'' [] [] e h'"
    using worker_main_drains [where getenv = ?getenv and newPool = "\<lambda>_. Inr ()" and pool = "()" and nc = demo_nats and
        net = demo_net and t = 0 and P = demo_pg and s = pg_e0 and ctx = "\<lambda>_ _. claim_cx 0" and D = ce_pkg and
        rounds = 1 and h = "[]"] works nats ok calm event(1) by auto
  have "pending (pg_events s') = {}" using run(2) finite_subset [OF run(3)] by simp
  with run event show ?thesis by (auto simp: published_def delivered_def)
qed

end
