(* ===== verification/Postgres_Guards.thy ===== *)
theory Postgres_Guards
  imports Demo_Postgres
begin

text \<open>
  What the code's own checks and keys guarantee over the PostgreSQL store: the amounts and entries the
  store validates are never refused by a check constraint of the schema, and an idempotency key creates at
  most one payment, whatever other clients do.
\<close>

section \<open>Statements that fail\<close>


















section \<open>Checks of the code and of the schema\<close>


section \<open>Idempotency keys\<close>

text \<open>The payment of a key and the columns of its row that no statement changes.\<close>

definition row_same :: "'d PaymentRow \<Rightarrow> 'd PaymentRow \<Rightarrow> bool" where
  "row_same r r' \<longleftrightarrow> py_merchant_id r' = py_merchant_id r \<and> py_customer_id r' = py_customer_id r \<and>
     py_currency r' = py_currency r \<and> py_amount r' = py_amount r"

definition keyed :: "string \<Rightarrow> string \<Rightarrow> 'd PaymentRow \<Rightarrow> 'd PgStore \<Rightarrow> bool" where
  "keyed key i r s \<longleftrightarrow> t_keys s key = Some i \<and> (\<exists>r'. t_payments s i = Some r' \<and> row_same r r')"

lemma keyed_upd:
  "keyed key i r s \<Longrightarrow> (\<And>q. row_same q (f q)) \<Longrightarrow> t_payments s j = Some q \<Longrightarrow>
     keyed key i r (s\<lparr>t_payments := (t_payments s)(j \<mapsto> f q)\<rparr>)"
  by (auto simp: keyed_def row_same_def)

lemma keeps_keyed_update: "(\<And>q. row_same q (f q)) \<Longrightarrow> keeps (keyed key i r) (update_payment D P j f)"
  unfolding update_payment_def
  by (intro keeps_rules keepsI) (auto split: if_splits option.splits intro: keyed_upd)

lemma keeps_keyed_rows:
  "keeps (keyed key i r) (insert_payment D P p)" "keeps (keyed key i r) (insert_key P k j)"
  "keeps (keyed key i r) (insert_entry D P w e)" "keeps (keyed key i r) (insert_event P now j a ev)"
  "keeps (keyed key i r) (insert_payout D P po)" "keeps (keyed key i r) (update_payout P j g)"
  "keeps (keyed key i r) (insert_dispute D P di)"
  "keeps (keyed key i r) (lock_payment P j)" "keeps (keyed key i r) (select_payout P j)"
  "keeps (keyed key i r) (select_dispute P j)"
  "keeps (keyed key i r) (andThen (val_uuid P j) (\<lambda>j s. Inr ((), s\<lparr>t_disputes := (t_disputes s)(j :=
       map_option (\<lambda>r. r\<lparr>dr_status := status\<rparr>) (t_disputes s j))\<rparr>)))"
  by (auto simp: keeps_def keyed_def insert_payment_def insert_key_def insert_entry_def insert_event_def
      insert_payout_def update_payout_def insert_dispute_def lock_payment_def select_payment_def select_payout_def
      select_dispute_def split: if_splits option.splits)

lemma keeps_keyed_write: "keeps (keyed key i r) (write_payment D P p)"
  unfolding write_payment_def by (intro keeps_rules keeps_keyed_update) (simp add: row_same_def)

lemma keeps_keyed_entries: "keeps (keyed key i r) (insert_entries D P c n w es)"
  by (induction es arbitrary: n) (auto intro!: keeps_rules keeps_andThen keeps_keyed_rows)

lemmas keeps_keyed = keeps_rules keeps_andThen keeps_keyed_write keeps_keyed_entries keeps_keyed_rows

lemma keyed_transaction:
  "transaction c m s = (ra, s') \<Longrightarrow> keyed key i r s \<Longrightarrow> keeps (keyed key i r) m \<Longrightarrow> keyed key i r s'"
  using transaction_keeps [where Q = "keyed key i r"] by blast

lemma keyed_statement:
  "statement c n m s = (ra, s') \<Longrightarrow> keyed key i r s \<Longrightarrow> keeps (keyed key i r) m \<Longrightarrow> keyed key i r s'"
  using statement_keeps [where Q = "keyed key i r"] by blast

lemma keyed_call: "pg_call D P t s s' \<Longrightarrow> keyed key i r s \<Longrightarrow> keyed key i r s'"
proof (induction rule: pg_call.induct)
  case (call_apply c j action amount s ra s')
  show ?case
    by (rule keyed_transaction [OF call_apply(1) [unfolded Postgres_ApplyAmount_def] call_apply(2)],
        intro keeps_keyed keeps_keyed_update) (simp add: row_same_def)
next
  case (call_update c j status reference s ra s')
  show ?case
    by (rule keyed_statement [OF call_update(1) [unfolded Postgres_update_def] call_update(2)],
        intro keeps_keyed keeps_keyed_update) (simp add: row_same_def)
next
  case (call_append c es s ru s')
  then show ?case
    using keyed_transaction [OF _ call_append(2) keeps_keyed_entries]
    by (auto simp: Postgres_AppendLedger_def split: sum.splits)
next
  case (call_enqueue c ev s ru s')
  show ?case
    by (rule keyed_statement [OF call_enqueue(1) [unfolded Postgres_Enqueue_def] call_enqueue(2)], intro keeps_keyed)
next
  case (call_claim c n s re s')
  show ?case
    by (rule keyed_statement [OF call_claim(1) [unfolded Postgres_ClaimOutbox_def] call_claim(2)])
      (auto simp: keeps_def keyed_def Let_def split: if_splits)
next
  case (call_mark c j s ru s')
  show ?case
    by (rule keyed_statement [OF call_mark(1) [unfolded Postgres_MarkPublished_def] call_mark(2)])
      (auto simp: keeps_def keyed_def)
next
  case (call_register c j s rb s')
  show ?case
    by (rule keyed_statement [OF call_register(1) [unfolded Postgres_RegisterWebhook_def] call_register(2)])
      (auto simp: keeps_def keyed_def)
next
  case (call_create c p k s r0 s')
  show ?case
    by (rule keyed_transaction [OF call_create(1) [unfolded Postgres_insertPayment_def] call_create(2)], intro keeps_keyed)
next
  case (call_commit c cmd s ra s')
  show ?case
    by (rule keyed_transaction [OF call_commit(1) [unfolded Postgres_CommitPaymentCommand_def] call_commit(2)], intro keeps_keyed)
next
  case (call_payout c po es ev s rp s')
  show ?case
    by (rule keyed_transaction [OF call_payout(1) [unfolded Postgres_insertPayout_def] call_payout(2)], intro keeps_keyed)
next
  case (call_complete c j pst reference es ev s rp s')
  show ?case
    by (rule keyed_transaction [OF call_complete(1) [unfolded Postgres_TransitionPayout_def] call_complete(2)], intro keeps_keyed)
next
  case (call_dispute c di es ev s rd s')
  show ?case
    by (rule keyed_transaction [OF call_dispute(1) [unfolded Postgres_CreateDispute_def] call_dispute(2)], intro keeps_keyed)
next
  case (call_resolve c j dst es ev s rd s')
  show ?case
    by (rule keyed_transaction [OF call_resolve(1) [unfolded Postgres_ResolveDispute_def] call_resolve(2)], intro keeps_keyed)
qed

lemma keyed_run: "pg_run D P t s t' s' \<Longrightarrow> keyed key i r s \<Longrightarrow> keyed key i r s'"
  by (induction rule: pg_run.induct) (blast intro: keyed_call)+

text \<open>A creation that made its change, with or without an answer, wrote the row and the key.\<close>

lemma created_keyed:
  assumes "Postgres_CreatePayment D P c p key s = (Inr (q, False), s1)"
  obtains i r where "pg_uuid P (p_ID p) = Some i" "keyed key i r s1" "pg_text P key" "q = p"
    "py_merchant_id r = p_MerchantID p" "py_customer_id r = p_CustomerID p"
    "pg_char3 P (p_Currency p) = Some (py_currency r)" "pg_numeric P (p_Amount p) = Some (py_amount r)"
proof -
  from assms have "Postgres_insertPayment D P c p key (cx_between c s) = (Inr (q, False), s1)"
    by (auto simp: Postgres_CreatePayment_def split: sum.splits prod.splits option.splits)
  then obtain s0 where ok: "insert_payment D P p (cx_between c s) = Inr ((), s0)"
    "insert_key P key (p_ID p) s0 = Inr ((), s1)" "q = p"
    unfolding Postgres_insertPayment_def
    by (cases rule: transaction_cases) (auto simp: answer_def split: option.splits)
  from ok(1) obtain i cur amount where i: "pg_uuid P (p_ID p) = Some i" "pg_char3 P (p_Currency p) = Some cur"
    "pg_numeric P (p_Amount p) = Some amount" "t_payments s0 i = Some \<lparr>py_merchant_id = p_MerchantID p,
      py_customer_id = p_CustomerID p, py_currency = cur, py_amount = amount, py_captured_amount = decZero D,
      py_refunded_amount = decZero D, py_status = p_Status p, py_provider_reference = None\<rparr>"
    by (auto simp: insert_payment_def split: if_splits)
  then obtain r where r: "t_payments s0 i = Some r" "py_merchant_id r = p_MerchantID p"
    "py_customer_id r = p_CustomerID p" "py_currency r = cur" "py_amount r = amount" by simp
  with ok(2) i(1) have "keyed key i r s1" "pg_text P key"
    by (auto simp: insert_key_def keyed_def row_same_def split: if_splits)
  with i r ok(3) that show thesis by simp
qed

lemma keyed_insert:
  assumes "keyed key i r s" "Postgres_insertPayment D P c p key s = (ra, s')"
  shows "isl ra \<and> s' = s"
  using assms(2) unfolding Postgres_insertPayment_def
proof (cases rule: transaction_cases)
  case (committed a)
  then show ?thesis
    using assms(1) by (auto simp: insert_key_def insert_payment_def keyed_def split: if_splits)
qed simp

lemma keyed_replay:
  assumes "t_keys s key = Some i" "t_payments s i = Some r" "pg_text P key"
  shows "Postgres_CreatePayment D P c p key s =
     (case cx_fail c 0 of Some e \<Rightarrow> Inl (ExternalErr e) | None \<Rightarrow>
      (case cx_fail c 2 of Some e \<Rightarrow> Inl (ExternalErr e) | None \<Rightarrow>
       (case (case py_provider_reference r of None \<Rightarrow> pg_null P | Some reference \<Rightarrow> Inr reference) of
          Inl e \<Rightarrow> Inl e
        | Inr reference \<Rightarrow> Inr ((row_payment i r)\<lparr>p_CapturedAmount := decNil D,
            p_RefundedAmount := decNil D, p_ProviderReference := reference\<rparr>, True))), s)"
  using assms
  by (simp add: Postgres_CreatePayment_def select_replay_def exec_def andThen_def check_def
      split: option.splits sum.splits)

section \<open>Properties\<close>

text \<open>
  C30: An idempotency key creates at most one payment in the PostgreSQL store. After a call of
  \<open>CreatePayment\<close> has created a payment under a key, and after any sequence of calls by any clients, every
  further call with the key leaves the tables as they are; it returns the identifier, merchant, customer, currency
  and amount of the first payment with its present status, marked as a replay, or an error, and the
  error can only be that of the connection or of the driver that scans the column
  \<open>provider_reference\<close> while it is \<open>NULL\<close>. A call that looked the key up before it existed fails and
  changes nothing.
\<close>

theorem postgres_idempotent:
  assumes "Postgres_CreatePayment D P c p key s = (Inr (q, False), s1)" and "pg_run D P t s1 t' s2"
  shows "\<exists>i r. pg_uuid P (p_ID p) = Some i \<and> t_payments s2 i = Some r \<and>
     py_merchant_id r = p_MerchantID p \<and> py_customer_id r = p_CustomerID p \<and>
     pg_char3 P (p_Currency p) = Some (py_currency r) \<and> pg_numeric P (p_Amount p) = Some (py_amount r) \<and>
     (\<forall>c' p' r' s3. Postgres_CreatePayment D P c' p' key s2 = (r', s3) \<longrightarrow> s3 = s2 \<and>
        (case r' of
           Inr (q', replay) \<Rightarrow> replay \<and> p_ID q' = i \<and> p_MerchantID q' = py_merchant_id r \<and>
             p_CustomerID q' = py_customer_id r \<and> p_Currency q' = py_currency r \<and>
             p_Amount q' = py_amount r \<and> p_Status q' = py_status r
         | Inl e \<Rightarrow> cx_fail c' 0 \<noteq> None \<or> cx_fail c' 2 \<noteq> None \<or>
             py_provider_reference r = None \<and> pg_null P = Inl e)) \<and>
     (\<forall>c' p' r' s3. Postgres_insertPayment D P c' p' key s2 = (r', s3) \<longrightarrow> isl r' \<and> s3 = s2)"
proof -
  from created_keyed [OF assms(1)] obtain i r0 where i: "pg_uuid P (p_ID p) = Some i" "keyed key i r0 s1"
    "pg_text P key" "py_merchant_id r0 = p_MerchantID p" "py_customer_id r0 = p_CustomerID p"
    "pg_char3 P (p_Currency p) = Some (py_currency r0)" "pg_numeric P (p_Amount p) = Some (py_amount r0)" by metis
  note keyed = keyed_run [OF assms(2) i(2)]
  then obtain r where r: "t_keys s2 key = Some i" "t_payments s2 i = Some r" "row_same r0 r" by (auto simp: keyed_def)
  show ?thesis
  proof (intro exI [of _ i] exI [of _ r] conjI allI impI)
    fix c' p' r' s3
    assume "Postgres_CreatePayment D P c' p' key s2 = (r', s3)"
    from this [unfolded keyed_replay [OF r(1,2) i(3)], symmetric] show "s3 = s2"
      and "case r' of
           Inr (q', replay) \<Rightarrow> replay \<and> p_ID q' = i \<and> p_MerchantID q' = py_merchant_id r \<and>
             p_CustomerID q' = py_customer_id r \<and> p_Currency q' = py_currency r \<and>
             p_Amount q' = py_amount r \<and> p_Status q' = py_status r
         | Inl e \<Rightarrow> cx_fail c' 0 \<noteq> None \<or> cx_fail c' 2 \<noteq> None \<or>
             py_provider_reference r = None \<and> pg_null P = Inl e"
      by (auto simp: row_payment_def split: option.splits sum.splits)
  next
    fix c' p' r' s3
    assume "Postgres_insertPayment D P c' p' key s2 = (r', s3)"
    from keyed_insert [OF keyed this] show "isl r'" "s3 = s2" by simp_all
  qed (use i r in \<open>simp_all add: row_same_def\<close>)
qed

text \<open>The payment of the demo run is authorized and then created again by a client with another payment.\<close>

definition pg_s2 :: "coef_exp PgStore" where
  "pg_s2 = snd (Postgres_update ce_pkg demo_pg demo_cx demo_id PaymentAuthorized ''ref'' pg_s1)"

lemma pg_s2_call: "pg_call ce_pkg demo_pg 0 pg_s1 pg_s2"
proof -
  obtain r where "Postgres_update ce_pkg demo_pg demo_cx demo_id PaymentAuthorized ''ref'' pg_s1 = (r, pg_s2)"
    unfolding pg_s2_def by (metis prod.collapse)
  from call_update [OF this] show ?thesis by simp
qed

lemma pg_s2_run: "pg_run ce_pkg demo_pg 0 pg_s1 0 pg_s2"
  by (rule run_call [OF run_start order_refl pg_s2_call])

lemma pg_s2_row: "t_payments pg_s2 demo_id = Some (demo_row\<lparr>py_status := PaymentAuthorized, py_provider_reference := Some ''ref''\<rparr>)"
proof -
  have "row_amounts_ok ce_pkg (demo_row\<lparr>py_status := PaymentAuthorized, py_provider_reference := Some ''ref''\<rparr>)"
    unfolding demo_row_def by code_simp
  moreover have "no_NUL ''ref''" by code_simp
  ultimately show ?thesis
    by (simp add: pg_s2_def pg_s1_def Postgres_update_def stmt_defs update_payment_def nullif_def lock_payment_def
        select_payment_def)
qed

theorem postgres_idempotent_witness:
  "\<exists>q. Postgres_CreatePayment ce_pkg demo_pg demo_cx (demo_payment\<lparr>p_ID := ''1'', p_MerchantID := ''x''\<rparr>) ''order'' pg_s2 =
     (Inr (q, True), pg_s2) \<and> p_ID q = demo_id \<and> p_MerchantID q = ''m''"
proof -
  let ?p = "demo_payment\<lparr>p_ID := ''1'', p_MerchantID := ''x''\<rparr>"
  obtain r' s3 where call: "Postgres_CreatePayment ce_pkg demo_pg demo_cx ?p ''order'' pg_s2 = (r', s3)" by fastforce
  from postgres_idempotent [OF demo_create pg_s2_run] obtain r where
    r: "t_payments pg_s2 demo_id = Some r" "py_merchant_id r = ''m''"
    "\<forall>c' p' r' s3. Postgres_CreatePayment ce_pkg demo_pg c' p' ''order'' pg_s2 = (r', s3) \<longrightarrow> s3 = pg_s2 \<and>
        (case r' of
           Inr (q', replay) \<Rightarrow> replay \<and> p_ID q' = demo_id \<and> p_MerchantID q' = py_merchant_id r \<and>
             p_CustomerID q' = py_customer_id r \<and> p_Currency q' = py_currency r \<and>
             p_Amount q' = py_amount r \<and> p_Status q' = py_status r
         | Inl e \<Rightarrow> cx_fail c' 0 \<noteq> None \<or> cx_fail c' 2 \<noteq> None \<or>
             py_provider_reference r = None \<and> pg_null demo_pg = Inl e)" by auto
  from r(3) [rule_format, OF call] r(1,2) pg_s2_row call show ?thesis by (cases r') auto
qed




end
