(* ===== verification/Load.thy ===== *)
theory Load
  imports Decimal_Ext "HOL-Library.Word"
begin

text \<open>
  The load script (src/scripts/load.go): goroutines that share an atomic counter send one request
  per index until all are sent. A run is any interleaving of the goroutines' atomic steps, with any
  answers of the server.
\<close>

section \<open>The script\<close>

text \<open>\<open>strconv.Atoi\<close> on a 64-bit machine.\<close>

definition Atoi :: "string \<Rightarrow> int result" where
  "Atoi s =
     (let neg = (s \<noteq> [] \<and> hd s = CHR ''-'');
          ds = (if s \<noteq> [] \<and> hd s \<in> {CHR ''+'', CHR ''-''} then tl s else s)
      in if ds = [] then Inl (ExternalErr ''invalid syntax'')
         else case digits_value 0 ds of
           None \<Rightarrow> Inl (ExternalErr ''invalid syntax'')
         | Some v \<Rightarrow>
             (let n = (if neg then - v else v)
              in if n < - (2 ^ 63) \<or> 2 ^ 63 \<le> n then Inl (ExternalErr ''value out of range'') else Inr n))"

definition envInt :: "(string \<Rightarrow> string) \<Rightarrow> string \<Rightarrow> int \<Rightarrow> int" where
  "envInt getenv name fallback =
     (case Atoi (getenv name) of
        Inr value \<Rightarrow> if value > 0 then value else fallback
      | Inl _ \<Rightarrow> fallback)"

record LoadRequest =
  lq_URL :: string
  lq_Body :: string
  lq_Key :: string

definition load_request :: "string \<Rightarrow> int \<Rightarrow> LoadRequest" where
  "load_request baseURL i =
     \<lparr>lq_URL = baseURL @ ''/v1/payments'',
      lq_Body = ''{\"merchant_id\":\"load-merchant\",\"customer_id\":\"customer-'' @ nat_digits (nat i) @
        ''\",\"currency\":\"USD\",\"amount\":\"10.00\"}'',
      lq_Key = ''load-'' @ nat_digits (nat i)\<rparr>"

text \<open>Where a goroutine stands: at the head of its loop, with an index to send, with an answer, returned.\<close>

datatype Goroutine = Looping | Sending int | Counting bool | Returned

record Load =
  ld_next :: "64 word"
  ld_success :: "64 word"
  ld_failures :: "64 word"
  ld_routines :: "Goroutine list"
  ld_sent :: "LoadRequest list"
  ld_panic :: bool

text \<open>
  The next atomic step of one goroutine: it draws an index and returns when there is none left; it
  sends the request and receives the answer (\<open>ok\<close>: no error and status 201); it counts the answer.
  \<open>parses\<close> says that \<open>http.NewRequest\<close> accepts a URL; its error is ignored, so the use of the missing
  request ends the script with a panic.
\<close>

fun routine_step ::
  "(string \<Rightarrow> bool) \<Rightarrow> string \<Rightarrow> int \<Rightarrow> bool \<Rightarrow> Goroutine \<Rightarrow> Load \<Rightarrow> (Goroutine \<times> Load) option" where
  "routine_step parses baseURL total_n ok Looping s =
     (let n = ld_next s + 1; i = sint (n - 1)
      in Some (if i \<ge> total_n then Returned else Sending i, s\<lparr>ld_next := n\<rparr>))"
| "routine_step parses baseURL total_n ok (Sending i) s =
     (if parses (lq_URL (load_request baseURL i))
      then Some (Counting ok, s\<lparr>ld_sent := ld_sent s @ [load_request baseURL i]\<rparr>)
      else Some (Sending i, s\<lparr>ld_panic := True\<rparr>))"
| "routine_step parses baseURL total_n ok (Counting answer) s =
     Some (Looping, if answer then s\<lparr>ld_success := ld_success s + 1\<rparr> else s\<lparr>ld_failures := ld_failures s + 1\<rparr>)"
| "routine_step parses baseURL total_n ok Returned s = None"

definition load_step :: "(string \<Rightarrow> bool) \<Rightarrow> string \<Rightarrow> int \<Rightarrow> nat \<Rightarrow> bool \<Rightarrow> Load \<Rightarrow> Load option" where
  "load_step parses baseURL total_n k ok s =
     (if \<not> ld_panic s \<and> k < length (ld_routines s) then
        (case routine_step parses baseURL total_n ok (ld_routines s ! k) s of
           None \<Rightarrow> None
         | Some (g, s') \<Rightarrow> Some (s'\<lparr>ld_routines := (ld_routines s)[k := g]\<rparr>))
      else None)"

definition load_start :: "int \<Rightarrow> Load" where
  "load_start concurrency = \<lparr>ld_next = 0, ld_success = 0, ld_failures = 0,
     ld_routines = replicate (nat concurrency) Looping, ld_sent = [], ld_panic = False\<rparr>"

text \<open>A schedule says which goroutine moves next and what the server answers; \<open>group.Wait\<close> ends the script.\<close>

fun load_run :: "(string \<Rightarrow> bool) \<Rightarrow> string \<Rightarrow> int \<Rightarrow> (nat \<times> bool) list \<Rightarrow> Load \<Rightarrow> Load option" where
  "load_run parses baseURL total_n [] s = Some s"
| "load_run parses baseURL total_n ((k, ok) # sched) s =
     (case load_step parses baseURL total_n k ok s of None \<Rightarrow> None | Some s' \<Rightarrow> load_run parses baseURL total_n sched s')"

definition waited :: "Load \<Rightarrow> bool" where
  "waited s \<longleftrightarrow> list_all (\<lambda>g. g = Returned) (ld_routines s)"

definition load_URL :: "(string \<Rightarrow> string) \<Rightarrow> string" where
  "load_URL getenv = (if getenv ''BASE_URL'' = [] then ''http://localhost:8080'' else getenv ''BASE_URL'')"

definition load_main :: "(string \<Rightarrow> bool) \<Rightarrow> (string \<Rightarrow> string) \<Rightarrow> (nat \<times> bool) list \<Rightarrow> Load option" where
  "load_main parses getenv sched =
     (let baseURL = load_URL getenv;
          total_n = envInt getenv ''TOTAL'' 500; concurrency = envInt getenv ''CONCURRENCY'' 25
      in load_run parses baseURL total_n sched (load_start concurrency))"

section \<open>Numbers as text\<close>

lemma digits_value_append:
  "digits_value acc (s @ t) = (case digits_value acc s of None \<Rightarrow> None | Some v \<Rightarrow> digits_value v t)"
  by (induction s arbitrary: acc) simp_all

lemma digit_char:
  assumes "n < 10"
  shows "char_of (48 + n) \<in> set ''0123456789''" "of_char (char_of (48 + n) :: char) = (int (48 + n))"
proof -
  have "\<forall>n \<in> {0..<10 :: nat}. char_of (48 + n) \<in> set ''0123456789'' \<and>
      of_char (char_of (48 + n) :: char) = (int (48 + n))" by code_simp
  then have "char_of (48 + n) \<in> set ''0123456789'' \<and> of_char (char_of (48 + n) :: char) = (int (48 + n))"
    by (rule bspec) (use assms in simp)
  then show "char_of (48 + n) \<in> set ''0123456789''" "of_char (char_of (48 + n) :: char) = (int (48 + n))"
    by (rule conjunct1, rule conjunct2)
qed

lemma last_digit: "n = 10 * q + m \<Longrightarrow> 10 * int q + (int (48 + m) - 48) = int n"
  by simp

lemma digits_value_nat_digits: "digits_value 0 (nat_digits n) = Some (int n)"
proof (induction n rule: nat_digits.induct)
  case (1 n)
  show ?case
  proof (cases "n < 10")
    case True
    then have "nat_digits n = [char_of (48 + n)]" by (subst nat_digits.simps) (simp only: if_True)
    then have "digits_value 0 (nat_digits n) = Some (10 * 0 + (int (48 + n) - 48))"
      by (simp only: digits_value.simps digit_char [OF True] if_True)
    then show ?thesis by simp
  next
    case False
    have d: "n mod 10 < 10" by simp
    have "nat_digits n = nat_digits (n div 10) @ [char_of (48 + n mod 10)]"
      using False by (subst nat_digits.simps) (simp only: if_False)
    then have "digits_value 0 (nat_digits n) = Some (10 * int (n div 10) + (int (48 + n mod 10) - 48))"
      by (simp only: digits_value_append 1 [OF False] option.case digits_value.simps digit_char [OF d] if_True)
    moreover have "10 * int (n div 10) + (int (48 + n mod 10) - 48) = int n"
      by (rule last_digit) (simp only: mult_div_mod_eq)
    ultimately show ?thesis by (rule trans [OF _ arg_cong])
  qed
qed

lemma nat_digits_inj: "nat_digits m = nat_digits n \<Longrightarrow> m = n"
  using digits_value_nat_digits [of m] digits_value_nat_digits [of n] by (metis of_nat_eq_iff option.inject)

section \<open>The invariant\<close>

text \<open>
  \<open>issued\<close> indices have been drawn; those not yet sent are with the goroutines. Every step
  takes one from the work that is left.
\<close>

fun holds :: "Goroutine \<Rightarrow> int list" where
  "holds (Sending i) = [i]" | "holds _ = []"

fun weight :: "Goroutine \<Rightarrow> nat" where
  "weight Looping = 1" | "weight (Sending i) = 3" | "weight (Counting ok) = 2" | "weight Returned = 0"

fun unsettled :: "Goroutine \<Rightarrow> nat" where
  "unsettled (Counting ok) = 1" | "unsettled _ = 0"

fun returned :: "Goroutine \<Rightarrow> nat" where
  "returned Returned = 1" | "returned _ = 0"

definition load_inv :: "string \<Rightarrow> nat \<Rightarrow> nat \<Rightarrow> nat \<Rightarrow> Load \<Rightarrow> bool" where
  "load_inv baseURL N C issued s \<longleftrightarrow>
     \<not> ld_panic s \<and> length (ld_routines s) = C \<and> issued \<le> N \<and>
     unat (ld_next s) = issued + sum_list (map returned (ld_routines s)) \<and>
     (sum_list (map returned (ld_routines s)) = 0 \<or> issued = N) \<and>
     mset (ld_sent s) + mset (map (load_request baseURL) (concat (map holds (ld_routines s)))) =
       mset (map (load_request baseURL \<circ> int) [0..<issued]) \<and>
     unat (ld_success s) + unat (ld_failures s) + sum_list (map unsettled (ld_routines s)) = length (ld_sent s)"

definition work_left :: "nat \<Rightarrow> nat \<Rightarrow> Load \<Rightarrow> nat" where
  "work_left N issued s = 3 * (N - issued) + sum_list (map weight (ld_routines s))"

lemma load_start_inv: "load_inv baseURL N C 0 (load_start (int C))"
  by (simp add: load_inv_def load_start_def sum_list_replicate)

lemma work_left_start: "work_left N 0 (load_start (int C)) = 3 * N + C"
  by (simp add: work_left_def load_start_def sum_list_replicate)

lemma returned_le: "sum_list (map returned gs) \<le> length gs"
proof (induction gs)
  case (Cons g gs)
  then show ?case by (cases g) simp_all
qed simp

lemma load_step_cases:
  assumes "load_step parses baseURL total_n k ok s = Some s'"
  obtains gs g gs' g' s1 where "ld_routines s = gs @ g # gs'" "routine_step parses baseURL total_n ok g s = Some (g', s1)"
    "s' = s1\<lparr>ld_routines := gs @ g' # gs'\<rparr>"
proof -
  from assms obtain g' s1 where k: "k < length (ld_routines s)"
    "routine_step parses baseURL total_n ok (ld_routines s ! k) s = Some (g', s1)"
    "s' = s1\<lparr>ld_routines := (ld_routines s)[k := g']\<rparr>"
    by (auto simp: load_step_def split: if_splits option.splits)
  show thesis
  proof (rule that)
    show "ld_routines s = take k (ld_routines s) @ ld_routines s ! k # drop (Suc k) (ld_routines s)"
      by (rule id_take_nth_drop [OF k(1)])
    show "s' = s1\<lparr>ld_routines := take k (ld_routines s) @ g' # drop (Suc k) (ld_routines s)\<rparr>"
      using k by (simp add: upd_conv_take_nth_drop)
  qed (rule k(2))
qed

lemma unat_Suc:
  fixes w :: "64 word"
  assumes "unat w < 2 ^ 63"
  shows "unat (w + 1) = Suc (unat w)" "sint (w + 1 - 1) = int (unat w)"
proof -
  have "unat (w + 1) = (unat w + 1) mod 2 ^ 64"
    using unat_word_ariths(1) [of w 1] by simp
  moreover have "unat w + 1 < 2 ^ 64" using assms by simp
  ultimately show "unat (w + 1) = Suc (unat w)" by (simp only: mod_less Suc_eq_plus1)
  have "int (unat w) < 2 ^ 63" using assms by (metis of_nat_less_iff of_nat_numeral of_nat_power)
  then have "signed_take_bit 63 (int (unat w)) = int (unat w)"
    by (intro signed_take_bit_int_eq_self order_trans [OF _ of_nat_0_le_iff]) simp_all
  then have "sint w = int (unat w)" by (simp add: sint_uint)
  then show "sint (w + 1 - 1) = int (unat w)" by (simp only: add_diff_cancel_right')
qed

lemma routine_inv:
  assumes inv: "load_inv baseURL N C issued s" and url: "parses (baseURL @ ''/v1/payments'')" and small: "N + C < 2 ^ 63"
    and routines: "ld_routines s = gs @ g # gs'"
    and step: "routine_step parses baseURL (int N) ok g s = Some (g', s1)"
  shows "\<exists>issued'. load_inv baseURL N C issued' (s1\<lparr>ld_routines := gs @ g' # gs'\<rparr>) \<and>
    work_left N issued s = Suc (work_left N issued' (s1\<lparr>ld_routines := gs @ g' # gs'\<rparr>))"
proof (cases g)
  case Looping
  let ?r = "sum_list (map returned (ld_routines s))"
  have "?r \<le> C" using returned_le [of "ld_routines s"] inv by (simp add: load_inv_def)
  then have "unat (ld_next s) < 2 ^ 63" using inv small by (simp add: load_inv_def)
  note drawn = unat_Suc [OF this]
  show ?thesis
  proof (cases "issued < N")
    case True
    with inv have zero: "?r = 0" "unat (ld_next s) = issued" by (auto simp: load_inv_def)
    with True step Looping drawn have "g' = Sending (int issued)" "s1 = s\<lparr>ld_next := ld_next s + 1\<rparr>"
      by (auto simp: Let_def)
    with inv True zero drawn routines Looping show ?thesis
      by (intro exI [of _ "Suc issued"]) (auto simp: load_inv_def work_left_def ac_simps)
  next
    case False
    with inv have "issued = N" "unat (ld_next s) = N + ?r" by (auto simp: load_inv_def)
    moreover from this step Looping drawn have "g' = Returned" "s1 = s\<lparr>ld_next := ld_next s + 1\<rparr>"
      by (auto simp: Let_def)
    ultimately show ?thesis
      using inv drawn routines Looping by (intro exI [of _ N]) (auto simp: load_inv_def work_left_def)
  qed
next
  case (Sending i)
  with inv step routines url show ?thesis
    by (intro exI [of _ issued]) (auto simp: load_inv_def work_left_def load_request_def ac_simps)
next
  case (Counting answer)
  have "length (ld_sent s) \<le> issued"
  proof -
    from inv have "size (mset (ld_sent s) + mset (map (load_request baseURL) (concat (map holds (ld_routines s))))) =
        size (mset (map (load_request baseURL \<circ> int) [0..<issued]))" by (simp only: load_inv_def)
    then show ?thesis by simp
  qed
  then have "unat (ld_success s) < 2 ^ 63" "unat (ld_failures s) < 2 ^ 63"
    using inv small by (simp_all add: load_inv_def)
  note counted = unat_Suc(1) [OF this(1)] unat_Suc(1) [OF this(2)]
  from inv step routines Counting counted show ?thesis
    by (cases answer; intro exI [of _ issued]) (auto simp: load_inv_def work_left_def)
qed (use step in simp)

lemma load_run_inv:
  assumes "load_run parses baseURL (int N) sched s = Some s'" "load_inv baseURL N C issued s" "N + C < 2 ^ 63"
    and url: "parses (baseURL @ ''/v1/payments'')"
  shows "\<exists>issued'. load_inv baseURL N C issued' s' \<and>
    work_left N issued s = length sched + work_left N issued' s'"
  using assms(1,2)
proof (induction sched arbitrary: s issued)
  case (Cons x sched)
  obtain k ok where x: "x = (k, ok)" by fastforce
  from Cons.prems(1) obtain s1 where s1: "load_step parses baseURL (int N) k ok s = Some s1"
    "load_run parses baseURL (int N) sched s1 = Some s'" by (auto simp: x split: option.splits)
  from load_step_cases [OF s1(1)] routine_inv [where parses = parses, OF Cons.prems(2) url assms(3)]
  obtain issued1 where "load_inv baseURL N C issued1 s1" "work_left N issued s = Suc (work_left N issued1 s1)"
    by metis
  with Cons.IH [OF s1(2)] show ?case by fastforce
qed auto

lemma load_run_append:
  "load_run parses baseURL total_n (sched @ sched') s =
     (case load_run parses baseURL total_n sched s of None \<Rightarrow> None | Some s' \<Rightarrow> load_run parses baseURL total_n sched' s')"
  by (induction sched arbitrary: s) (auto split: option.splits)

lemma load_progress:
  assumes "\<not> waited s" "\<not> ld_panic s"
  shows "\<exists>k s'. load_step parses baseURL total_n k ok s = Some s'"
proof -
  from assms(1) obtain k where k: "k < length (ld_routines s)" "ld_routines s ! k \<noteq> Returned"
    by (auto simp: waited_def list_all_length)
  have "routine_step parses baseURL total_n ok (ld_routines s ! k) s \<noteq> None"
    using k(2) by (cases "ld_routines s ! k") (simp_all add: Let_def)
  then obtain x where "routine_step parses baseURL total_n ok (ld_routines s ! k) s = Some x" by blast
  with k(1) assms(2) show ?thesis by (intro exI [of _ k]) (auto simp: load_step_def split: prod.splits)
qed

lemma waited_iff:
  assumes "load_inv baseURL N C issued s" "0 < C"
  shows "waited s \<longleftrightarrow> work_left N issued s = 0"
proof
  assume w: "waited s"
  then have all: "\<forall>g \<in> set (ld_routines s). g = Returned" by (simp add: waited_def list_all_iff)
  then have eq: "ld_routines s = replicate C Returned"
    using assms(1) by (auto simp: load_inv_def intro: replicate_eqI)
  have "issued = N" using assms by (simp add: load_inv_def eq sum_list_replicate)
  then show "work_left N issued s = 0" by (simp add: work_left_def eq sum_list_replicate)
next
  assume "work_left N issued s = 0"
  then have "\<forall>g \<in> set (ld_routines s). weight g = 0" by (auto simp: work_left_def sum_list_eq_0_iff)
  then show "waited s" by (auto simp: waited_def list_all_iff elim!: weight.elims dest!: bspec)
qed

lemma waited_sent:
  assumes "load_inv baseURL N C issued s" "0 < C" "waited s"
  shows "mset (ld_sent s) = mset (map (load_request baseURL \<circ> int) [0..<N])"
    and "unat (ld_success s) + unat (ld_failures s) = N"
proof -
  have "\<forall>g \<in> set (ld_routines s). g = Returned" using assms(3) by (simp add: waited_def list_all_iff)
  then have eq: "ld_routines s = replicate C Returned"
    using assms(1) by (auto simp: load_inv_def intro: replicate_eqI)
  have "issued = N" using assms(1,2) by (simp add: load_inv_def eq sum_list_replicate)
  then show sent: "mset (ld_sent s) = mset (map (load_request baseURL \<circ> int) [0..<N])"
    using assms(1) by (simp add: load_inv_def eq)
  have "length (ld_sent s) = N" using arg_cong [OF sent, of size] by simp
  then show "unat (ld_success s) + unat (ld_failures s) = N"
    using assms(1) by (simp add: load_inv_def eq sum_list_replicate)
qed

lemma envInt_pos: "0 < fallback \<Longrightarrow> 0 < envInt getenv name fallback"
  by (auto simp: envInt_def split: sum.splits)

text \<open>A run of the script, in terms of the numbers it reads from its environment.\<close>

lemma load_main_cases:
  assumes "load_main parses getenv sched = Some s"
    and "envInt getenv ''TOTAL'' 500 + envInt getenv ''CONCURRENCY'' 25 < 2 ^ 63"
    and "parses (load_URL getenv @ ''/v1/payments'')"
  obtains baseURL N C issued where "envInt getenv ''TOTAL'' 500 = int N" "envInt getenv ''CONCURRENCY'' 25 = int C"
    "0 < C" "load_inv baseURL N C issued s" "3 * N + C = length sched + work_left N issued s"
    "\<And>sched'. load_main parses getenv (sched @ sched') = load_run parses baseURL (int N) sched' s"
    "baseURL = load_URL getenv"
proof -
  define baseURL where "baseURL = load_URL getenv"
  have url: "parses (baseURL @ ''/v1/payments'')" using assms(3) by (simp add: baseURL_def)
  have pos: "0 < envInt getenv ''TOTAL'' 500" "0 < envInt getenv ''CONCURRENCY'' 25" by (simp_all add: envInt_pos)
  then obtain N C where NC: "envInt getenv ''TOTAL'' 500 = int N" "envInt getenv ''CONCURRENCY'' 25 = int C" "0 < C"
    by (metis pos_int_cases)
  have "int (N + C) < int (2 ^ 63)" using assms(2) NC by simp
  then have small: "N + C < 2 ^ 63" by (simp only: of_nat_less_iff)
  have run: "load_main parses getenv sched' = load_run parses baseURL (int N) sched' (load_start (int C))" for sched'
    by (simp add: load_main_def baseURL_def NC)
  from load_run_inv [where parses = parses and baseURL = baseURL, OF _ load_start_inv small url] assms(1) obtain issued where
    "load_inv baseURL N C issued s" "3 * N + C = length sched + work_left N issued s"
    unfolding run by (metis work_left_start)
  with NC show thesis
    by (rule that) (use assms(1) in \<open>simp_all add: run load_run_append baseURL_def\<close>)
qed

section \<open>Properties\<close>

text \<open>
  C31: The load script ends under every interleaving of its goroutines and all answers of
  the server: as long as a goroutine has not returned some goroutine can move, and a run
  has come to its end after exactly three steps for each request and one for each goroutine.
  (The total and the number of goroutines together stay within a 64-bit integer, and the base URL parses.)
\<close>

theorem load_terminates:
  assumes "load_main parses getenv sched = Some s"
    and "envInt getenv ''TOTAL'' 500 + envInt getenv ''CONCURRENCY'' 25 < 2 ^ 63"
    and "parses (load_URL getenv @ ''/v1/payments'')"
  shows "int (length sched) \<le> 3 * envInt getenv ''TOTAL'' 500 + envInt getenv ''CONCURRENCY'' 25 \<and>
     (waited s \<longleftrightarrow> int (length sched) = 3 * envInt getenv ''TOTAL'' 500 + envInt getenv ''CONCURRENCY'' 25) \<and>
     (\<not> waited s \<longrightarrow> (\<forall>ok. \<exists>k s'. load_main parses getenv (sched @ [(k, ok)]) = Some s'))"
  using assms
proof (cases rule: load_main_cases)
  case (1 baseURL N C issued)
  have "\<exists>k s'. load_main parses getenv (sched @ [(k, ok)]) = Some s'" if "\<not> waited s" for ok
    using load_progress [OF that, of parses baseURL "int N" ok] 1(4,6) by (auto simp: load_inv_def split: option.splits)
  with waited_iff [OF 1(4,3)] 1(1,2,5) show ?thesis by auto
qed

text \<open>
  C32: When the script has ended, every request from the first to the last was sent exactly once, no
  two of them with the same idempotency key, and the counters of successes and failures add up to the total.
\<close>

theorem load_exact:
  assumes "load_main parses getenv sched = Some s" "waited s"
    and "envInt getenv ''TOTAL'' 500 + envInt getenv ''CONCURRENCY'' 25 < 2 ^ 63"
    and "parses (load_URL getenv @ ''/v1/payments'')"
  shows "mset (ld_sent s) =
       mset (map (load_request (load_URL getenv))
         [0..envInt getenv ''TOTAL'' 500 - 1]) \<and>
     distinct (map lq_Key (ld_sent s)) \<and>
     uint (ld_success s) + uint (ld_failures s) = envInt getenv ''TOTAL'' 500"
  using assms(1,3,4)
proof (cases rule: load_main_cases)
  case (1 baseURL N C issued)
  note sent = waited_sent [OF 1(4,3) assms(2)]
  have up: "map int [0..<N] = [0..int N - 1]" by (induction N) (simp_all add: upto_rec2)
  have "mset (map lq_Key (ld_sent s)) = mset (map lq_Key (map (load_request baseURL \<circ> int) [0..<N]))"
    using sent(1) by (simp only: mset_map)
  moreover have "distinct (map lq_Key (map (load_request baseURL \<circ> int) [0..<N]))"
    by (auto simp: distinct_map inj_on_def load_request_def dest: nat_digits_inj)
  ultimately have "distinct (map lq_Key (ld_sent s))" by (metis mset_eq_imp_distinct_iff)
  moreover have "uint (ld_success s) + uint (ld_failures s) = int N"
    using arg_cong [OF sent(2), of int] by simp
  ultimately show ?thesis
    using sent(1) 1(1,7) by (simp flip: up)
qed

text \<open>One request, by one of two goroutines.\<close>

definition demo_getenv :: "string \<Rightarrow> string" where
  "demo_getenv name = (if name = ''TOTAL'' then ''1'' else if name = ''CONCURRENCY'' then ''2'' else [])"

definition demo_load :: Load where
  "demo_load = \<lparr>ld_next = 3, ld_success = 1, ld_failures = 0, ld_routines = [Returned, Returned],
     ld_sent = [load_request ''http://localhost:8080'' 0], ld_panic = False\<rparr>"

lemma demo_numbers: "envInt demo_getenv ''TOTAL'' 500 = 1" "envInt demo_getenv ''CONCURRENCY'' 25 = 2"
  by code_simp+

lemma demo_load_run:
  "load_main (\<lambda>_. True) demo_getenv [(1, True), (0, True), (1, True), (1, True), (1, True)] = Some demo_load" "waited demo_load"
  by (simp_all add: load_main_def load_URL_def demo_numbers load_start_def load_step_def demo_load_def waited_def
      demo_getenv_def eval_nat_numeral)

theorem load_terminates_witness:
  "int (length [(1 :: nat, True), (0, True), (1, True), (1, True), (1, True)]) =
     3 * envInt demo_getenv ''TOTAL'' 500 + envInt demo_getenv ''CONCURRENCY'' 25"
  using load_terminates [OF demo_load_run(1)] demo_load_run(2) by (simp add: demo_numbers)

theorem load_exact_witness:
  "mset (ld_sent demo_load) = mset (map (load_request ''http://localhost:8080'') [0..0]) \<and>
     uint (ld_success demo_load) + uint (ld_failures demo_load) = 1"
  using load_exact [OF demo_load_run] by (simp add: demo_numbers load_URL_def demo_getenv_def)

end
