(* ===== verification/Spec2Isabelle.thy ===== *)
theory Spec2Isabelle
  imports Platform_Run Payout_Effects Outbox_Delivery Http_Guards Http_Webhooks Http_Ledger Commands
    Worker_Process Postgres_Guards Load
begin

text \<open>
  A payment platform with a double-entry ledger (Go): an HTTP API creates, authorizes, captures and
  refunds payments, reserves payouts and opens disputes; every money movement writes the changed
  record, a balanced pair of ledger entries and an outbox event in one store call; a worker
  delivers the events. This development models the program's own logic, function by function,
  and proves what makes it correct.

  \<^bold>\<open>The parts and their theories\<close>

  \<open>Ledger_Prelude\<close>: errors and results, sums over maps, the order in which a Go map is visited,
  the collections \<open>store_simps\<close>, \<open>abs_simps\<close>, \<open>balance_simps\<close>.
  \<open>Decimal_Ext\<close>: the package shopspring/decimal, which is not in the repository, as a record of
  functions with its documented laws as the locale \<open>decimal_laws\<close>; a coefficient/exponent instance
  shows that the laws can hold and runs the witnesses.
  \<open>Go_Strings\<close>: the functions of strings, encoding/hex and encoding/json the code calls.
  \<open>Domain\<close>: src/internal/domain/payment.go, all types and functions.
  \<open>Store_Interface\<close>: the interface \<open>Store\<close> of src/internal/store/store.go as a record of methods.
  \<open>Memory_Store\<close>: \<open>MemoryStore\<close> of the same file, each method one atomic operation (the mutex is
  held throughout), the state a record of maps and the ledger slice.
  \<open>Metrics\<close>: src/internal/service/metrics.go, counters as 64-bit words.
  \<open>Payment_Service\<close>: src/internal/service/payment_service.go and fakes.go over any store, provider
  and risk engine. UUIDs are drawn from a stream; calls to the provider are logged.
  \<open>Payout_Dispute\<close>: src/internal/service/payout.go and dispute.go.
  \<open>Ledger_Book\<close>: the abstract specification, a book of payments, payouts, disputes and postings
  with eleven guarded moves, and its invariant: what each account holds in terms of the records.
  \<open>Store_Contract\<close>: what the services need of a store, as the locale \<open>store_contract\<close> through an
  abstraction to the book; a call that returns an error did nothing, or all of it and only its answer
  was lost (\<open>outcome\<close>). \<open>Memory_Contract\<close> interprets it on the memory store.
  \<open>Platform\<close>: all requests together as a step relation. A request reads and later writes, and the
  store calls of other requests may run in between. Over any store with the contract every step
  is at most one move of the book; \<open>Ledger_Totals\<close> turns the book's invariant into statements
  about the memory store, \<open>Platform_Run\<close> adds what holds from one state to a later one.
  \<open>Demo_Run\<close>: one concrete run that the witnesses use.
  \<open>Service_Effects\<close>, \<open>Payout_Effects\<close>: the operations one by one, on every branch.
  \<open>Go_Crypto\<close>: SHA-256, HMAC and the constant-time comparison of Go's standard library.
  \<open>Outbox\<close>: src/internal/service/outbox.go and the loop of src/cmd/worker/main.go; what is sent is a
  history, and the broker and the merchant's endpoint answer according to it. \<open>Outbox_Laws\<close> states
  what the worker needs of a store as the locale \<open>outbox_store\<close>, interpreted on the memory store;
  \<open>Outbox_Delivery\<close> has the guarantees of delivery.
  \<open>Reconciliation\<close>: src/internal/service/reconciliation.go.
  \<open>Security\<close>: the authenticator and the two rate limiters of src/internal/httpapi/security.go.
  \<open>Go_Json\<close>: the decoder of encoding/json, with the proof that its fuel is enough and that it reads
  back what the encoder writes.
  \<open>Http_Server\<close>: src/internal/httpapi/server.go, webhook.go, trace.go and \<open>requireMerchant\<close>: every
  handler on the request, the state of the process and what the run-time decides (\<open>Call\<close>).
  \<open>Http_Laws\<close> has the locale \<open>request_closed\<close>, the contract between the services and the handlers,
  interpreted on reachability in the platform and on the log of provider calls;
  \<open>Http_Guards\<close>, \<open>Http_Webhooks\<close> and \<open>Http_Ledger\<close> the properties, \<open>Demo_Http\<close> the witnesses' server.
  \<open>Commands\<close>: src/cmd/api/main.go and src/cmd/migrate/main.go.
  \<open>Postgres_Store\<close>: src/internal/store/postgres.go over the tables of src/migrations. A table is a map
  from its primary key to a row; a statement returns an error or a result with the changed tables; a method
  is a transaction of statements: an error before the commit rolls back, and a lost answer is an error
  after the change was made. The conversions into column types and the driver's scan of a \<open>NULL\<close> are the
  record \<open>Pg\<close>; what happens around a call (failures, lost answers, clock, row locks, the order of rows,
  commits of others between what a method reads without a lock and what it writes) is the record \<open>PgContext\<close>.
  \<open>Postgres_Contract\<close> and \<open>Postgres_Records\<close> show that the store keeps \<open>store_contract\<close> for canonical
  calls (\<open>canonicalStore\<close>), from the documented laws of the column types (locale \<open>pg_laws\<close>);
  \<open>Postgres_Schema\<close> has the schema as a type invariant with rules for programs of statements (\<open>keeps\<close>) and
  the relation \<open>pg_run\<close> of any calls on a clock; \<open>Postgres_Guards\<close> the agreement of the code's checks with the
  schema and the idempotency keys; \<open>Postgres_Platform\<close> the platform over PostgreSQL;
  \<open>Postgres_Outbox\<close> interprets \<open>outbox_store\<close> on it and proves the leases; \<open>Demo_Postgres\<close> the witnesses'
  column types and run.
  \<open>Worker_Process\<close>: src/cmd/worker/main.go.
  \<open>Load\<close>: src/scripts/load.go, goroutines as atomic steps on shared 64-bit counters under any schedule.

  \<^bold>\<open>What the theorems show\<close>

  This theory: in every reachable state, under any interleaving, the available balance formula, the
  balance of the books, the agreement of the ledger with the payments, the reserved and frozen
  accounts, and the refinement of the book. \<open>Platform_Run\<close>: idempotency of creation across runs,
  records that only move forward. \<open>Service_Effects\<close> and \<open>Payout_Effects\<close>: when an operation
  succeeds, all it writes, what errors leave untouched. \<open>Domain\<close>: the exact reachability of the
  state machine and the exact meaning of the balance check. \<open>Metrics\<close>: the exported view.
  \<open>Outbox_Delivery\<close>: events are marked only after an acknowledged delivery, a working publisher
  drains the outbox, retries and dead letters of merchant webhooks. \<open>Reconciliation\<close>: the exact
  mismatches, sorted. \<open>Security\<close>: the limiters against a reference and a bound. \<open>Http_Guards\<close>: what
  keys and signatures are required, merchants cannot touch each other's payments. \<open>Http_Webhooks\<close>:
  an event takes effect at most once, and is lost when it fails. \<open>Http_Ledger\<close>: the ledger's
  invariants under any sequence of HTTP requests, traced responses, payloads that can be read back.
  \<open>Commands\<close>: migrations are applied once.
  \<open>Postgres_Platform\<close>: over PostgreSQL every step refines the book and the balance formula holds, under the
  conditions below; the races of \<open>Transition\<close> and \<open>CreatePayout\<close> as concrete runs (\<open>captured_marked_failed\<close>,
  \<open>payout_uncovered\<close>). \<open>Postgres_Guards\<close>: what the code validates the schema never refuses, and a key
  creates at most one payment. \<open>Postgres_Outbox\<close>: claims are leases, events are marked only after an
  acknowledged delivery. \<open>Worker_Process\<close>: the rounds of the worker drain the outbox table and publish what
  they take from it. \<open>Load\<close>: the script ends under every schedule and sends every request exactly once.

  \<^bold>\<open>Modelling choices\<close>

  Decimals are a type parameter; \<open>val\<close> gives the rational number a decimal stands for. Errors are
  values of a sum type, a Go panic is the error \<open>Panic\<close>. A range over a map takes the order as an
  argument. Loops are recursion over the visited list and terminate. The only fuel is that of the JSON
  parser, one more than twice the length of the text; \<open>Go_Json\<close> proves that more never changes the
  result. The hypotheses on the environment are that UUIDs do not repeat and that upper-casing is idempotent.
  A method of the PostgreSQL store that locks the rows it changes (\<open>FOR UPDATE\<close>), or is a single statement, or
  only inserts, is one step. \<open>CreatePayment\<close>, \<open>Transition\<close> and \<open>CreatePayout\<close> decide on rows they do not
  lock (the advisory lock of \<open>CreatePayout\<close> keeps away other payouts, not refunds and disputes), so
  they are a read and a write, and \<open>cx_between\<close> is what other transactions commit between the two. Server errors are
  named by their SQLSTATE. The refinement of the book and the balance formula over PostgreSQL are about
  \<open>canonicalStore\<close>: calls with canonical UUIDs, three-character currencies and amounts of \<open>numeric(20,6)\<close>, and no
  commit of others between the read and the write of those three methods; statements may fail and
  answers may be lost anywhere. The lease and idempotency theorems have no such restriction: a run
  \<open>pg_run\<close> is any sequence of the writing steps, with any arguments.

  \<^bold>\<open>Not modelled\<close>

  Contexts, time-outs and logging carry no state of the program. Listening on a port is a parameter, and
  deployment files hold no program logic. Of net/http the model has what the handlers see: method, path
  segments, headers, body. The text of the JSON decoder's errors is a parameter. A handler of the HTTP
  server runs without other requests in between; the interleaving of requests is in \<open>Platform\<close>, and in
  \<open>Reconciliation\<close> every lookup may find another state. The load script's timing and output are left out.
\<close>

section \<open>Balances and records in every reachable state\<close>

lemma demo_balance: "Memory_AvailableBalance ce_pkg [] ''m'' ''USD'' (w_store demo_w5) = Inr (Dec 15 0)"
  by code_simp

text \<open>
  C1: In every state the platform can reach, under any interleaving of requests, the
  available balance the store reports for a merchant in a currency is the captured and not
  refunded amount of its payments, less its payouts that are pending or paid, less its disputes
  that are open or lost.
\<close>

theorem available_balance:
  assumes "ledger_env D val env"
    and "platform_reachable env (memoryStore D) (\<lambda>_. True) NewMemory (w, ts)"
  shows "\<exists>b. Memory_AvailableBalance D c m cur (w_store w) = Inr b \<and>
     val b = settled_total val m cur (w_store w)
       - payout_total val {PayoutPending, PayoutPaid} m cur (w_store w)
       - dispute_total val {DisputeOpen, DisputeLost} m cur (w_store w)"
proof -
  have "decimal_laws D val" using assms(1) by (rule ledger_env.axioms)
  then show ?thesis
    using ledger_env.reach_available [OF assms, of m cur]
    by (simp add: Memory_AvailableBalance_def decimal_laws.val_balance_of_loop decimal_laws.val_Zero)
qed

theorem available_balance_witness:
  "settled_total ce_val ''m'' ''USD'' (w_store demo_w5)
     - payout_total ce_val {PayoutPending, PayoutPaid} ''m'' ''USD'' (w_store demo_w5)
     - dispute_total ce_val {DisputeOpen, DisputeLost} ''m'' ''USD'' (w_store demo_w5) = 15"
  using available_balance [OF demo.ledger_env_axioms demo_reachable(5), of "[]" "''m''" "''USD''"]
  by (simp add: demo_balance)

text \<open>
  C2: In every reachable state the ledger is in balance currency by currency: credits and
  debits of a currency have the same total. And the ledger and the outbox agree: every money
  movement wrote exactly two entries and one event, so there are twice as many entries as events.
\<close>

theorem books_balance:
  assumes "ledger_env D val env"
    and "platform_reachable env (memoryStore D) (\<lambda>_. True) NewMemory (w, ts)"
  shows "currency_balance val cur (ledger (w_store w)) = 0 \<and>
     length (ledger (w_store w)) = 2 * card (dom (outbox (w_store w)))"
  using ledger_env.reach_entries [OF assms] by simp

theorem books_balance_witness:
  "card (dom (outbox (w_store demo_w5))) = 4"
proof -
  have "length (ledger (w_store demo_w5)) = 8" by code_simp
  with books_balance [OF demo.ledger_env_axioms demo_reachable(5)] show ?thesis by simp
qed

text \<open>
  C8: In every reachable state every payment is filed under its own identifier, has a positive
  amount, and its amounts are ordered: refunded at most captured, captured at most authorized. The
  status tells which of them are zero: nothing is captured before \<open>captured\<close>, nothing refunded
  before \<open>refunded\<close>, and a failed payment never captured anything.
\<close>

theorem payment_amounts:
  assumes "ledger_env D val env"
    and "platform_reachable env (memoryStore D) (\<lambda>_. True) NewMemory (w, ts)"
    and "payments (w_store w) i = Some p"
  shows "p_ID p = i \<and> 0 < val (p_Amount p) \<and> 0 \<le> val (p_RefundedAmount p) \<and>
     val (p_RefundedAmount p) \<le> val (p_CapturedAmount p) \<and>
     val (p_CapturedAmount p) \<le> val (p_Amount p) \<and>
     (p_Status p \<in> {PaymentCreated, PaymentAuthorized, PaymentFailed} \<longrightarrow> val (p_CapturedAmount p) = 0) \<and>
     (p_Status p = PaymentCaptured \<longrightarrow> 0 < val (p_CapturedAmount p) \<and> val (p_RefundedAmount p) = 0) \<and>
     (p_Status p = PaymentRefunded \<longrightarrow> 0 < val (p_RefundedAmount p))"
  using ledger_env.reach_payment(1,2) [OF assms] by (simp add: payment_ok_def)

theorem payment_amounts_witness:
  "payments (w_store demo_w3) demo_id = Some demo_captured \<and>
     0 < ce_val (p_CapturedAmount demo_captured) \<and> ce_val (p_RefundedAmount demo_captured) = 0"
proof -
  have p: "payments (w_store demo_w3) demo_id = Some demo_captured" by code_simp
  from payment_amounts [OF demo.ledger_env_axioms demo_reachable(3) p] p
  show ?thesis by (auto simp: demo_captured_def)
qed

text \<open>
  C9: In every reachable state the ledger entries of a payment agree with its record: the
  account \<open>customer:refunded\<close> holds its refunded amount, and the merchant's pending account holds
  what was authorized and not yet captured (nothing before the authorization; after a failure,
  nothing or the full amount when the payment had been authorized).
\<close>

theorem payment_ledger:
  assumes "ledger_env D val env"
    and "platform_reachable env (memoryStore D) (\<lambda>_. True) NewMemory (w, ts)"
    and "payments (w_store w) i = Some p"
  shows "payment_balance val i ''customer:refunded'' (ledger (w_store w)) = val (p_RefundedAmount p) \<and>
     (let pending = payment_balance val i (acct_pending (p_MerchantID p)) (ledger (w_store w)) in
      case p_Status p of
        PaymentCreated \<Rightarrow> pending = 0
      | PaymentFailed \<Rightarrow> pending = 0 \<or> pending = val (p_Amount p)
      | _ \<Rightarrow> pending = val (p_Amount p) - val (p_CapturedAmount p))"
proof -
  have "p_Status p \<noteq> PaymentStatusZero"
    using ledger_env.reach_payment(2) [OF assms] by (simp add: payment_ok_def)
  then show ?thesis
    using ledger_env.reach_payment(3-6) [OF assms] by (cases "p_Status p") (simp_all add: Let_def)
qed

theorem payment_ledger_witness:
  "payment_balance ce_val demo_id (acct_pending ''m'') (ledger (w_store demo_w3)) = 1990 / 100"
proof -
  have "payments (w_store demo_w3) demo_id = Some demo_captured" by code_simp
  from payment_ledger [OF demo.ledger_env_axioms demo_reachable(3) this]
  show ?thesis
    by (simp add: demo_captured_def demo_authorized_def demo_payment_def power_int_def power2_eq_square)
qed

text \<open>
  C10: In every reachable state the reserved account of a merchant holds exactly its pending
  payouts and the frozen account exactly its open disputes, and neither is ever negative.
\<close>

theorem reserved_frozen:
  assumes "ledger_env D val env"
    and "platform_reachable env (memoryStore D) (\<lambda>_. True) NewMemory (w, ts)"
  shows "reserved_of val m cur (w_store w) = payout_total val {PayoutPending} m cur (w_store w) \<and>
     frozen_of val m cur (w_store w) = dispute_total val {DisputeOpen} m cur (w_store w) \<and>
     0 \<le> reserved_of val m cur (w_store w) \<and> 0 \<le> frozen_of val m cur (w_store w)"
  using ledger_env.reach_reserved [OF assms] ledger_env.reach_totals_nonneg [OF assms]
  by (simp add: balance_defs)

theorem reserved_frozen_witness:
  "0 \<le> reserved_of ce_val ''m'' ''USD'' (w_store demo_w5)"
  using reserved_frozen [OF demo.ledger_env_axioms demo_reachable(5)] by blast

section \<open>Refinement\<close>

text \<open>
  C3: Every step of the platform, one atomic store call with the code around it, is at most one
  move of the abstract book, or leaves the book as it was; so the two-phase requests (read, then
  write) behave, under every interleaving, like a sequence of atomic moves: create, fail,
  authorize, capture, refund, payout, paid, payout failed, dispute opened, won and lost.
\<close>

theorem platform_refines_book:
  assumes "ledger_env D val env"
    and "platform_reachable env (memoryStore D) (\<lambda>_. True) NewMemory (w, ts)"
    and "platform_step env (memoryStore D) (\<lambda>_. True) (w, ts) (w', ts')"
  shows "absM val (w_store w') = absM val (w_store w) \<or>
     book_step (upper_currency (env_U env)) (absM val (w_store w)) (absM val (w_store w'))"
  using assms by (rule ledger_env.reach_step)

theorem platform_refines_book_witness:
  "absM ce_val (w_store demo_w1) = absM ce_val (w_store demo_w0) \<or>
   book_step (upper_currency (env_U demo_env)) (absM ce_val (w_store demo_w0)) (absM ce_val (w_store demo_w1))"
  by (rule platform_refines_book [OF demo.ledger_env_axioms demo_start
        step_create [OF demo_svc_simps(1) TrueI demo_calls(1)]])

end
